(* ===== verification/Si_Prelude.thy ===== *)
theory Si_Prelude
  imports Main "HOL-Library.Word" "HOL-Library.Char_ord"
begin

unbundle bit_operations_syntax

text \<open>
  Shared vocabulary of the development: machine integers, ESP-IDF error codes, the control-flow
  combinators that stand for the idioms \<open>ret = ret ?: f()\<close> and
  \<open>if (ret != ESP_OK) { ...; return e; }\<close>, the file system seen through the C library, and the
  generic lemmas on lists and 32-bit words that the components share.
\<close>

section \<open>Types\<close>

type_synonym u8 = "8 word"
type_synonym u16 = "16 word"
type_synonym u32 = "32 word"
type_synonym u64 = "64 word"
type_synonym bytes = "u8 list"
type_synonym path = string

text \<open>
  \<open>esp_err_t\<close> with the codes the sources name; \<open>ESP_ERR_OTHER\<close> is any other code a library
  call can hand back.
\<close>

datatype esp_err =
    ESP_OK
  | ESP_FAIL
  | ESP_ERR_NO_MEM
  | ESP_ERR_INVALID_ARG
  | ESP_ERR_INVALID_STATE
  | ESP_ERR_INVALID_SIZE
  | ESP_ERR_NOT_FOUND
  | ESP_ERR_NOT_SUPPORTED
  | ESP_ERR_TIMEOUT
  | ESP_ERR_INVALID_CRC
  | ESP_ERR_NOT_FINISHED
  | ESP_ERR_NOT_ALLOWED
  | ESP_ERR_OTHER int

text \<open>The contents of the mounted file systems: a path holds a file or nothing.\<close>

type_synonym fs = "path \<rightharpoonup> bytes"

definition UINT32_MAX :: u32 where
  "UINT32_MAX = 0xFFFFFFFF"

section \<open>Control flow\<close>

text \<open>\<open>ret ?: e\<close> for an expression without effects.\<close>

definition elvis :: "esp_err \<Rightarrow> esp_err \<Rightarrow> esp_err" where
  "elvis r e = (if r = ESP_OK then e else r)"

text \<open>
  \<open>check p h k\<close>: the call \<open>p\<close> has returned a code and a state; an error goes to the early
  return \<open>h\<close>, \<open>ESP_OK\<close> to the rest \<open>k\<close>.
\<close>

definition check ::
  "esp_err \<times> 's \<Rightarrow> (esp_err \<Rightarrow> 's \<Rightarrow> 'r) \<Rightarrow> ('s \<Rightarrow> 'r) \<Rightarrow> 'r" where
  "check p h k = (if fst p = ESP_OK then k (snd p) else h (fst p) (snd p))"

text \<open>\<open>ret = ret ?: k()\<close>: the effectful form, skipped after an error.\<close>

definition and_then ::
  "esp_err \<times> 's \<Rightarrow> ('s \<Rightarrow> esp_err \<times> 's) \<Rightarrow> esp_err \<times> 's" where
  "and_then p k = check p Pair k"

named_theorems rule_intros \<open>introduction rules for properties of the state a call leaves\<close>
named_theorems cstring \<open>facts on C strings and fixed-size buffers\<close>

lemma elvis_simps [simp]:
  "elvis ESP_OK e = e"
  "elvis r ESP_OK = r"
  "(elvis r e = ESP_OK) \<longleftrightarrow> r = ESP_OK \<and> e = ESP_OK"
  by (auto simp: elvis_def)

lemma check_simps [simp]:
  "check (ESP_OK, s) h k = k s"
  "r \<noteq> ESP_OK \<Longrightarrow> check (r, s) h k = h r s"
  by (simp_all add: check_def)

lemma and_then_simps [simp]:
  "and_then (ESP_OK, s) k = k s"
  "r \<noteq> ESP_OK \<Longrightarrow> and_then (r, s) k = (r, s)"
  by (simp_all add: and_then_def)

lemma check_split:
  "P (check p h k) \<longleftrightarrow>
     (\<forall>s. p = (ESP_OK, s) \<longrightarrow> P (k s)) \<and>
     (\<forall>r s. p = (r, s) \<and> r \<noteq> ESP_OK \<longrightarrow> P (h r s))"
  by (cases p) (auto simp: check_def)

lemma check_split_asm:
  "P (check p h k) \<longleftrightarrow>
     \<not> ((\<exists>s. p = (ESP_OK, s) \<and> \<not> P (k s)) \<or>
        (\<exists>r s. p = (r, s) \<and> r \<noteq> ESP_OK \<and> \<not> P (h r s)))"
  by (cases p) (auto simp: check_def)

lemmas check_splits = check_split check_split_asm

text \<open>
  A property of the state is carried through a sequence of calls: it suffices that each call
  keeps it. These are the rules the invariant proofs chain with.
\<close>

lemma check_state [rule_intros]:
  assumes "P (snd p)"
    and "\<And>r s. P s \<Longrightarrow> P (snd (h r s))"
    and "\<And>s. P s \<Longrightarrow> P (snd (k s))"
  shows "P (snd (check p h k))"
  using assms by (cases p) (auto simp: check_def)

lemma and_then_state [rule_intros]:
  assumes "P (snd p)" and "\<And>s. P s \<Longrightarrow> P (snd (k s))"
  shows "P (snd (and_then p k))"
  using assms by (cases p) (auto simp: and_then_def check_def)

lemma and_then_OK:
  "and_then p k = (ESP_OK, s') \<longleftrightarrow> (\<exists>s. p = (ESP_OK, s) \<and> k s = (ESP_OK, s'))"
  by (cases p) (auto simp: and_then_def check_def)

section \<open>C strings and buffers\<close>

text \<open>\<open>strlcpy(dst, src, n)\<close> with \<open>n > 0\<close>: at most \<open>n - 1\<close> characters and a terminator.\<close>

definition strlcpy :: "string \<Rightarrow> nat \<Rightarrow> string" where
  "strlcpy src n = take (n - 1) src"

lemma strlcpy_fits [cstring]: "length src < n \<Longrightarrow> strlcpy src n = src"
  by (simp add: strlcpy_def)

lemma length_strlcpy [cstring]: "0 < n \<Longrightarrow> length (strlcpy src n) < n"
  by (auto simp: strlcpy_def)

text \<open>
  \<open>has_suffix\<close> of a string: \<open>strcmp\<close> of the tail of that length. Two strings with different
  last characters cannot be equal, which keeps upload files and assets apart.
\<close>

definition ends_with :: "string \<Rightarrow> string \<Rightarrow> bool" where
  "ends_with str suffix \<longleftrightarrow>
     length suffix \<le> length str \<and> drop (length str - length suffix) str = suffix"

lemma ends_with_append [cstring, simp]: "ends_with (p @ s) s"
  by (simp add: ends_with_def)

lemma ends_with_iff [cstring]: "ends_with str s \<longleftrightarrow> (\<exists>p. str = p @ s)"
proof
  assume "ends_with str s"
  then have "str = take (length str - length s) str @ s"
    by (metis append_take_drop_id ends_with_def)
  then show "\<exists>p. str = p @ s" by blast
qed auto

section \<open>Lists\<close>

text \<open>The first element a search loop stops at.\<close>

lemma find_Some_first:
  "find P xs = Some x \<Longrightarrow> x \<in> set xs \<and> P x"
  by (induction xs) (auto split: if_splits)

lemma find_None_all: "find P xs = None \<longleftrightarrow> (\<forall>x \<in> set xs. \<not> P x)"
  by (induction xs) auto

text \<open>
  Cutting a byte string into blocks of \<open>n\<close> bytes, the last one possibly shorter: what a loop
  that reads \<open>min n remaining\<close> bytes per turn goes through.
\<close>

function blocks :: "nat \<Rightarrow> 'a list \<Rightarrow> 'a list list" where
  "blocks n xs = (if n = 0 \<or> xs = [] then [] else take n xs # blocks n (drop n xs))"
  by pat_completeness auto
termination
  by (relation "measure (\<lambda>(n, xs). length xs)") auto

declare blocks.simps [simp del]

lemma blocks_Nil [simp]: "blocks n [] = []"
  by (simp add: blocks.simps)

lemma blocks_step:
  "0 < n \<Longrightarrow> xs \<noteq> [] \<Longrightarrow> blocks n xs = take n xs # blocks n (drop n xs)"
  by (subst blocks.simps) simp

lemma concat_blocks: "0 < n \<Longrightarrow> concat (blocks n xs) = xs"
proof (induction n xs rule: blocks.induct)
  case (1 n xs)
  then show ?case by (cases "xs = []") (simp_all add: blocks_step)
qed

lemma blocks_bounds: "b \<in> set (blocks n xs) \<Longrightarrow> 0 < length b \<and> length b \<le> n"
proof (induction n xs rule: blocks.induct)
  case (1 n xs)
  show ?case
  proof (cases "n = 0 \<or> xs = []")
    case True
    with "1.prems" show ?thesis by (simp add: blocks.simps [of n xs])
  next
    case False
    with "1.prems" "1.IH" show ?thesis by (auto simp: blocks_step)
  qed
qed

section \<open>32-bit words\<close>

lemma unat_u32_less: "unat (x :: u32) < 4294967296"
proof -
  have "unat x < 2 ^ LENGTH(32)" by (rule unsigned_less)
  then show ?thesis by simp
qed

lemma unat_sub_u32: "(y :: u32) \<le> x \<Longrightarrow> unat (x - y) = unat x - unat y"
  by (simp add: unat_sub)

lemma unat_add_u32:
  "unat (x :: u32) + unat y < 4294967296 \<Longrightarrow> unat (x + y) = unat x + unat y"
  by (simp add: unat_word_ariths)

lemma unat_mult_u32:
  "unat (x :: u32) * unat y < 4294967296 \<Longrightarrow> unat (x * y) = unat x * unat y"
  by (simp add: unat_word_ariths)

lemma unat_of_nat_u32: "n < 4294967296 \<Longrightarrow> unat (of_nat n :: u32) = n"
  by (simp add: unat_of_nat)

lemma unat_ucast_u64 [simp]: "unat (ucast (x :: u32) :: u64) = unat x"
  by transfer (simp add: take_bit_take_bit)

lemma u64_less_Suc: "(x :: u64) < - 1 \<Longrightarrow> x < x + 1"
  by uint_arith

lemmas u32_arith = unat_sub_u32 unat_add_u32 unat_mult_u32 unat_of_nat_u32

end
