(* ===== verification/Target_Config.thy ===== *)
theory Target_Config
  imports Si_Prelude
begin

text \<open>
  The target configuration of \<open>main/prog/config/target_config.hpp\<close>: families, self tests, RAM
  regions, flash algorithm, images, and the two region searches. Fixed-size arrays are lists of
  that size with the count beside them, as in the struct; \<open>size_t\<close> is 32 bits wide on the device.
  The lemmas show that the range test is exact despite 32-bit arithmetic and that the searches
  return what their comments promise.
\<close>

section \<open>Data\<close>

datatype target_family = swd_cortex_m | esp32_serial

definition family_to_str :: "target_family \<Rightarrow> string" where
  "family_to_str f =
     (case f of swd_cortex_m \<Rightarrow> ''cortex-m (SWD)'' | esp32_serial \<Rightarrow> ''esp32 (serial)'')"

datatype assert_level = level_low | level_high

datatype test_type = INTERNAL_SIMPLE_TEST | INTERNAL_EXTEND_TEST | POWER_CONSUMPTION_TEST

record test_item =
  ti_type :: test_type
  ti_addr :: u32
  ti_name :: string

record ram_region =
  rr_start :: u32
  rr_end :: u32

definition rr_size :: "ram_region \<Rightarrow> u32" where
  "rr_size r = rr_end r - rr_start r"

definition rr_contains :: "ram_region \<Rightarrow> u32 \<Rightarrow> bool" where
  "rr_contains r addr \<longleftrightarrow> addr \<ge> rr_start r \<and> addr < rr_end r"

definition contains_range :: "ram_region \<Rightarrow> u32 \<Rightarrow> u32 \<Rightarrow> bool" where
  "contains_range r addr len \<longleftrightarrow>
     rr_end r \<ge> rr_start r \<and> addr \<ge> rr_start r \<and> addr \<le> rr_end r \<and> len \<le> rr_end r - addr"

record esp32_image =
  im_path :: path
  im_offset :: u32

record flash_algorithm =
  fa_name :: string
  fa_load_address :: u32
  fa_pc_init :: "u32 option"
  fa_pc_uninit :: "u32 option"
  fa_pc_program_page :: "u32 option"
  fa_pc_erase_sector :: "u32 option"
  fa_pc_erase_all :: "u32 option"
  fa_pc_verify :: "u32 option"
  fa_data_section_offset :: "u32 option"
  fa_flash_start :: "u32 option"
  fa_flash_end :: "u32 option"
  fa_page_size :: "u32 option"
  fa_erased_byte_value :: "u32 option"
  fa_program_page_timeout_ms :: "u32 option"
  fa_erase_sector_timeout_ms :: "u32 option"
  fa_algo_bin :: "bytes option"
  fa_algo_bin_len :: u32

definition MAX_RAM_REGIONS :: nat where "MAX_RAM_REGIONS = 4"
definition MAX_IMAGES :: nat where "MAX_IMAGES = 8"
definition MAX_TESTS :: nat where "MAX_TESTS = 16"

record target_config =
  cfg_family :: target_family
  cfg_variant_name :: string
  cfg_algo :: flash_algorithm
  cfg_has_algo :: bool
  cfg_ram_regions :: "ram_region list"
  cfg_ram_region_count :: nat
  cfg_chip :: string
  cfg_images :: "esp32_image list"
  cfg_image_count :: nat
  cfg_flash_size_kb :: "u32 option"
  cfg_baud :: u32
  cfg_reset_assert_level :: assert_level
  cfg_boot_assert_level :: assert_level
  cfg_tests :: "test_item list"
  cfg_test_count :: nat
  cfg_generation :: u32

text \<open>The member initialisers: \<open>flash_algorithm {}\<close> and \<open>target_config {}\<close>.\<close>

definition empty_algorithm :: flash_algorithm where
  "empty_algorithm = \<lparr>
     fa_name = [], fa_load_address = 0,
     fa_pc_init = None, fa_pc_uninit = None, fa_pc_program_page = None,
     fa_pc_erase_sector = None, fa_pc_erase_all = None, fa_pc_verify = None,
     fa_data_section_offset = None, fa_flash_start = None, fa_flash_end = None,
     fa_page_size = None, fa_erased_byte_value = None,
     fa_program_page_timeout_ms = None, fa_erase_sector_timeout_ms = None,
     fa_algo_bin = None, fa_algo_bin_len = 0\<rparr>"

definition empty_config :: target_config where
  "empty_config = \<lparr>
     cfg_family = swd_cortex_m, cfg_variant_name = [],
     cfg_algo = empty_algorithm, cfg_has_algo = False,
     cfg_ram_regions = replicate MAX_RAM_REGIONS \<lparr>rr_start = 0, rr_end = 0\<rparr>,
     cfg_ram_region_count = 0,
     cfg_chip = [],
     cfg_images = replicate MAX_IMAGES \<lparr>im_path = [], im_offset = 0\<rparr>,
     cfg_image_count = 0,
     cfg_flash_size_kb = None, cfg_baud = 115200,
     cfg_reset_assert_level = level_low, cfg_boot_assert_level = level_low,
     cfg_tests = replicate MAX_TESTS \<lparr>ti_type = INTERNAL_SIMPLE_TEST, ti_addr = 0, ti_name = []\<rparr>,
     cfg_test_count = 0,
     cfg_generation = 0\<rparr>"

text \<open>The loop \<open>for (i = 0; i < ram_region_count; i++)\<close> of \<open>algo_ram_region\<close>.\<close>

fun algo_region_loop :: "flash_algorithm \<Rightarrow> ram_region list \<Rightarrow> ram_region option" where
  "algo_region_loop fa [] = None"
| "algo_region_loop fa (r # rs) =
     (if \<not> contains_range r (fa_load_address fa) (fa_algo_bin_len fa) then algo_region_loop fa rs
      else case fa_data_section_offset fa of
          None \<Rightarrow> Some r
        | Some off \<Rightarrow> if \<not> rr_contains r off then Some r else Some r)"

definition algo_ram_region :: "target_config \<Rightarrow> ram_region option" where
  "algo_ram_region cfg =
     (if \<not> cfg_has_algo cfg then None
      else algo_region_loop (cfg_algo cfg) (take (cfg_ram_region_count cfg) (cfg_ram_regions cfg)))"

fun largest_loop :: "ram_region option \<Rightarrow> ram_region list \<Rightarrow> ram_region option" where
  "largest_loop best [] = best"
| "largest_loop best (r # rs) =
     largest_loop
       (case best of
          None \<Rightarrow> Some r
        | Some b \<Rightarrow> if rr_size r > rr_size b then Some r else best) rs"

definition largest_ram_region :: "target_config \<Rightarrow> ram_region option" where
  "largest_ram_region cfg =
     largest_loop None (take (cfg_ram_region_count cfg) (cfg_ram_regions cfg))"

section \<open>Range tests\<close>

text \<open>The bytes \<open>[addr, addr + len)\<close> of a region, counted without wrap-around.\<close>

definition range_inside :: "ram_region \<Rightarrow> u32 \<Rightarrow> u32 \<Rightarrow> bool" where
  "range_inside r addr len \<longleftrightarrow>
     unat (rr_start r) \<le> unat addr \<and> unat addr + unat len \<le> unat (rr_end r)"

lemma contains_range_iff: "contains_range r addr len \<longleftrightarrow> range_inside r addr len"
proof -
  have "addr \<le> rr_end r \<Longrightarrow>
      len \<le> rr_end r - addr \<longleftrightarrow> unat addr + unat len \<le> unat (rr_end r)"
    by (auto simp: word_le_nat_alt unat_sub_u32)
  then show ?thesis
    by (auto simp: contains_range_def range_inside_def word_le_nat_alt)
qed

lemma algo_region_loop_find:
  "algo_region_loop fa rs =
     find (\<lambda>r. contains_range r (fa_load_address fa) (fa_algo_bin_len fa)) rs"
  by (induction rs) (auto split: option.splits)

lemma largest_loop_props:
  assumes "largest_loop best rs = Some r"
  shows "(r \<in> set rs \<or> best = Some r) \<and>
     (\<forall>x \<in> set rs. rr_size x \<le> rr_size r) \<and> (\<forall>b. best = Some b \<longrightarrow> rr_size b \<le> rr_size r)"
  using assms
proof (induction rs arbitrary: best)
  case (Cons x xs)
  then show ?case
    by (auto split: option.splits if_splits) (fastforce dest: Cons.IH)+
qed simp

lemma largest_loop_Some: "largest_loop (Some b) rs \<noteq> None"
  by (induction rs arbitrary: b) auto

lemma largest_loop_None: "largest_loop None rs = None \<longleftrightarrow> rs = []"
  by (cases rs) (auto simp: largest_loop_Some)

section \<open>Properties\<close>

text \<open>
  \<open>contains_range\<close> computes with wrapping 32-bit words, yet it accepts a range exactly when
  all its bytes lie in the region as unbounded integers: no address plus length that overflows
  is ever accepted.
\<close>

theorem contains_range_exact:
  "contains_range r addr len \<longleftrightarrow>
     unat (rr_start r) \<le> unat addr \<and> unat addr + unat len \<le> unat (rr_end r)"
  by (simp add: contains_range_iff range_inside_def)

text \<open>
  \<open>algo_ram_region\<close> returns the first used region that holds the whole algorithm blob, and
  nothing exactly when there is no algorithm or no used region holds it.
\<close>

theorem algo_ram_region_selects:
  "algo_ram_region cfg =
     (if cfg_has_algo cfg
      then find (\<lambda>r. range_inside r (fa_load_address (cfg_algo cfg)) (fa_algo_bin_len (cfg_algo cfg)))
             (take (cfg_ram_region_count cfg) (cfg_ram_regions cfg))
      else None)"
  by (simp add: algo_ram_region_def algo_region_loop_find contains_range_iff)

text \<open>
  \<open>largest_ram_region\<close> is total on a non-empty memory map and returns a used region no other
  used region exceeds.
\<close>

theorem largest_ram_region_max:
  assumes "0 < cfg_ram_region_count cfg" and "cfg_ram_regions cfg \<noteq> []"
  shows "\<exists>r \<in> set (take (cfg_ram_region_count cfg) (cfg_ram_regions cfg)).
     largest_ram_region cfg = Some r \<and>
     (\<forall>x \<in> set (take (cfg_ram_region_count cfg) (cfg_ram_regions cfg)). rr_size x \<le> rr_size r)"
proof -
  let ?rs = "take (cfg_ram_region_count cfg) (cfg_ram_regions cfg)"
  from assms have "?rs \<noteq> []" by simp
  then obtain r where "largest_loop None ?rs = Some r"
    using largest_loop_None by blast
  with largest_loop_props [OF this] show ?thesis
    by (auto simp: largest_ram_region_def)
qed

end
