(* ===== verification/Target_Backend.thy ===== *)
theory Target_Backend
  imports Target_Config
begin

text \<open>
  \<open>main/prog/target_backend.hpp\<close>: the interface through which the state machine and the procedure
  executor reach a target. An implementation is a record of operations over a state \<open>'w\<close>, which
  stands for the backend's own fields and the hardware behind it. An out parameter is the middle
  component of the result; operations that may leave it untouched receive its old value.

  \<open>rtos\<close> is the part of FreeRTOS and ESP-IDF the callers use: the microsecond timer and delays.
\<close>

record 'w backend =
  be_name :: string
  be_begin_session :: "'w \<Rightarrow> esp_err \<times> 'w"
  be_detect :: "'w \<Rightarrow> esp_err \<times> 'w"
  be_erase :: "'w \<Rightarrow> esp_err \<times> 'w"
  be_program :: "u32 \<Rightarrow> 'w \<Rightarrow> esp_err \<times> u32 \<times> 'w"
  be_verify :: "u32 \<Rightarrow> 'w \<Rightarrow> esp_err \<times> 'w"
  be_self_test :: "test_item \<Rightarrow> u32 \<Rightarrow> 'w \<Rightarrow> esp_err \<times> u32 \<times> 'w"
  be_release_transport :: "'w \<Rightarrow> esp_err \<times> 'w"
  be_reset_target :: "'w \<Rightarrow> esp_err \<times> 'w"
  be_reinit_debug :: "'w \<Rightarrow> esp_err \<times> 'w"
  be_halt_target :: "'w \<Rightarrow> esp_err \<times> 'w"
  be_wait_halt :: "'w \<Rightarrow> esp_err \<times> 'w"
  be_read_mem32 :: "u32 \<Rightarrow> u32 \<Rightarrow> 'w \<Rightarrow> esp_err \<times> u32 \<times> 'w"
  be_write_mem32 :: "u32 \<Rightarrow> u32 \<Rightarrow> 'w \<Rightarrow> esp_err \<times> 'w"

record 'w rtos =
  rt_now :: "'w \<Rightarrow> int"
  rt_delay :: "nat \<Rightarrow> 'w \<Rightarrow> 'w"
  rt_delay_us :: "u32 \<Rightarrow> 'w \<Rightarrow> 'w"
  rt_ms_to_ticks :: "u32 \<Rightarrow> nat"
  rt_tick_period_ms :: u32

text \<open>
  The part of the contract the state machine relies on: once the transport has been released, the
  backend holds no connection that a later session could mistake for its own, and waiting does
  not change that.
\<close>

locale transport =
  fixes release :: "'w \<Rightarrow> esp_err \<times> 'w"
    and wait :: "'w \<Rightarrow> 'w"
    and idle :: "'w \<Rightarrow> bool"
  assumes release_idle: "idle (snd (release w))"
    and wait_idle: "idle w \<Longrightarrow> idle (wait w)"
begin

lemma released_and_waited: "idle ((wait ^^ n) (snd (release w)))"
  by (induction n) (simp_all add: release_idle wait_idle)

end

end
