(* ===== verification/Job_Decoder.thy ===== *)
theory Job_Decoder
  imports Target_Config
begin

text \<open>
  \<open>main/prog/config/job_decoder.cpp\<close>: decoding, validation and publication of a job file.
  The protobuf wire format is read by nanopb from a generated descriptor, so the decoder is a
  parameter: \<open>pb_parse\<close> maps the file's bytes to the payloads handed to the \<open>instructions\<close>
  callback, in order, and to the decoded message if decoding succeeded. The message records hold
  the fields the firmware reads. Writes into the fixed arrays of \<open>target_config\<close> go through
  \<open>array_set\<close>, whose \<open>None\<close> is a write outside the array.
\<close>

section \<open>The decoded message\<close>

datatype region_kind = KIND_RAM | KIND_OTHER

record si_job_MemoryRegion =
  mr_kind :: region_kind
  mr_start :: u32
  mr_end :: u32

record si_job_FlashAlgorithm =
  pfa_name :: string
  pfa_load_address :: u32
  pfa_has_pc_init :: bool
  pfa_pc_init :: u32
  pfa_has_pc_uninit :: bool
  pfa_pc_uninit :: u32
  pfa_has_pc_program_page :: bool
  pfa_pc_program_page :: u32
  pfa_has_pc_erase_sector :: bool
  pfa_pc_erase_sector :: u32
  pfa_has_pc_erase_all :: bool
  pfa_pc_erase_all :: u32
  pfa_has_pc_verify :: bool
  pfa_pc_verify :: u32
  pfa_has_data_section_offset :: bool
  pfa_data_section_offset :: u32
  pfa_has_flash_start :: bool
  pfa_flash_start :: u32
  pfa_has_flash_end :: bool
  pfa_flash_end :: u32
  pfa_page_size :: u32
  pfa_has_erased_byte_value :: bool
  pfa_erased_byte_value :: u32
  pfa_has_program_page_timeout_ms :: bool
  pfa_program_page_timeout_ms :: u32
  pfa_has_erase_sector_timeout_ms :: bool
  pfa_erase_sector_timeout_ms :: u32

record si_job_CortexM =
  cm_has_algorithm :: bool
  cm_algorithm :: si_job_FlashAlgorithm
  cm_firmware_sha256 :: bytes

record si_job_Esp32Image =
  ei_path :: path
  ei_offset :: u32
  ei_sha256 :: bytes

record si_job_Esp32 =
  es_chip :: string
  es_baud :: u32
  es_has_flash_size_kb :: bool
  es_flash_size_kb :: u32
  es_reset_assert_high :: bool
  es_boot_assert_high :: bool
  es_images :: "si_job_Esp32Image list"

record si_job_SelfTest =
  st_type :: int
  st_addr :: u32
  st_name :: string

record si_job_Target =
  tg_variant_name :: string
  tg_memory_map :: "si_job_MemoryRegion list"
  tg_has_cortex_m :: bool
  tg_cortex_m :: si_job_CortexM
  tg_has_esp32 :: bool
  tg_esp32 :: si_job_Esp32
  tg_self_tests :: "si_job_SelfTest list"

datatype step_op =
    Op_none
  | Op_read32 u32
  | Op_write32 u32 u32
  | Op_read_mod_write32 u32 u32 u32
  | Op_poll32 u32 u32 u32 u32
  | Op_delay u32
  | Op_swd_reinit
  | Op_reset_target
  | Op_halt_target
  | Op_wait_halt
  | Op_other nat

record si_job_Step =
  sp_op :: step_op
  sp_ignore_error :: bool

type_synonym si_job_Procedure = "si_job_Step list"

record si_job_Job =
  jb_schema_version :: int
  jb_name :: string
  jb_has_target :: bool
  jb_target :: si_job_Target
  jb_has_pre_program :: bool
  jb_pre_program :: si_job_Procedure
  jb_has_post_program :: bool
  jb_post_program :: si_job_Procedure

text \<open>What decoding depends on outside the firmware's sources.\<close>

record decode_env =
  pb_parse :: "bytes \<Rightarrow> bytes list \<times> si_job_Job option"
  schema_current :: int
  open_ok :: "path \<Rightarrow> bool"
  alloc_ok :: "nat \<Rightarrow> bool"

section \<open>Decoding\<close>

text \<open>
  \<open>algo_blob\<close>: the buffer, if allocated. The number beside it counts live PSRAM buffers, so that
  allocation and release are visible.
\<close>

type_synonym blob_state = "bytes option \<times> nat"

definition decode_algo_blob :: "decode_env \<Rightarrow> bytes \<Rightarrow> blob_state \<Rightarrow> bool \<times> blob_state" where
  "decode_algo_blob env payload st =
     (case st of (buf, live) \<Rightarrow>
        if buf \<noteq> None \<or> payload = [] then (False, st)
        else if \<not> alloc_ok env (length payload) then (False, st)
        else (True, (Some payload, Suc live)))"

fun run_callbacks :: "decode_env \<Rightarrow> bytes list \<Rightarrow> blob_state \<Rightarrow> bool \<times> blob_state" where
  "run_callbacks env [] st = (True, st)"
| "run_callbacks env (p # ps) st =
     (case decode_algo_blob env p st of (ok, st') \<Rightarrow>
        if ok then run_callbacks env ps st' else (False, st'))"

definition decode_file ::
  "decode_env \<Rightarrow> fs \<Rightarrow> path \<Rightarrow> blob_state \<Rightarrow> (esp_err + si_job_Job) \<times> blob_state" where
  "decode_file env files p st =
     (case (if open_ok env p then files p else None) of
        None \<Rightarrow> (Inl ESP_ERR_NOT_FOUND, st)
      | Some content \<Rightarrow>
          if content = [] then (Inl ESP_ERR_INVALID_SIZE, st)
          else case pb_parse env content of (payloads, msg) \<Rightarrow>
            case run_callbacks env payloads st of (ok, st') \<Rightarrow>
              (case msg of
                 Some job \<Rightarrow> if ok then (Inr job, st') else (Inl ESP_ERR_INVALID_ARG, st')
               | None \<Rightarrow> (Inl ESP_ERR_INVALID_ARG, st')))"

section \<open>Validation\<close>

fun regions_loop :: "si_job_MemoryRegion list \<Rightarrow> nat \<Rightarrow> esp_err + nat" where
  "regions_loop [] ram_count = Inr ram_count"
| "regions_loop (r # rs) ram_count =
     (if mr_end r \<le> mr_start r then Inl ESP_ERR_INVALID_SIZE
      else regions_loop rs (if mr_kind r = KIND_RAM then ram_count + 1 else ram_count))"

definition validate_regions :: "si_job_Target \<Rightarrow> esp_err" where
  "validate_regions target =
     (case regions_loop (tg_memory_map target) 0 of
        Inl e \<Rightarrow> e
      | Inr ram_count \<Rightarrow> if ram_count > MAX_RAM_REGIONS then ESP_ERR_INVALID_SIZE else ESP_OK)"

definition validate_cortex_m :: "si_job_Target \<Rightarrow> bytes option \<Rightarrow> esp_err" where
  "validate_cortex_m target blob =
     (if \<not> cm_has_algorithm (tg_cortex_m target) \<or> blob = None then ESP_ERR_INVALID_STATE
      else if pfa_page_size (cm_algorithm (tg_cortex_m target)) = 0 then ESP_ERR_INVALID_STATE
      else validate_regions target)"

definition validate_esp32 :: "si_job_Esp32 \<Rightarrow> esp_err" where
  "validate_esp32 esp32 =
     (if es_chip esp32 = [] \<or> es_baud esp32 = 0 then ESP_ERR_INVALID_STATE
      else if length (es_images esp32) = 0 then ESP_ERR_INVALID_STATE
      else ESP_OK)"

fun validate_tests_loop :: "si_job_SelfTest list \<Rightarrow> esp_err" where
  "validate_tests_loop [] = ESP_OK"
| "validate_tests_loop (t # ts) =
     (if st_type t < 0 \<or> st_type t > 2 then ESP_ERR_INVALID_ARG else validate_tests_loop ts)"

definition validate_self_tests :: "si_job_Target \<Rightarrow> esp_err" where
  "validate_self_tests target = validate_tests_loop (tg_self_tests target)"

fun validate_steps_loop :: "si_job_Step list \<Rightarrow> esp_err" where
  "validate_steps_loop [] = ESP_OK"
| "validate_steps_loop (s # ss) =
     (if sp_op s = Op_none then ESP_ERR_INVALID_ARG else validate_steps_loop ss)"

definition validate_procedure :: "bool \<Rightarrow> si_job_Procedure \<Rightarrow> esp_err" where
  "validate_procedure present procedure =
     (if \<not> present then ESP_OK else validate_steps_loop procedure)"

definition validate_job :: "decode_env \<Rightarrow> si_job_Job \<Rightarrow> bytes option \<Rightarrow> esp_err" where
  "validate_job env job blob =
     (if jb_schema_version job \<noteq> schema_current env then ESP_ERR_NOT_SUPPORTED
      else if \<not> jb_has_target job \<or>
              tg_has_cortex_m (jb_target job) = tg_has_esp32 (jb_target job)
      then ESP_ERR_INVALID_STATE
      else
        let ret = validate_self_tests (jb_target job);
            ret = elvis ret (validate_procedure (jb_has_pre_program job) (jb_pre_program job));
            ret = elvis ret (validate_procedure (jb_has_post_program job) (jb_post_program job))
        in if ret \<noteq> ESP_OK then ret
           else if tg_has_cortex_m (jb_target job) then validate_cortex_m (jb_target job) blob
           else validate_esp32 (tg_esp32 (jb_target job)))"

text \<open>\<open>heap_caps_free\<close> of a pointer that may be null.\<close>

definition heap_free :: "'a option \<Rightarrow> nat \<Rightarrow> nat" where
  "heap_free p live = (if p = None then live else live - 1)"

definition decode_job ::
  "decode_env \<Rightarrow> fs \<Rightarrow> path \<Rightarrow> nat \<Rightarrow> (esp_err + si_job_Job \<times> bytes option) \<times> nat" where
  "decode_job env files p live =
     (case decode_file env files p (None, live) of (res, (buf, live')) \<Rightarrow>
        (case res of
           Inl e \<Rightarrow> (Inl e, heap_free buf live')
         | Inr job \<Rightarrow>
             (case validate_job env job buf of
                ESP_OK \<Rightarrow> (Inr (job, buf), live')
              | e \<Rightarrow> (Inl e, heap_free buf live'))))"

section \<open>Publishing into target_config\<close>

definition to_optional :: "bool \<Rightarrow> u32 \<Rightarrow> u32 option" where
  "to_optional has_value val = (if \<not> has_value then None else Some val)"

definition fill_algorithm :: "si_job_FlashAlgorithm \<Rightarrow> bytes option \<Rightarrow> u32 \<Rightarrow> flash_algorithm" where
  "fill_algorithm src algo_bin algo_bin_len = \<lparr>
     fa_name = strlcpy (pfa_name src) 32,
     fa_load_address = pfa_load_address src,
     fa_pc_init = to_optional (pfa_has_pc_init src) (pfa_pc_init src),
     fa_pc_uninit = to_optional (pfa_has_pc_uninit src) (pfa_pc_uninit src),
     fa_pc_program_page = to_optional (pfa_has_pc_program_page src) (pfa_pc_program_page src),
     fa_pc_erase_sector = to_optional (pfa_has_pc_erase_sector src) (pfa_pc_erase_sector src),
     fa_pc_erase_all = to_optional (pfa_has_pc_erase_all src) (pfa_pc_erase_all src),
     fa_pc_verify = to_optional (pfa_has_pc_verify src) (pfa_pc_verify src),
     fa_data_section_offset =
       to_optional (pfa_has_data_section_offset src) (pfa_data_section_offset src),
     fa_flash_start = to_optional (pfa_has_flash_start src) (pfa_flash_start src),
     fa_flash_end = to_optional (pfa_has_flash_end src) (pfa_flash_end src),
     fa_page_size = Some (pfa_page_size src),
     fa_erased_byte_value = to_optional (pfa_has_erased_byte_value src) (pfa_erased_byte_value src),
     fa_program_page_timeout_ms =
       to_optional (pfa_has_program_page_timeout_ms src) (pfa_program_page_timeout_ms src),
     fa_erase_sector_timeout_ms =
       to_optional (pfa_has_erase_sector_timeout_ms src) (pfa_erase_sector_timeout_ms src),
     fa_algo_bin = algo_bin,
     fa_algo_bin_len = algo_bin_len\<rparr>"

text \<open>A write \<open>a[i] = x\<close> into a C array; \<open>None\<close> when it lands outside.\<close>

definition array_set :: "'a list \<Rightarrow> nat \<Rightarrow> 'a \<Rightarrow> 'a list option" where
  "array_set a i x = (if i < length a then Some (a[i := x]) else None)"

fun fill_ram_loop ::
  "si_job_MemoryRegion list \<Rightarrow> ram_region list \<Rightarrow> nat \<Rightarrow> (ram_region list \<times> nat) option" where
  "fill_ram_loop [] arr cnt = Some (arr, cnt)"
| "fill_ram_loop (r # rs) arr cnt =
     (if mr_kind r \<noteq> KIND_RAM then fill_ram_loop rs arr cnt
      else case array_set arr cnt \<lparr>rr_start = mr_start r, rr_end = mr_end r\<rparr> of
          None \<Rightarrow> None
        | Some arr' \<Rightarrow> fill_ram_loop rs arr' (cnt + 1))"

definition fill_ram_regions :: "si_job_Target \<Rightarrow> target_config \<Rightarrow> target_config option" where
  "fill_ram_regions src cfg =
     map_option (\<lambda>(arr, cnt). cfg\<lparr>cfg_ram_regions := arr, cfg_ram_region_count := cnt\<rparr>)
       (fill_ram_loop (tg_memory_map src) (cfg_ram_regions cfg) 0)"

text \<open>The loop \<open>for (i = 0; i < n; i++) dst[i] = ...\<close>.\<close>

fun fill_array :: "'a list \<Rightarrow> nat \<Rightarrow> 'a list \<Rightarrow> 'a list option" where
  "fill_array [] i arr = Some arr"
| "fill_array (x # xs) i arr =
     (case array_set arr i x of None \<Rightarrow> None | Some arr' \<Rightarrow> fill_array xs (Suc i) arr')"

definition to_image :: "si_job_Esp32Image \<Rightarrow> esp32_image" where
  "to_image img = \<lparr>im_path = strlcpy (ei_path img) 64, im_offset = ei_offset img\<rparr>"

definition fill_esp32 :: "si_job_Esp32 \<Rightarrow> target_config \<Rightarrow> target_config option" where
  "fill_esp32 src cfg =
     map_option (\<lambda>arr. cfg\<lparr>
         cfg_chip := strlcpy (es_chip src) 24,
         cfg_flash_size_kb := to_optional (es_has_flash_size_kb src) (es_flash_size_kb src),
         cfg_baud := es_baud src,
         cfg_reset_assert_level := (if es_reset_assert_high src then level_high else level_low),
         cfg_boot_assert_level := (if es_boot_assert_high src then level_high else level_low),
         cfg_image_count := length (es_images src),
         cfg_images := arr\<rparr>)
       (fill_array (map to_image (es_images src)) 0 (cfg_images cfg))"

definition clear_cortex_m :: "target_config \<Rightarrow> target_config" where
  "clear_cortex_m cfg =
     cfg\<lparr>cfg_has_algo := False, cfg_algo := empty_algorithm, cfg_ram_region_count := 0\<rparr>"

definition clear_esp32 :: "target_config \<Rightarrow> target_config" where
  "clear_esp32 cfg =
     cfg\<lparr>cfg_chip := [], cfg_flash_size_kb := None, cfg_baud := 115200,
         cfg_reset_assert_level := level_low, cfg_boot_assert_level := level_low,
         cfg_image_count := 0\<rparr>"

text \<open>The enum values of the message and of \<open>test_item\<close> are equal (static assertions).\<close>

definition to_test_type :: "int \<Rightarrow> test_type" where
  "to_test_type t =
     (if t = 0 then INTERNAL_SIMPLE_TEST
      else if t = 1 then INTERNAL_EXTEND_TEST else POWER_CONSUMPTION_TEST)"

definition to_test :: "si_job_SelfTest \<Rightarrow> test_item" where
  "to_test t = \<lparr>ti_type = to_test_type (st_type t), ti_addr = st_addr t,
                ti_name = strlcpy (st_name t) 32\<rparr>"

definition fill_self_tests :: "si_job_Target \<Rightarrow> target_config \<Rightarrow> target_config option" where
  "fill_self_tests src cfg =
     map_option (\<lambda>arr. cfg\<lparr>cfg_test_count := length (tg_self_tests src), cfg_tests := arr\<rparr>)
       (fill_array (map to_test (tg_self_tests src)) 0 (cfg_tests cfg))"

definition fill_target_config ::
  "si_job_Job \<Rightarrow> bytes option \<Rightarrow> u32 \<Rightarrow> target_config \<Rightarrow> target_config option" where
  "fill_target_config job algo_bin algo_bin_len cfg =
     (let target = jb_target job;
          cfg = cfg\<lparr>cfg_variant_name := strlcpy (tg_variant_name target) 32\<rparr>
      in case fill_self_tests target cfg of
           None \<Rightarrow> None
         | Some cfg \<Rightarrow>
             map_option (\<lambda>cfg. cfg\<lparr>cfg_generation := cfg_generation cfg + 1\<rparr>)
              (if tg_has_cortex_m target
               then map_option clear_esp32
                 (fill_ram_regions target
                   (cfg\<lparr>cfg_family := swd_cortex_m, cfg_has_algo := True,
                        cfg_algo := fill_algorithm (cm_algorithm (tg_cortex_m target))
                                      algo_bin algo_bin_len\<rparr>))
               else fill_esp32 (tg_esp32 target)
                      (clear_cortex_m (cfg\<lparr>cfg_family := esp32_serial\<rparr>))))"


section \<open>What validation guarantees\<close>

definition ram_entries :: "si_job_Target \<Rightarrow> ram_region list" where
  "ram_entries target =
     map (\<lambda>r. \<lparr>rr_start = mr_start r, rr_end = mr_end r\<rparr>)
       (filter (\<lambda>r. mr_kind r = KIND_RAM) (tg_memory_map target))"

definition procedure_known :: "bool \<Rightarrow> si_job_Procedure \<Rightarrow> bool" where
  "procedure_known present steps \<longleftrightarrow> (present \<longrightarrow> (\<forall>s \<in> set steps. sp_op s \<noteq> Op_none))"

definition job_valid :: "decode_env \<Rightarrow> si_job_Job \<Rightarrow> bytes option \<Rightarrow> bool" where
  "job_valid env job blob \<longleftrightarrow>
     jb_schema_version job = schema_current env \<and> jb_has_target job \<and>
     tg_has_cortex_m (jb_target job) \<noteq> tg_has_esp32 (jb_target job) \<and>
     (\<forall>t \<in> set (tg_self_tests (jb_target job)). 0 \<le> st_type t \<and> st_type t \<le> 2) \<and>
     procedure_known (jb_has_pre_program job) (jb_pre_program job) \<and>
     procedure_known (jb_has_post_program job) (jb_post_program job) \<and>
     (if tg_has_cortex_m (jb_target job)
      then cm_has_algorithm (tg_cortex_m (jb_target job)) \<and> blob \<noteq> None \<and>
           pfa_page_size (cm_algorithm (tg_cortex_m (jb_target job))) \<noteq> 0 \<and>
           (\<forall>r \<in> set (tg_memory_map (jb_target job)). mr_start r < mr_end r) \<and>
           length (ram_entries (jb_target job)) \<le> MAX_RAM_REGIONS
      else es_chip (tg_esp32 (jb_target job)) \<noteq> [] \<and> es_baud (tg_esp32 (jb_target job)) \<noteq> 0 \<and>
           es_images (tg_esp32 (jb_target job)) \<noteq> [])"

lemma regions_loop_Inr:
  "regions_loop rs n = Inr m \<longleftrightarrow>
     (\<forall>r \<in> set rs. mr_start r < mr_end r) \<and>
     m = n + length (filter (\<lambda>r. mr_kind r = KIND_RAM) rs)"
  by (induction rs arbitrary: n) auto

lemma regions_loop_Inl: "regions_loop rs n = Inl e \<Longrightarrow> e = ESP_ERR_INVALID_SIZE"
  by (induction rs arbitrary: n) (auto split: if_splits)

lemma validate_regions_OK:
  "validate_regions target = ESP_OK \<longleftrightarrow>
     (\<forall>r \<in> set (tg_memory_map target). mr_start r < mr_end r) \<and>
     length (ram_entries target) \<le> MAX_RAM_REGIONS"
proof (cases "regions_loop (tg_memory_map target) 0")
  case (Inl e)
  then have "\<not> (\<forall>r \<in> set (tg_memory_map target). mr_start r < mr_end r)"
    using regions_loop_Inr [of "tg_memory_map target" 0] by auto
  with Inl show ?thesis
    by (auto simp: validate_regions_def dest: regions_loop_Inl)
next
  case (Inr n)
  then have "\<forall>r \<in> set (tg_memory_map target). mr_start r < mr_end r"
      and "n = length (ram_entries target)"
    by (simp_all add: regions_loop_Inr ram_entries_def)
  with Inr show ?thesis
    by (simp add: validate_regions_def linorder_not_less)
qed

lemma validate_tests_loop_OK:
  "validate_tests_loop ts = ESP_OK \<longleftrightarrow> (\<forall>t \<in> set ts. 0 \<le> st_type t \<and> st_type t \<le> 2)"
  by (induction ts) auto

lemma validate_steps_loop_OK:
  "validate_steps_loop ss = ESP_OK \<longleftrightarrow> (\<forall>s \<in> set ss. sp_op s \<noteq> Op_none)"
  by (induction ss) auto

lemma validate_procedure_OK:
  "validate_procedure present ss = ESP_OK \<longleftrightarrow> procedure_known present ss"
  by (simp add: validate_procedure_def procedure_known_def validate_steps_loop_OK)

lemma validate_esp32_OK:
  "validate_esp32 e = ESP_OK \<longleftrightarrow> es_chip e \<noteq> [] \<and> es_baud e \<noteq> 0 \<and> es_images e \<noteq> []"
  by (simp add: validate_esp32_def)

lemma validate_cortex_m_OK:
  "validate_cortex_m target blob = ESP_OK \<longleftrightarrow>
     cm_has_algorithm (tg_cortex_m target) \<and> blob \<noteq> None \<and>
     pfa_page_size (cm_algorithm (tg_cortex_m target)) \<noteq> 0 \<and>
     validate_regions target = ESP_OK"
  by (simp add: validate_cortex_m_def)

lemma validate_job_OK: "validate_job env job blob = ESP_OK \<longleftrightarrow> job_valid env job blob"
  by (auto simp: validate_job_def job_valid_def Let_def validate_self_tests_def
      validate_tests_loop_OK validate_procedure_OK validate_esp32_OK validate_cortex_m_OK
      validate_regions_OK)

lemma decode_algo_blob_live:
  assumes "decode_algo_blob env p (buf, live) = (ok, (buf', live'))"
    and "live = base + (if buf = None then 0 else 1)"
  shows "live' = base + (if buf' = None then 0 else 1)"
  using assms by (auto simp: decode_algo_blob_def split: if_splits)

lemma run_callbacks_live:
  assumes "run_callbacks env ps (buf, live) = (ok, (buf', live'))"
    and "live = base + (if buf = None then 0 else 1)"
  shows "live' = base + (if buf' = None then 0 else 1)"
  using assms
proof (induction ps arbitrary: buf live)
  case (Cons p ps)
  obtain ok1 buf1 live1 where step: "decode_algo_blob env p (buf, live) = (ok1, (buf1, live1))"
    by (metis surj_pair)
  with Cons.prems(2) have "live1 = base + (if buf1 = None then 0 else 1)"
    by (blast intro: decode_algo_blob_live)
  with Cons.prems(1) Cons.IH [of buf1 live1] step show ?case
    by (auto split: if_splits)
qed simp

lemma decode_file_live:
  assumes "decode_file env files p (None, live) = (res, (buf, live'))"
  shows "live' = live + (if buf = None then 0 else 1)"
  using assms run_callbacks_live [of env _ None live _ buf live' live]
  by (auto simp: decode_file_def split: if_splits option.splits prod.splits)

text \<open>A failed decode gives every buffer back; a successful one keeps exactly the blob.\<close>

lemma decode_job_cases:
  "(\<exists>e. decode_job env files p live = (Inl e, live) \<and> e \<noteq> ESP_OK) \<or>
   (\<exists>job buf. decode_job env files p live =
       (Inr (job, buf), live + (if buf = None then 0 else 1)) \<and> job_valid env job buf)"
proof -
  obtain res buf live' where dec: "decode_file env files p (None, live) = (res, (buf, live'))"
    by (metis surj_pair)
  from decode_file_live [OF dec] have live': "live' = live + (if buf = None then 0 else 1)" .
  show ?thesis
  proof (cases res)
    case (Inl e)
    then have "e \<noteq> ESP_OK"
      using dec by (auto simp: decode_file_def split: if_splits option.splits prod.splits)
    with Inl dec live' show ?thesis
      by (auto simp: decode_job_def heap_free_def)
  next
    case (Inr job)
    with dec live' validate_job_OK [of env job buf] show ?thesis
      by (cases "validate_job env job buf") (auto simp: decode_job_def heap_free_def)
  qed
qed

section \<open>What publication writes\<close>

text \<open>
  The capacities nanopb enforces while decoding (\<open>job.options\<close>; the static assertions at the top
  of \<open>job_decoder.cpp\<close> tie them to the arrays of \<open>target_config\<close>).
\<close>

definition nanopb_limits :: "si_job_Job \<Rightarrow> bool" where
  "nanopb_limits job \<longleftrightarrow>
     length (tg_self_tests (jb_target job)) \<le> MAX_TESTS \<and>
     length (es_images (tg_esp32 (jb_target job))) \<le> MAX_IMAGES \<and>
     length (es_chip (tg_esp32 (jb_target job))) < 24 \<and>
     length (tg_variant_name (jb_target job)) < 32 \<and>
     (\<forall>i \<in> set (es_images (tg_esp32 (jb_target job))). length (ei_path i) < 64)"

definition config_shape :: "target_config \<Rightarrow> bool" where
  "config_shape cfg \<longleftrightarrow>
     length (cfg_ram_regions cfg) = MAX_RAM_REGIONS \<and> length (cfg_images cfg) = MAX_IMAGES \<and>
     length (cfg_tests cfg) = MAX_TESTS"

definition used_ram_regions :: "target_config \<Rightarrow> ram_region list" where
  "used_ram_regions cfg = take (cfg_ram_region_count cfg) (cfg_ram_regions cfg)"

definition used_images :: "target_config \<Rightarrow> esp32_image list" where
  "used_images cfg = take (cfg_image_count cfg) (cfg_images cfg)"

definition used_tests :: "target_config \<Rightarrow> test_item list" where
  "used_tests cfg = take (cfg_test_count cfg) (cfg_tests cfg)"

lemma config_shape_empty: "config_shape empty_config"
  by (simp add: config_shape_def empty_config_def)

lemma fill_array_Some:
  "i + length xs \<le> length arr \<Longrightarrow>
     fill_array xs i arr = Some (take i arr @ xs @ drop (i + length xs) arr)"
proof (induction xs arbitrary: i arr)
  case (Cons x xs)
  then have "fill_array (x # xs) i arr = fill_array xs (Suc i) (arr[i := x])"
    by (simp add: array_set_def)
  also have "\<dots> = Some (take (Suc i) (arr[i := x]) @ xs @ drop (Suc i + length xs) (arr[i := x]))"
    using Cons.prems by (intro Cons.IH) simp
  finally show ?case
    using Cons.prems by (simp add: take_Suc_conv_app_nth)
qed simp

lemma fill_ram_loop_fill_array:
  "fill_ram_loop rs arr cnt =
     map_option (\<lambda>arr'. (arr', cnt + length (filter (\<lambda>r. mr_kind r = KIND_RAM) rs)))
       (fill_array (map (\<lambda>r. \<lparr>rr_start = mr_start r, rr_end = mr_end r\<rparr>)
          (filter (\<lambda>r. mr_kind r = KIND_RAM) rs)) cnt arr)"
  by (induction rs arbitrary: arr cnt)
    (auto split: option.splits simp: option.map_comp comp_def)

lemma fill_ram_regions_Some:
  assumes "length (ram_entries src) \<le> length (cfg_ram_regions cfg)"
  shows "fill_ram_regions src cfg = Some (cfg\<lparr>
     cfg_ram_regions :=
       ram_entries src @ drop (length (ram_entries src)) (cfg_ram_regions cfg),
     cfg_ram_region_count := length (ram_entries src)\<rparr>)"
proof -
  have "fill_array (ram_entries src) 0 (cfg_ram_regions cfg) =
      Some (ram_entries src @ drop (length (ram_entries src)) (cfg_ram_regions cfg))"
    using fill_array_Some [of 0 "ram_entries src" "cfg_ram_regions cfg"] assms by simp
  then show ?thesis
    by (simp add: fill_ram_regions_def fill_ram_loop_fill_array ram_entries_def)
qed

lemma fill_self_tests_Some:
  assumes "length (tg_self_tests src) \<le> length (cfg_tests cfg)"
  shows "fill_self_tests src cfg = Some (cfg\<lparr>
     cfg_test_count := length (tg_self_tests src),
     cfg_tests := map to_test (tg_self_tests src) @
       drop (length (tg_self_tests src)) (cfg_tests cfg)\<rparr>)"
  using fill_array_Some [of 0 "map to_test (tg_self_tests src)" "cfg_tests cfg"] assms
  by (simp add: fill_self_tests_def)

lemma fill_esp32_Some:
  assumes "length (es_images src) \<le> length (cfg_images cfg)"
  shows "fill_esp32 src cfg = Some (cfg\<lparr>
         cfg_chip := strlcpy (es_chip src) 24,
         cfg_flash_size_kb := to_optional (es_has_flash_size_kb src) (es_flash_size_kb src),
         cfg_baud := es_baud src,
         cfg_reset_assert_level := (if es_reset_assert_high src then level_high else level_low),
         cfg_boot_assert_level := (if es_boot_assert_high src then level_high else level_low),
         cfg_image_count := length (es_images src),
         cfg_images := map to_image (es_images src) @
           drop (length (es_images src)) (cfg_images cfg)\<rparr>)"
  using fill_array_Some [of 0 "map to_image (es_images src)" "cfg_images cfg"] assms
  by (simp add: fill_esp32_def)

lemmas fill_Some = fill_ram_regions_Some fill_self_tests_Some fill_esp32_Some

definition config_ready :: "target_config \<Rightarrow> bool" where
  "config_ready cfg \<longleftrightarrow>
     config_shape cfg \<and> cfg_test_count cfg \<le> MAX_TESTS \<and>
     (case cfg_family cfg of
        swd_cortex_m \<Rightarrow>
          cfg_has_algo cfg \<and> cfg_ram_region_count cfg \<le> MAX_RAM_REGIONS \<and> cfg_image_count cfg = 0 \<and>
          (\<exists>p. fa_page_size (cfg_algo cfg) = Some p \<and> p \<noteq> 0) \<and>
          (\<forall>r \<in> set (used_ram_regions cfg). rr_start r < rr_end r)
      | esp32_serial \<Rightarrow>
          \<not> cfg_has_algo cfg \<and> cfg_ram_region_count cfg = 0 \<and> cfg_chip cfg \<noteq> [] \<and>
          cfg_baud cfg \<noteq> 0 \<and> 0 < cfg_image_count cfg \<and> cfg_image_count cfg \<le> MAX_IMAGES)"

lemma fill_target_config_facts:
  assumes "job_valid env job blob" and "nanopb_limits job" and "config_shape cfg"
  shows "\<exists>cfg'. fill_target_config job blob len cfg = Some cfg' \<and> config_ready cfg' \<and>
     cfg_generation cfg' = cfg_generation cfg + 1 \<and>
     used_tests cfg' = map to_test (tg_self_tests (jb_target job)) \<and>
     used_ram_regions cfg' =
       (if tg_has_cortex_m (jb_target job) then ram_entries (jb_target job) else []) \<and>
     used_images cfg' =
       (if tg_has_cortex_m (jb_target job) then []
        else map to_image (es_images (tg_esp32 (jb_target job))))"
proof -
  have ram: "length (ram_entries (jb_target job)) \<le> length (cfg_ram_regions cfg)"
      "\<forall>r \<in> set (ram_entries (jb_target job)). rr_start r < rr_end r"
    if "tg_has_cortex_m (jb_target job)"
    using that assms by (auto simp: job_valid_def config_shape_def ram_entries_def)
  have chip: "strlcpy (es_chip (tg_esp32 (jb_target job))) 24 = es_chip (tg_esp32 (jb_target job))"
    using assms(2) by (simp add: nanopb_limits_def strlcpy_fits)
  show ?thesis
  proof (cases "tg_has_cortex_m (jb_target job)")
    case True
    with assms ram show ?thesis
      by (simp add: fill_target_config_def Let_def fill_Some clear_esp32_def config_ready_def
          config_shape_def nanopb_limits_def job_valid_def used_tests_def used_ram_regions_def
          used_images_def fill_algorithm_def)
  next
    case False
    with assms chip show ?thesis
      by (simp add: fill_target_config_def Let_def fill_Some clear_cortex_m_def config_ready_def
          config_shape_def nanopb_limits_def job_valid_def used_tests_def used_ram_regions_def
          used_images_def)
  qed
qed

section \<open>Properties\<close>

text \<open>
  C27: \<open>validate_job\<close> accepts exactly the jobs that satisfy \<open>job_valid\<close>: the schema matches, one
  family is described, self tests and procedure steps are known, and the family's own fields can
  be used (an algorithm with a non-zero page size and at most four non-empty RAM regions, or a
  chip, a baud rate and at least one image).
\<close>

theorem validate_job_accepts_exactly:
  "validate_job env job blob = ESP_OK \<longleftrightarrow> job_valid env job blob"
  by (rule validate_job_OK)

text \<open>
  \<open>decode_job\<close> either fails and leaves no PSRAM buffer allocated, or returns a valid job and
  owns exactly the algorithm buffer it hands out.
\<close>

theorem decode_job_no_leak:
  "(\<exists>e. decode_job env files p live = (Inl e, live) \<and> e \<noteq> ESP_OK) \<or>
   (\<exists>job buf. decode_job env files p live =
       (Inr (job, buf), live + (if buf = None then 0 else 1)) \<and> job_valid env job buf)"
  by (rule decode_job_cases)

text \<open>
  Publishing a valid job never writes outside the arrays of \<open>target_config\<close>, leaves a
  configuration the backends can use, copies the self tests, RAM regions and images in order, and
  bumps the generation.
\<close>

theorem fill_target_config_safe:
  assumes "job_valid env job blob" and "nanopb_limits job" and "config_shape cfg"
  shows "\<exists>cfg'. fill_target_config job blob len cfg = Some cfg' \<and> config_ready cfg' \<and>
     cfg_generation cfg' = cfg_generation cfg + 1 \<and>
     used_tests cfg' = map to_test (tg_self_tests (jb_target job)) \<and>
     used_ram_regions cfg' =
       (if tg_has_cortex_m (jb_target job) then ram_entries (jb_target job) else []) \<and>
     used_images cfg' =
       (if tg_has_cortex_m (jb_target job) then []
        else map to_image (es_images (tg_esp32 (jb_target job))))"
  using assms by (rule fill_target_config_facts)

section \<open>Sample jobs\<close>

definition sample_algorithm :: si_job_FlashAlgorithm where
  "sample_algorithm = \<lparr>
     pfa_name = ''stm32g4'', pfa_load_address = 0x20000020,
     pfa_has_pc_init = True, pfa_pc_init = 0x20000021,
     pfa_has_pc_uninit = True, pfa_pc_uninit = 0x20000051,
     pfa_has_pc_program_page = True, pfa_pc_program_page = 0x20000101,
     pfa_has_pc_erase_sector = True, pfa_pc_erase_sector = 0x200000a1,
     pfa_has_pc_erase_all = True, pfa_pc_erase_all = 0x20000081,
     pfa_has_pc_verify = False, pfa_pc_verify = 0,
     pfa_has_data_section_offset = True, pfa_data_section_offset = 0x20000200,
     pfa_has_flash_start = True, pfa_flash_start = 0x08000000,
     pfa_has_flash_end = True, pfa_flash_end = 0x08000010,
     pfa_page_size = 8,
     pfa_has_erased_byte_value = True, pfa_erased_byte_value = 0xFF,
     pfa_has_program_page_timeout_ms = False, pfa_program_page_timeout_ms = 0,
     pfa_has_erase_sector_timeout_ms = False, pfa_erase_sector_timeout_ms = 0\<rparr>"

definition sample_esp32 :: si_job_Esp32 where
  "sample_esp32 = \<lparr>es_chip = ''esp32c3'', es_baud = 921600, es_has_flash_size_kb = True,
     es_flash_size_kb = 4096, es_reset_assert_high = False, es_boot_assert_high = False,
     es_images = [\<lparr>ei_path = ''/data/app.bin'', ei_offset = 0x10000, ei_sha256 = [2]\<rparr>]\<rparr>"

definition sample_target :: si_job_Target where
  "sample_target = \<lparr>tg_variant_name = ''v1'',
     tg_memory_map = [\<lparr>mr_kind = KIND_OTHER, mr_start = 0x08000000, mr_end = 0x08040000\<rparr>,
                      \<lparr>mr_kind = KIND_RAM, mr_start = 0x20000000, mr_end = 0x20008000\<rparr>],
     tg_has_cortex_m = True,
     tg_cortex_m = \<lparr>cm_has_algorithm = True, cm_algorithm = sample_algorithm,
                    cm_firmware_sha256 = [8]\<rparr>,
     tg_has_esp32 = False, tg_esp32 = sample_esp32,
     tg_self_tests = [\<lparr>st_type = 0, st_addr = 6, st_name = ''LoRa send''\<rparr>]\<rparr>"

definition sample_job :: si_job_Job where
  "sample_job = \<lparr>jb_schema_version = 1, jb_name = ''demo'', jb_has_target = True,
     jb_target = sample_target, jb_has_pre_program = False, jb_pre_program = [],
     jb_has_post_program = False, jb_post_program = []\<rparr>"

definition sample_esp32_job :: si_job_Job where
  "sample_esp32_job = sample_job\<lparr>jb_target := sample_target\<lparr>tg_has_cortex_m := False,
     tg_has_esp32 := True\<rparr>\<rparr>"

definition sample_env :: decode_env where
  "sample_env = \<lparr>pb_parse = (\<lambda>bs. ([[1, 2, 3, 4]], if bs = [7] then Some sample_job else None)),
     schema_current = 1, open_ok = (\<lambda>_. True), alloc_ok = (\<lambda>_. True)\<rparr>"

lemmas sample_defs = sample_algorithm_def sample_esp32_def sample_target_def sample_job_def
  sample_esp32_job_def sample_env_def

lemma sample_job_valid:
  "job_valid sample_env sample_job (Some [1, 2, 3, 4])" "nanopb_limits sample_job"
  by (simp_all add: job_valid_def nanopb_limits_def sample_defs procedure_known_def
      ram_entries_def MAX_RAM_REGIONS_def MAX_TESTS_def MAX_IMAGES_def)

theorem fill_target_config_safe_witness:
  "\<exists>cfg'. fill_target_config sample_job (Some [1, 2, 3, 4]) 4 empty_config = Some cfg' \<and>
     config_ready cfg' \<and> cfg_generation cfg' = 1 \<and>
     used_ram_regions cfg' = [\<lparr>rr_start = 0x20000000, rr_end = 0x20008000\<rparr>]"
  using fill_target_config_safe [OF sample_job_valid config_shape_empty, of 4]
  by (auto simp: sample_defs ram_entries_def empty_config_def)

end
