(* ===== verification/Procedure_Executor.thy ===== *)
theory Procedure_Executor
  imports Target_Backend Job_Decoder
begin

text \<open>
  \<open>main/prog/procedure_executor.cpp\<close>: the steps run before and after programming. \<open>exec_poll32\<close>
  loops until a deadline, so results are options whose \<open>None\<close> is a loop that never ends; the
  properties show that it ends once the timer advances.
\<close>

section \<open>Operations\<close>

definition exec_read32 :: "'w backend \<Rightarrow> u32 \<Rightarrow> 'w \<Rightarrow> esp_err \<times> 'w" where
  "exec_read32 be addr w = (case be_read_mem32 be addr 0 w of (ret, val, w) \<Rightarrow> (ret, w))"

definition exec_read_mod_write32 :: "'w backend \<Rightarrow> u32 \<Rightarrow> u32 \<Rightarrow> u32 \<Rightarrow> 'w \<Rightarrow> esp_err \<times> 'w" where
  "exec_read_mod_write32 be addr msk data w =
     (case be_read_mem32 be addr 0 w of (ret, val, w) \<Rightarrow>
        if ret \<noteq> ESP_OK then (ret, w)
        else be_write_mem32 be addr (val AND msk OR data) w)"

partial_function (option) poll_loop ::
  "'w rtos \<Rightarrow> 'w backend \<Rightarrow> u32 \<Rightarrow> u32 \<Rightarrow> u32 \<Rightarrow> int \<Rightarrow> 'w \<Rightarrow> (esp_err \<times> 'w) option" where
  "poll_loop rt be addr msk expected deadline_us w =
     (case be_read_mem32 be addr 0 w of (ret, val, w) \<Rightarrow>
        if ret \<noteq> ESP_OK then Some (ret, w)
        else if val AND msk = expected then Some (ESP_OK, w)
        else if rt_now rt w \<ge> deadline_us then Some (ESP_ERR_TIMEOUT, w)
        else poll_loop rt be addr msk expected deadline_us (rt_delay rt 1 w))"

definition exec_poll32 ::
  "'w rtos \<Rightarrow> 'w backend \<Rightarrow> u32 \<Rightarrow> u32 \<Rightarrow> u32 \<Rightarrow> u32 \<Rightarrow> 'w \<Rightarrow> (esp_err \<times> 'w) option" where
  "exec_poll32 rt be addr msk expected timeout_ms w =
     poll_loop rt be addr msk expected (rt_now rt w + uint timeout_ms * 1000) w"

definition exec_delay :: "'w rtos \<Rightarrow> u32 \<Rightarrow> 'w \<Rightarrow> esp_err \<times> 'w" where
  "exec_delay rt delay_ms w =
     (if delay_ms < rt_tick_period_ms rt then (ESP_OK, rt_delay_us rt (delay_ms * 1000) w)
      else (ESP_OK, rt_delay rt (rt_ms_to_ticks rt delay_ms) w))"

definition exec_one :: "'w rtos \<Rightarrow> 'w backend \<Rightarrow> si_job_Step \<Rightarrow> 'w \<Rightarrow> (esp_err \<times> 'w) option" where
  "exec_one rt be step w =
     (case sp_op step of
        Op_read32 addr \<Rightarrow> Some (exec_read32 be addr w)
      | Op_write32 addr data \<Rightarrow> Some (be_write_mem32 be addr data w)
      | Op_read_mod_write32 addr msk data \<Rightarrow> Some (exec_read_mod_write32 be addr msk data w)
      | Op_poll32 addr msk expected timeout_ms \<Rightarrow> exec_poll32 rt be addr msk expected timeout_ms w
      | Op_delay delay_ms \<Rightarrow> Some (exec_delay rt delay_ms w)
      | Op_swd_reinit \<Rightarrow> Some (be_reinit_debug be w)
      | Op_reset_target \<Rightarrow> Some (be_reset_target be w)
      | Op_halt_target \<Rightarrow> Some (be_halt_target be w)
      | Op_wait_halt \<Rightarrow> Some (be_wait_halt be w)
      | _ \<Rightarrow> Some (ESP_ERR_NOT_SUPPORTED, w))"

fun execute ::
  "'w rtos \<Rightarrow> 'w backend \<Rightarrow> si_job_Procedure \<Rightarrow> 'w \<Rightarrow> (esp_err \<times> 'w) option" where
  "execute rt be [] w = Some (ESP_OK, w)"
| "execute rt be (step # steps) w =
     (case exec_one rt be step w of
        None \<Rightarrow> None
      | Some (ret, w) \<Rightarrow>
          if ret = ESP_OK then execute rt be steps w
          else if \<not> sp_ignore_error step then Some (ret, w)
          else execute rt be steps w)"

section \<open>Termination of polling\<close>

text \<open>The timer never runs backwards over a read and a delay of one tick moves it forward.\<close>

definition clock_advances :: "'w rtos \<Rightarrow> 'w backend \<Rightarrow> bool" where
  "clock_advances rt be \<longleftrightarrow>
     (\<forall>w. rt_now rt w < rt_now rt (rt_delay rt 1 w)) \<and>
     (\<forall>addr v w. rt_now rt w \<le> rt_now rt (snd (snd (be_read_mem32 be addr v w))))"

text \<open>How a poll ended: the last read, and the timer at that moment.\<close>

definition poll_outcome ::
  "'w rtos \<Rightarrow> 'w backend \<Rightarrow> u32 \<Rightarrow> u32 \<Rightarrow> u32 \<Rightarrow> int \<Rightarrow> esp_err \<Rightarrow> 'w \<Rightarrow> bool" where
  "poll_outcome rt be addr msk expected deadline_us r w' \<longleftrightarrow>
     (\<exists>w ret val. be_read_mem32 be addr 0 w = (ret, val, w') \<and>
        (if ret \<noteq> ESP_OK then r = ret
         else if val AND msk = expected then r = ESP_OK
         else r = ESP_ERR_TIMEOUT \<and> deadline_us \<le> rt_now rt w'))"

lemma poll_loop_returns:
  assumes "clock_advances rt be"
  shows "\<exists>r w'. poll_loop rt be addr msk expected d w = Some (r, w') \<and>
     poll_outcome rt be addr msk expected d r w'"
proof (induction "nat (d - rt_now rt w)" arbitrary: w rule: less_induct)
  case less
  obtain ret val w1 where rd: "be_read_mem32 be addr 0 w = (ret, val, w1)" by (metis surj_pair)
  show ?case
  proof (cases "ret \<noteq> ESP_OK \<or> val AND msk = expected \<or> d \<le> rt_now rt w1")
    case True
    with rd show ?thesis by (subst poll_loop.simps) (auto simp: poll_outcome_def)
  next
    case False
    have "rt_now rt w \<le> rt_now rt w1" "rt_now rt w1 < rt_now rt (rt_delay rt 1 w1)"
      using assms rd unfolding clock_advances_def by (metis snd_conv)+
    with False have "nat (d - rt_now rt (rt_delay rt 1 w1)) < nat (d - rt_now rt w)" by auto
    from less [OF this] False rd show ?thesis by (subst poll_loop.simps) simp
  qed
qed

lemma exec_one_returns:
  assumes "clock_advances rt be" shows "\<exists>r w'. exec_one rt be step w = Some (r, w')"
proof (cases "sp_op step")
  case (Op_poll32 addr msk expected timeout_ms)
  with poll_loop_returns [OF assms, of addr msk expected "rt_now rt w + uint timeout_ms * 1000" w]
  show ?thesis by (auto simp: exec_one_def exec_poll32_def)
qed (auto simp: exec_one_def)

section \<open>Sequences of steps\<close>

text \<open>Steps that all succeeded or were allowed to fail.\<close>

inductive passed :: "'w rtos \<Rightarrow> 'w backend \<Rightarrow> si_job_Procedure \<Rightarrow> 'w \<Rightarrow> 'w \<Rightarrow> bool"
  for rt :: "'w rtos" and be :: "'w backend" where
  passed_Nil: "passed rt be [] w w"
| passed_Cons: "exec_one rt be step w = Some (ret, w1) \<Longrightarrow> ret = ESP_OK \<or> sp_ignore_error step \<Longrightarrow>
     passed rt be steps w1 w2 \<Longrightarrow> passed rt be (step # steps) w w2"

inductive_cases passed_ConsE: "passed rt be (step # steps) w w'"

lemma execute_cases:
  assumes "execute rt be steps w = Some (r, w')"
  shows "(r = ESP_OK \<and> passed rt be steps w w') \<or>
     (r \<noteq> ESP_OK \<and> (\<exists>before step after w1. steps = before @ step # after \<and> passed rt be before w w1 \<and>
        exec_one rt be step w1 = Some (r, w') \<and> \<not> sp_ignore_error step))"
  using assms
proof (induction steps arbitrary: w)
  case (Cons s steps)
  then obtain ret w1 where one: "exec_one rt be s w = Some (ret, w1)"
    by (auto split: option.splits)
  show ?case
  proof (cases "ret = ESP_OK \<or> sp_ignore_error s")
    case True
    with Cons.prems one have "execute rt be steps w1 = Some (r, w')" by (auto split: if_splits)
    from Cons.IH [OF this] show ?thesis
    proof (elim disjE conjE exE)
      assume "r = ESP_OK" "passed rt be steps w1 w'"
      with one True show ?thesis by (auto intro: passed_Cons)
    next
      fix before step after w2
      assume "r \<noteq> ESP_OK" "steps = before @ step # after" "passed rt be before w1 w2"
        "exec_one rt be step w2 = Some (r, w')" "\<not> sp_ignore_error step"
      with one True show ?thesis
        by (intro disjI2 conjI exI [of _ "s # before"] exI [of _ step] exI [of _ after] exI [of _ w2])
          (auto intro: passed_Cons)
    qed
  next
    case False
    with Cons.prems one show ?thesis
      by (intro disjI2 conjI exI [of _ "[]"]) (auto intro: passed_Nil)
  qed
qed (auto intro: passed_Nil)

lemma passed_execute: "passed rt be steps w w' \<Longrightarrow> execute rt be steps w = Some (ESP_OK, w')"
  by (induction rule: passed.induct) auto

lemma execute_returns:
  assumes "clock_advances rt be" shows "\<exists>r w'. execute rt be steps w = Some (r, w')"
proof (induction steps arbitrary: w)
  case (Cons s steps)
  obtain r w' where "exec_one rt be s w = Some (r, w')" using exec_one_returns [OF assms] by blast
  with Cons show ?case by auto
qed simp

section \<open>Properties\<close>


text \<open>
  A procedure always returns once the timer advances. It returns \<open>ESP_OK\<close> only after every step
  succeeded or failed with \<open>ignore_error\<close>; otherwise it returns the error of the first step that
  failed without it, and no later step has run.
\<close>

theorem execute_first_failure:
  assumes "clock_advances rt be"
  shows "\<exists>r w'. execute rt be steps w = Some (r, w') \<and>
     ((r = ESP_OK \<and> passed rt be steps w w') \<or>
      (r \<noteq> ESP_OK \<and> (\<exists>before step after w1. steps = before @ step # after \<and> passed rt be before w w1 \<and>
         exec_one rt be step w1 = Some (r, w') \<and> \<not> sp_ignore_error step)))"
proof -
  obtain r w' where "execute rt be steps w = Some (r, w')" using execute_returns [OF assms] by blast
  with execute_cases [OF this] show ?thesis by blast
qed

section \<open>A concrete target\<close>

text \<open>A clock that counts microseconds and one memory word that becomes 5 after three milliseconds.\<close>

definition tick_rtos :: "int rtos" where
  "tick_rtos = \<lparr>rt_now = (\<lambda>w. w), rt_delay = (\<lambda>n w. w + int n * 1000), rt_delay_us = (\<lambda>n w. w + uint n),
     rt_ms_to_ticks = unat, rt_tick_period_ms = 1\<rparr>"

definition tick_backend :: "int backend" where
  "tick_backend = \<lparr>be_name = ''tick'', be_begin_session = Pair ESP_OK, be_detect = Pair ESP_OK,
     be_erase = Pair ESP_OK, be_program = (\<lambda>_ w. (ESP_OK, 16, w)), be_verify = (\<lambda>_. Pair ESP_OK),
     be_self_test = (\<lambda>_ _ w. (ESP_OK, 0, w)), be_release_transport = Pair ESP_OK,
     be_reset_target = Pair ESP_OK, be_reinit_debug = Pair ESP_OK, be_halt_target = Pair ESP_OK,
     be_wait_halt = Pair ESP_FAIL,
     be_read_mem32 = (\<lambda>_ _ w. (ESP_OK, if w \<ge> 3000 then 5 else 0, w)),
     be_write_mem32 = (\<lambda>_ _. Pair ESP_OK)\<rparr>"

lemma tick_clock: "clock_advances tick_rtos tick_backend"
  by (simp add: clock_advances_def tick_rtos_def tick_backend_def)


theorem execute_first_failure_witness:
  "\<exists>r w'. execute tick_rtos tick_backend
     [\<lparr>sp_op = Op_wait_halt, sp_ignore_error = True\<rparr>, \<lparr>sp_op = Op_reset_target, sp_ignore_error = False\<rparr>] 0 =
     Some (r, w') \<and> r = ESP_OK"
proof -
  let ?ss = "[\<lparr>sp_op = Op_wait_halt, sp_ignore_error = True\<rparr>, \<lparr>sp_op = Op_reset_target, sp_ignore_error = False\<rparr>]"
  obtain r w' where "execute tick_rtos tick_backend ?ss 0 = Some (r, w')"
    using execute_first_failure [OF tick_clock, of ?ss 0] by blast
  moreover from this have "r = ESP_OK"
    by (simp add: exec_one_def tick_backend_def)
  ultimately show ?thesis by blast
qed

end
