(* ===== verification/Asset_Store.thy ===== *)
theory Asset_Store
  imports Si_Prelude
begin

text \<open>
  \<open>main/prog/asset_store.cpp\<close>: files under \<open>/data\<close>, uploaded in chunks to \<open><name>.part\<close>, hashed
  on the way and installed under their name by a commit that checks the hash.

  The C library and FAT decide whether a call works; \<open>io_env\<close> holds their answers during one
  operation, and every theorem holds for all of them. SHA-256 is the parameter \<open>sha\<close>; a PSA hash
  operation is the bytes it has absorbed. The null checks of out parameters have no counterpart.
\<close>

section \<open>The C library as the store sees it\<close>

record io_env =
  fopen_rd_ok :: "path \<Rightarrow> bool"
  read_hash_ok :: "path \<Rightarrow> bool"
  stat_ok :: "path \<Rightarrow> bool"
  fat_free :: "u64 option"
  psa_setup_ok :: bool
  create_ok :: bool
  fwrite_n :: nat
  psa_update_ok :: bool
  psa_finish_ok :: bool
  fclose_ok :: bool
  unlink_ok :: "path \<Rightarrow> bool"
  rename_ok :: bool

definition io_unlink :: "io_env \<Rightarrow> path \<Rightarrow> fs \<Rightarrow> fs" where
  "io_unlink env p files = (if unlink_ok env p then files(p := None) else files)"

text \<open>\<open>rename\<close>: \<open>None\<close> when it fails, else the file has moved.\<close>

definition io_rename :: "io_env \<Rightarrow> path \<Rightarrow> path \<Rightarrow> fs \<Rightarrow> fs option" where
  "io_rename env p q files =
     (case files p of
        None \<Rightarrow> None
      | Some c \<Rightarrow> if rename_ok env then Some ((files(p := None))(q \<mapsto> c)) else None)"

definition SHA256_LEN :: nat where "SHA256_LEN = 32"
definition MAX_NAME_LEN :: nat where "MAX_NAME_LEN = 31"
definition MAX_PATH_LEN :: nat where "MAX_PATH_LEN = 64"
definition JOB_NAME :: string where "JOB_NAME = ''job.pb''"
definition DIR_PREFIX :: string where "DIR_PREFIX = ''/data/''"
definition PART_SUFFIX :: string where "PART_SUFFIX = ''.part''"

section \<open>Names, paths, hashes\<close>

definition has_suffix :: "string \<Rightarrow> string \<Rightarrow> bool" where
  "has_suffix str suffix \<longleftrightarrow> ends_with str suffix"

text \<open>\<open>snprintf\<close> into a buffer of \<open>MAX_PATH_LEN\<close>: whether it fitted, and what is in the buffer.\<close>

definition make_path :: "string \<Rightarrow> string \<Rightarrow> string \<Rightarrow> bool \<times> path" where
  "make_path prefix file_name suffix =
     (let full = prefix @ file_name @ suffix
      in (0 < length full \<and> length full < MAX_PATH_LEN, take (MAX_PATH_LEN - 1) full))"

definition allowed_char :: "char \<Rightarrow> bool" where
  "allowed_char c \<longleftrightarrow>
     (CHR ''a'' \<le> c \<and> c \<le> CHR ''z'') \<or> (CHR ''0'' \<le> c \<and> c \<le> CHR ''9'') \<or>
     c = CHR ''.'' \<or> c = CHR ''_'' \<or> c = CHR ''-''"

fun all_allowed :: "string \<Rightarrow> bool" where
  "all_allowed [] = True"
| "all_allowed (c # cs) = (if \<not> allowed_char c then False else all_allowed cs)"

definition is_valid_name :: "string \<Rightarrow> bool" where
  "is_valid_name file_name =
     (let len = min (length file_name) (MAX_NAME_LEN + 1)
      in if len = 0 \<or> len > MAX_NAME_LEN \<or> file_name ! 0 = CHR ''.'' \<or>
            file_name ! (len - 1) = CHR ''.'' then False
         else if \<not> all_allowed (take len file_name) then False
         else \<not> has_suffix file_name PART_SUFFIX)"

text \<open>The loop that reads 512 bytes at a time and feeds them to the hash.\<close>

fun hash_loop :: "bytes list \<Rightarrow> bytes \<Rightarrow> bytes" where
  "hash_loop [] absorbed = absorbed"
| "hash_loop (b # bs) absorbed = hash_loop bs (absorbed @ b)"

definition hash_file ::
  "io_env \<Rightarrow> (bytes \<Rightarrow> bytes) \<Rightarrow> fs \<Rightarrow> path \<Rightarrow> esp_err + bytes" where
  "hash_file env sha files p =
     (case (if fopen_rd_ok env p then files p else None) of
        None \<Rightarrow> Inl ESP_ERR_NOT_FOUND
      | Some content \<Rightarrow>
          if \<not> read_hash_ok env p then Inl ESP_FAIL
          else Inr (sha (hash_loop (blocks 512 content) [])))"

definition install_file :: "io_env \<Rightarrow> path \<Rightarrow> path \<Rightarrow> fs \<Rightarrow> esp_err \<times> fs" where
  "install_file env p q files =
     (let files = io_unlink env q files
      in case io_rename env p q files of
           None \<Rightarrow> (ESP_FAIL, files)
         | Some files' \<Rightarrow> (ESP_OK, files'))"

definition is_present ::
  "io_env \<Rightarrow> (bytes \<Rightarrow> bytes) \<Rightarrow> fs \<Rightarrow> path \<Rightarrow> u32 \<Rightarrow> bytes \<Rightarrow> bool" where
  "is_present env sha files p expect_size sha256 =
     (case (if stat_ok env p then files p else None) of
        None \<Rightarrow> False
      | Some content \<Rightarrow>
          if length content \<noteq> unat expect_size then False
          else hash_file env sha files p = Inr sha256)"

text \<open>The boot-time sweep over the names \<open>readdir\<close> returns.\<close>

fun remove_stale_uploads :: "io_env \<Rightarrow> string list \<Rightarrow> fs \<Rightarrow> fs" where
  "remove_stale_uploads env [] files = files"
| "remove_stale_uploads env (d_name # entries) files =
     remove_stale_uploads env entries
       (if has_suffix d_name PART_SUFFIX \<and> fst (make_path DIR_PREFIX d_name '''')
        then io_unlink env (snd (make_path DIR_PREFIX d_name '''')) files else files)"

section \<open>The upload in progress\<close>

record asset_store =
  as_fp :: "path option"
  as_hash :: bytes
  as_name :: string
  as_expected_sha256 :: bytes
  as_size :: u32
  as_written :: u32

definition empty_store :: asset_store where
  "empty_store = \<lparr>as_fp = None, as_hash = [], as_name = [], as_expected_sha256 = [],
     as_size = 0, as_written = 0\<rparr>"

type_synonym store_state = "asset_store \<times> fs"

definition is_resumable :: "asset_store \<Rightarrow> string \<Rightarrow> u32 \<Rightarrow> bytes \<Rightarrow> bool" where
  "is_resumable st new_name new_size sha256 \<longleftrightarrow>
     as_fp st \<noteq> None \<and> as_name st = new_name \<and> as_size st = new_size \<and>
     as_expected_sha256 st = sha256"

definition abort_upload :: "io_env \<Rightarrow> store_state \<Rightarrow> store_state" where
  "abort_upload env s =
     (case s of (st, files) \<Rightarrow>
        case as_fp st of
          None \<Rightarrow> (st, files)
        | Some _ \<Rightarrow>
            let st = st\<lparr>as_fp := None, as_hash := []\<rparr>;
                part = make_path DIR_PREFIX (as_name st) PART_SUFFIX
            in (st, if fst part then io_unlink env (snd part) files else files))"

text \<open>\<open>begin\<close>: the error, or \<open>(present_out, offset_out)\<close>.\<close>

definition begin_upload ::
  "io_env \<Rightarrow> (bytes \<Rightarrow> bytes) \<Rightarrow> string \<Rightarrow> u32 \<Rightarrow> bytes \<Rightarrow> store_state \<Rightarrow>
     (esp_err + bool \<times> u32) \<times> store_state" where
  "begin_upload env sha new_name new_size sha256 s =
     (if \<not> is_valid_name new_name \<or> new_size = 0 then (Inl ESP_ERR_INVALID_ARG, s)
      else if new_name = JOB_NAME then (Inl ESP_ERR_NOT_ALLOWED, s)
      else if is_resumable (fst s) new_name new_size sha256
      then (Inr (False, as_written (fst s)), s)
      else case abort_upload env s of (st, files) \<Rightarrow>
        let path = make_path DIR_PREFIX new_name '''';
            part_path = make_path DIR_PREFIX new_name PART_SUFFIX
        in if \<not> fst path \<or> \<not> fst part_path then (Inl ESP_ERR_INVALID_ARG, (st, files))
           else if is_present env sha files (snd path) new_size sha256
           then (Inr (True, new_size), (st, files))
           else case fat_free env of
               None \<Rightarrow> (Inl ESP_ERR_NO_MEM, (st, files))
             | Some free_bytes \<Rightarrow>
                 if free_bytes < ucast new_size then (Inl ESP_ERR_NO_MEM, (st, files))
                 else if \<not> psa_setup_ok env then (Inl ESP_FAIL, (st\<lparr>as_hash := []\<rparr>, files))
                 else if \<not> create_ok env then (Inl ESP_FAIL, (st\<lparr>as_hash := []\<rparr>, files))
                 else (Inr (False, 0),
                       (\<lparr>as_fp = Some (snd part_path), as_hash = [],
                         as_name = strlcpy new_name (MAX_NAME_LEN + 1),
                         as_expected_sha256 = sha256, as_size = new_size, as_written = 0\<rparr>,
                        files(snd part_path \<mapsto> []))))"

text \<open>Bytes appended to the stream; a short write leaves a prefix.\<close>

definition io_append :: "path \<Rightarrow> bytes \<Rightarrow> fs \<Rightarrow> fs" where
  "io_append p data files =
     files(p \<mapsto> (case files p of None \<Rightarrow> data | Some c \<Rightarrow> c @ data))"

definition write_upload ::
  "io_env \<Rightarrow> u32 \<Rightarrow> bytes \<Rightarrow> store_state \<Rightarrow> esp_err \<times> store_state" where
  "write_upload env offset data s =
     (case s of (st, files) \<Rightarrow>
        case as_fp st of
          None \<Rightarrow> (ESP_ERR_INVALID_STATE, s)
        | Some p \<Rightarrow>
            if offset \<noteq> as_written st then (ESP_ERR_INVALID_ARG, s)
            else if length data = 0 \<or> length data > unat (as_size st - as_written st)
            then (ESP_ERR_INVALID_SIZE, s)
            else
              let files' = io_append p (take (fwrite_n env) data) files
              in if fwrite_n env < length data \<or> \<not> psa_update_ok env
                 then (ESP_FAIL, abort_upload env (st, files'))
                 else (ESP_OK,
                       (st\<lparr>as_hash := as_hash st @ data,
                           as_written := as_written st + of_nat (length data)\<rparr>, files')))"

definition commit_upload ::
  "io_env \<Rightarrow> (bytes \<Rightarrow> bytes) \<Rightarrow> store_state \<Rightarrow> esp_err \<times> store_state" where
  "commit_upload env sha s =
     (case s of (st, files) \<Rightarrow>
        if as_fp st = None then (ESP_ERR_INVALID_STATE, s)
        else if as_written st \<noteq> as_size st then (ESP_ERR_INVALID_SIZE, s)
        else
          let actual = sha (as_hash st);
              st = st\<lparr>as_fp := None, as_hash := []\<rparr>;
              path = snd (make_path DIR_PREFIX (as_name st) '''');
              part_path = snd (make_path DIR_PREFIX (as_name st) PART_SUFFIX);
              (ret, files) =
                (if \<not> psa_finish_ok env \<or> \<not> fclose_ok env then (ESP_FAIL, files)
                 else if actual \<noteq> as_expected_sha256 st then (ESP_ERR_INVALID_CRC, files)
                 else install_file env part_path path files)
          in if ret \<noteq> ESP_OK then (ret, (st, io_unlink env part_path files))
             else (ESP_OK, (st, files)))"

text \<open>The operations the SIDP service can call, as data.\<close>

datatype store_op =
    Store_begin io_env string u32 bytes
  | Store_write io_env u32 bytes
  | Store_commit io_env

fun store_step :: "(bytes \<Rightarrow> bytes) \<Rightarrow> store_op \<Rightarrow> store_state \<Rightarrow> store_state" where
  "store_step sha (Store_begin env name sz sha256) s = snd (begin_upload env sha name sz sha256 s)"
| "store_step sha (Store_write env offset data) s = snd (write_upload env offset data s)"
| "store_step sha (Store_commit env) s = snd (commit_upload env sha s)"

section \<open>Names and paths\<close>

definition data_path :: "string \<Rightarrow> path" where
  "data_path name = DIR_PREFIX @ name"

definition part_path :: "string \<Rightarrow> path" where
  "part_path name = DIR_PREFIX @ name @ PART_SUFFIX"

lemma is_valid_name_length: "is_valid_name name \<Longrightarrow> 0 < length name \<and> length name \<le> 31"
  by (auto simp: is_valid_name_def Let_def MAX_NAME_LEN_def split: if_splits)

lemma is_valid_name_not_part: "is_valid_name name \<Longrightarrow> \<not> ends_with name PART_SUFFIX"
  by (auto simp: is_valid_name_def Let_def has_suffix_def split: if_splits)

text \<open>Every accepted name fits the path buffer, so its paths are never truncated.\<close>

lemma make_path_valid [simp]:
  assumes "is_valid_name name"
  shows "make_path DIR_PREFIX name '''' = (True, data_path name)"
    and "make_path DIR_PREFIX name PART_SUFFIX = (True, part_path name)"
  using is_valid_name_length [OF assms]
  by (auto simp: make_path_def data_path_def part_path_def DIR_PREFIX_def PART_SUFFIX_def
      MAX_PATH_LEN_def)

lemma strlcpy_valid [simp]: "is_valid_name name \<Longrightarrow> strlcpy name (Suc MAX_NAME_LEN) = name"
  using is_valid_name_length [of name] by (simp add: strlcpy_fits MAX_NAME_LEN_def)

lemma data_path_inj [simp]: "data_path a = data_path b \<longleftrightarrow> a = b"
  by (simp add: data_path_def)

lemma part_path_inj [simp]: "part_path a = part_path b \<longleftrightarrow> a = b"
  by (simp add: part_path_def)

lemma data_path_not_part_path:
  "\<not> ends_with name PART_SUFFIX \<Longrightarrow> data_path name \<noteq> part_path m"
  by (auto simp: data_path_def part_path_def)

lemma part_path_not_data_path [simp]:
  "is_valid_name name \<Longrightarrow> data_path name \<noteq> part_path m"
  "is_valid_name name \<Longrightarrow> part_path m \<noteq> data_path name"
  using data_path_not_part_path is_valid_name_not_part by metis+

lemma hash_loop_append: "hash_loop bs absorbed = absorbed @ concat bs"
  by (induction bs arbitrary: absorbed) auto

lemma hash_file_Inr:
  "hash_file env sha files p = Inr h \<longleftrightarrow>
     fopen_rd_ok env p \<and> read_hash_ok env p \<and> (\<exists>c. files p = Some c \<and> h = sha c)"
  by (auto simp: hash_file_def hash_loop_append concat_blocks split: option.splits)

lemma hash_file_not_OK: "hash_file env sha files p \<noteq> Inl ESP_OK"
  by (auto simp: hash_file_def split: option.splits)

lemma hash_file_cong: "files p = files' p \<Longrightarrow> hash_file env sha files p = hash_file env sha files' p"
  by (simp add: hash_file_def)

lemma io_unlink_other [simp]: "p \<noteq> q \<Longrightarrow> io_unlink env q files p = files p"
  by (simp add: io_unlink_def)

lemma install_file_OK:
  "install_file env p q files = (ESP_OK, files') \<Longrightarrow> p \<noteq> q \<Longrightarrow>
     \<exists>c. files p = Some c \<and> files' q = Some c \<and> files' p = None"
  by (auto simp: install_file_def io_rename_def Let_def split: option.splits if_splits)

lemma install_file_other:
  "install_file env p q files = (r, files') \<Longrightarrow> x \<noteq> p \<Longrightarrow> x \<noteq> q \<Longrightarrow> files' x = files x"
  by (auto simp: install_file_def io_rename_def Let_def split: option.splits if_splits)

lemma install_file_err:
  "install_file env p q files = (r, files') \<Longrightarrow> r \<noteq> ESP_OK \<Longrightarrow>
     r = ESP_FAIL \<and> files' = io_unlink env q files"
  by (auto simp: install_file_def io_rename_def Let_def split: option.splits if_splits)

section \<open>The upload invariant\<close>

text \<open>
  While an upload is open, its \<open>.part\<close> file holds exactly the bytes hashed so far, and their
  number is the offset the host is told.
\<close>

definition upload_inv :: "store_state \<Rightarrow> bool" where
  "upload_inv s \<longleftrightarrow>
     (case as_fp (fst s) of
        None \<Rightarrow> True
      | Some p \<Rightarrow>
          is_valid_name (as_name (fst s)) \<and> as_name (fst s) \<noteq> JOB_NAME \<and>
          p = part_path (as_name (fst s)) \<and> snd s p = Some (as_hash (fst s)) \<and>
          length (as_hash (fst s)) = unat (as_written (fst s)) \<and>
          as_written (fst s) \<le> as_size (fst s) \<and> as_size (fst s) \<noteq> 0)"

lemma upload_inv_empty: "upload_inv (empty_store, files)"
  by (simp add: upload_inv_def empty_store_def)

lemma upload_inv_closed [simp]: "as_fp st = None \<Longrightarrow> upload_inv (st, files)"
  by (simp add: upload_inv_def)

lemma upload_inv_open:
  assumes "upload_inv (st, files)" and "as_fp st = Some p"
  shows "is_valid_name (as_name st)" "as_name st \<noteq> JOB_NAME" "p = part_path (as_name st)"
    "files (part_path (as_name st)) = Some (as_hash st)"
    "length (as_hash st) = unat (as_written st)" "as_written st \<le> as_size st" "as_size st \<noteq> 0"
  using assms unfolding upload_inv_def by auto

lemma abort_upload_closed: "as_fp (fst (abort_upload env s)) = None"
  by (auto simp: abort_upload_def Let_def split: prod.splits option.splits)

lemma abort_upload_frame:
  assumes "upload_inv s" and "p \<noteq> part_path (as_name (fst s))"
  shows "snd (abort_upload env s) p = snd s p"
  using assms upload_inv_open(1) [of "fst s" "snd s"]
  by (auto simp: abort_upload_def Let_def split: prod.splits option.splits)

lemma abort_upload_inv: "upload_inv (abort_upload env s)"
  using abort_upload_closed [of env s] by (cases "abort_upload env s") simp

lemma begin_upload_inv:
  assumes "upload_inv s"
  shows "upload_inv (snd (begin_upload env sha name sz sha256 s))"
proof -
  obtain st files where a: "abort_upload env s = (st, files)" by fastforce
  have "as_fp st = None" using abort_upload_closed [of env s] a by simp
  with assms a show ?thesis
    by (auto simp: begin_upload_def Let_def upload_inv_def split: option.splits)
qed

lemma write_upload_inv:
  assumes "upload_inv s"
  shows "upload_inv (snd (write_upload env offset data s))"
proof (cases s)
  case (Pair st files)
  show ?thesis
  proof (cases "fst (write_upload env offset data s) = ESP_OK")
    case False
    with assms Pair show ?thesis
      by (auto simp: write_upload_def Let_def abort_upload_inv split: option.splits if_splits)
  next
    case True
    then obtain p where fp: "as_fp st = Some p"
        and len: "length data \<le> unat (as_size st - as_written st)" "length data \<le> fwrite_n env"
        and res: "snd (write_upload env offset data s) =
          (st\<lparr>as_hash := as_hash st @ data, as_written := as_written st + of_nat (length data)\<rparr>,
           io_append p data files)"
      using Pair by (auto simp: write_upload_def Let_def split: option.splits if_splits)
    note op = upload_inv_open [OF assms [unfolded Pair] fp]
    have sum: "unat (as_written st) + length data \<le> unat (as_size st)"
      using len(1) op(6) by (simp add: unat_sub_u32 word_le_nat_alt)
    with unat_u32_less [of "as_size st"] have "length data < 4294967296" by simp
    then have nlen: "unat (of_nat (length data) :: u32) = length data"
      by (rule unat_of_nat_u32)
    have "unat (as_written st + of_nat (length data)) = unat (as_written st) + length data"
      using sum unat_u32_less [of "as_size st"] nlen by (simp add: unat_add_u32)
    with op res sum fp show ?thesis
      by (simp add: upload_inv_def io_append_def word_le_nat_alt)
  qed
qed

lemma commit_upload_inv:
  assumes "upload_inv s"
  shows "upload_inv (snd (commit_upload env sha s))"
  using assms by (cases s) (auto simp: commit_upload_def Let_def split: prod.splits if_splits)

section \<open>Which files the store may touch\<close>

text \<open>
  The paths the store owns are the \<open>.part\<close> files and the files of accepted names other than
  \<open>job.pb\<close>.
\<close>

definition store_owned :: "path \<Rightarrow> bool" where
  "store_owned p \<longleftrightarrow>
     (\<exists>name. is_valid_name name \<and> (p = part_path name \<or> (name \<noteq> JOB_NAME \<and> p = data_path name)))"

lemma begin_upload_frame:
  assumes "upload_inv s" and "\<forall>name. is_valid_name name \<longrightarrow> p \<noteq> part_path name"
  shows "snd (snd (begin_upload env sha name sz sha256 s)) p = snd s p"
proof -
  obtain st files where a: "abort_upload env s = (st, files)" by fastforce
  have "files p = snd s p"
  proof (cases "as_fp (fst s)")
    case None
    with a show ?thesis by (cases s) (simp add: abort_upload_def)
  next
    case (Some q)
    then have "is_valid_name (as_name (fst s))"
      using upload_inv_open(1) [of "fst s" "snd s" q] assms(1) by simp
    with abort_upload_frame [OF assms(1), of p env] a assms(2) show ?thesis by simp
  qed
  with a assms(2) show ?thesis
    by (auto simp: begin_upload_def Let_def split: option.splits)
qed

lemma write_upload_frame:
  assumes "upload_inv s" and "\<forall>name. is_valid_name name \<longrightarrow> p \<noteq> part_path name"
  shows "snd (snd (write_upload env offset data s)) p = snd s p"
proof (cases s)
  case (Pair st files)
  show ?thesis
  proof (cases "as_fp st")
    case None
    with Pair show ?thesis by (simp add: write_upload_def)
  next
    case (Some q)
    note op = upload_inv_open [OF assms(1) [unfolded Pair] Some]
    from op(1,3) assms(2) have "p \<noteq> q" by blast
    with Pair Some op(1,3) show ?thesis
      by (auto simp: write_upload_def Let_def abort_upload_def io_append_def)
  qed
qed

lemma commit_upload_frame:
  assumes "upload_inv s" and "p \<noteq> part_path (as_name (fst s))" and "p \<noteq> data_path (as_name (fst s))"
  shows "snd (snd (commit_upload env sha s)) p = snd s p"
proof (cases s)
  case (Pair st files)
  show ?thesis
  proof (cases "as_fp st")
    case None
    with Pair show ?thesis by (simp add: commit_upload_def)
  next
    case (Some q)
    note op = upload_inv_open [OF assms(1) [unfolded Pair] Some]
    from assms(2,3) op(1) Pair show ?thesis
      by (auto simp: commit_upload_def Let_def split: prod.splits if_splits
          dest: install_file_other [of _ _ _ _ _ _ p])
  qed
qed

lemma commit_closed_frame: "as_fp (fst s) = None \<Longrightarrow> snd (commit_upload env sha s) = s"
  by (cases s) (simp add: commit_upload_def)

lemma store_step_inv: "upload_inv s \<Longrightarrow> upload_inv (store_step sha op s)"
  by (cases op) (simp_all add: begin_upload_inv write_upload_inv commit_upload_inv)

lemma store_step_frame:
  assumes inv: "upload_inv s" and "\<not> store_owned p"
  shows "snd (store_step sha op s) p = snd s p"
proof -
  have p: "\<forall>name. is_valid_name name \<longrightarrow> p \<noteq> part_path name"
      "\<And>name. is_valid_name name \<Longrightarrow> name \<noteq> JOB_NAME \<Longrightarrow> p \<noteq> data_path name"
    using assms(2) by (auto simp: store_owned_def)
  show ?thesis
  proof (cases op)
    case (Store_commit env)
    show ?thesis
    proof (cases "as_fp (fst s)")
      case None
      with Store_commit show ?thesis by (simp add: commit_closed_frame)
    next
      case (Some q)
      note op = upload_inv_open [of "fst s" "snd s", OF _ Some, simplified, OF inv]
      with p Store_commit show ?thesis
        by (simp add: commit_upload_frame [OF inv])
    qed
  qed (use inv p in \<open>simp_all add: begin_upload_frame write_upload_frame\<close>)
qed

text \<open>
  The contract other components rely on: operations that keep an invariant of their own and
  leave the files they do not own alone, over any sequence of calls.
\<close>

locale asset_frame =
  fixes step :: "'op \<Rightarrow> 's \<Rightarrow> 's"
    and files_of :: "'s \<Rightarrow> fs"
    and inv :: "'s \<Rightarrow> bool"
    and owned :: "path \<Rightarrow> bool"
  assumes inv_step: "inv s \<Longrightarrow> inv (step op s)"
    and frame_step: "inv s \<Longrightarrow> \<not> owned p \<Longrightarrow> files_of (step op s) p = files_of s p"
begin

lemma inv_run: "inv s \<Longrightarrow> inv (fold step ops s)"
  by (induction ops arbitrary: s) (simp_all add: inv_step)

lemma frame_run: "inv s \<Longrightarrow> \<not> owned p \<Longrightarrow> files_of (fold step ops s) p = files_of s p"
  by (induction ops arbitrary: s) (simp_all add: inv_step frame_step)

end

interpretation store: asset_frame "store_step sha" snd upload_inv store_owned
  by unfold_locales (simp_all add: store_step_inv store_step_frame)

lemma job_path_not_owned: "\<not> store_owned (data_path JOB_NAME)"
proof -
  have "\<not> ends_with JOB_NAME PART_SUFFIX" by (simp add: ends_with_def JOB_NAME_def PART_SUFFIX_def)
  then show ?thesis
    by (auto simp: store_owned_def dest: data_path_not_part_path)
qed

section \<open>Committing\<close>

lemma commit_upload_success:
  assumes inv: "upload_inv (st, files)" and ok: "commit_upload env sha (st, files) = (ESP_OK, (st', files'))"
  shows "files' (data_path (as_name st)) = Some (as_hash st) \<and>
     sha (as_hash st) = as_expected_sha256 st \<and> length (as_hash st) = unat (as_size st) \<and>
     as_fp st' = None \<and> files' (part_path (as_name st)) = None"
proof -
  obtain p where fp: "as_fp st = Some p"
    using ok by (auto simp: commit_upload_def split: if_splits)
  note op = upload_inv_open [OF inv fp]
  from ok op(1) have inst: "install_file env (part_path (as_name st)) (data_path (as_name st)) files =
       (ESP_OK, files')"
    and sha: "sha (as_hash st) = as_expected_sha256 st" and sz: "as_written st = as_size st"
    and st': "st' = st\<lparr>as_fp := None, as_hash := []\<rparr>"
    by (auto simp: commit_upload_def Let_def split: if_splits prod.splits)
  from install_file_OK [OF inst] op(1) op(4) op(5) sha sz st' show ?thesis by auto
qed

lemma commit_upload_crc:
  assumes inv: "upload_inv s" and crc: "fst (commit_upload env sha s) = ESP_ERR_INVALID_CRC"
    and p: "p \<noteq> part_path (as_name (fst s))"
  shows "snd (snd (commit_upload env sha s)) p = snd s p \<and>
     as_fp (fst (snd (commit_upload env sha s))) = None"
proof (cases s)
  case (Pair st files)
  obtain q where fp: "as_fp st = Some q"
    using crc Pair by (auto simp: commit_upload_def split: if_splits)
  note op = upload_inv_open [OF inv [unfolded Pair] fp]
  have "install_file env a b files \<noteq> (ESP_ERR_INVALID_CRC, x)" for a b x
    by (auto simp: install_file_def Let_def split: option.splits)
  with crc p op(1) Pair show ?thesis
    by (auto simp: commit_upload_def Let_def split: if_splits prod.splits)
qed

lemma job_name_valid: "is_valid_name JOB_NAME"
  by (simp add: is_valid_name_def MAX_NAME_LEN_def Let_def has_suffix_def ends_with_def
      PART_SUFFIX_def allowed_char_def JOB_NAME_def)

section \<open>A whole upload\<close>

text \<open>
  What a host does with the store: announce the file, send the chunks in order, each at the
  offset reached so far, and commit.
\<close>

fun write_chunks :: "io_env \<Rightarrow> bytes list \<Rightarrow> store_state \<Rightarrow> esp_err \<times> store_state" where
  "write_chunks env [] s = (ESP_OK, s)"
| "write_chunks env (c # cs) s =
     check (write_upload env (as_written (fst s)) c s) Pair (write_chunks env cs)"

definition upload_file ::
  "io_env \<Rightarrow> (bytes \<Rightarrow> bytes) \<Rightarrow> string \<Rightarrow> bytes list \<Rightarrow> store_state \<Rightarrow> esp_err \<times> store_state" where
  "upload_file env sha name chunks s =
     (let data = concat chunks in
      case begin_upload env sha name (of_nat (length data)) (sha data) s of
        (Inl e, s) \<Rightarrow> (e, s)
      | (Inr _, s) \<Rightarrow> check (write_chunks env chunks s) Pair (commit_upload env sha))"

definition io_works :: "io_env \<Rightarrow> nat \<Rightarrow> bool" where
  "io_works env n \<longleftrightarrow>
     (\<exists>free. fat_free env = Some free \<and> n \<le> unat free) \<and> psa_setup_ok env \<and> create_ok env \<and>
     n \<le> fwrite_n env \<and> psa_update_ok env \<and> psa_finish_ok env \<and> fclose_ok env \<and>
     (\<forall>p. unlink_ok env p) \<and> rename_ok env"

lemma write_upload_success:
  assumes "upload_inv (st, files)" and "as_fp st = Some p" and "data \<noteq> []"
    and "length data + unat (as_written st) \<le> unat (as_size st)"
    and "length data \<le> fwrite_n env" and "psa_update_ok env"
  shows "write_upload env (as_written st) data (st, files) =
     (ESP_OK, (st\<lparr>as_hash := as_hash st @ data,
                  as_written := as_written st + of_nat (length data)\<rparr>, io_append p data files))"
  using assms by (simp add: write_upload_def Let_def unat_sub_u32 word_le_nat_alt)

lemma write_chunks_success:
  assumes "upload_inv (st, files)" and "as_fp st = Some p" and "\<forall>c \<in> set chunks. c \<noteq> []"
    and "length (concat chunks) + unat (as_written st) \<le> unat (as_size st)"
    and "length (concat chunks) \<le> fwrite_n env" and "psa_update_ok env"
  shows "\<exists>files'. write_chunks env chunks (st, files) =
     (ESP_OK, (st\<lparr>as_hash := as_hash st @ concat chunks,
                  as_written := as_written st + of_nat (length (concat chunks))\<rparr>, files'))"
  using assms
proof (induction chunks arbitrary: st files)
  case (Cons c cs)
  let ?st = "st\<lparr>as_hash := as_hash st @ c, as_written := as_written st + of_nat (length c)\<rparr>"
  have w: "write_upload env (as_written st) c (st, files) = (ESP_OK, (?st, io_append p c files))"
    using Cons.prems by (intro write_upload_success) auto
  then have inv: "upload_inv (?st, io_append p c files)"
    using write_upload_inv [OF Cons.prems(1), of env "as_written st" c] by simp
  have "unat (of_nat (length c) :: u32) = length c"
    using Cons.prems(4) unat_u32_less [of "as_size st"] by (intro unat_of_nat_u32) simp
  then have "unat (as_written ?st) = unat (as_written st) + length c"
    using Cons.prems(4) unat_u32_less [of "as_size st"] by (simp add: unat_add_u32)
  then obtain files' where "write_chunks env cs (?st, io_append p c files) =
     (ESP_OK, (?st\<lparr>as_hash := as_hash ?st @ concat cs,
                  as_written := as_written ?st + of_nat (length (concat cs))\<rparr>, files'))"
    using Cons.IH [OF inv] Cons.prems by auto
  with w show ?case by (simp add: add.assoc)
qed simp

lemma write_chunks_inv: "upload_inv s \<Longrightarrow> upload_inv (snd (write_chunks env cs s))"
  by (induction cs arbitrary: s) (auto simp: check_def write_upload_inv)

lemma commit_upload_works:
  assumes inv: "upload_inv (st, files)" and "as_fp st = Some p" and "as_written st = as_size st"
    and "sha (as_hash st) = as_expected_sha256 st" and "psa_finish_ok env" "fclose_ok env"
    "\<forall>p. unlink_ok env p" "rename_ok env"
  shows "fst (commit_upload env sha (st, files)) = ESP_OK"
  using assms upload_inv_open [OF inv assms(2)]
  by (simp add: commit_upload_def Let_def install_file_def io_unlink_def io_rename_def)

section \<open>FAT's view of names\<close>

text \<open>FAT compares names without case and drops trailing dots.\<close>

definition fat_lower :: "char \<Rightarrow> char" where
  "fat_lower c = (if CHR ''A'' \<le> c \<and> c \<le> CHR ''Z'' then char_of (of_char c + 32 :: nat) else c)"

definition fat_name :: "string \<Rightarrow> string" where
  "fat_name name = rev (dropWhile (\<lambda>c. c = CHR ''.'') (rev (map fat_lower name)))"

lemma all_allowed_iff: "all_allowed cs \<longleftrightarrow> (\<forall>c \<in> set cs. allowed_char c)"
  by (induction cs) auto

lemma fat_lower_allowed: "allowed_char c \<Longrightarrow> fat_lower c = c"
  by (auto simp: allowed_char_def fat_lower_def less_eq_char_def)

lemma fat_name_valid: "is_valid_name name \<Longrightarrow> fat_name name = name"
proof -
  assume v: "is_valid_name name"
  from is_valid_name_length [OF v] have len: "0 < length name" "length name \<le> 31" by auto
  with v have all: "\<forall>c \<in> set name. allowed_char c" and "name ! (length name - 1) \<noteq> CHR ''.''"
    by (auto simp: is_valid_name_def Let_def MAX_NAME_LEN_def all_allowed_iff split: if_splits)
  then have last: "last name \<noteq> CHR ''.''" and "name \<noteq> []"
    using len by (auto simp: last_conv_nth)
  from all have "map fat_lower name = name"
    by (simp add: map_idI fat_lower_allowed)
  moreover have "dropWhile (\<lambda>c. c = CHR ''.'') (rev name) = rev name"
    using last \<open>name \<noteq> []\<close> by (cases name rule: rev_cases) auto
  ultimately show ?thesis by (simp add: fat_name_def)
qed

lemma begin_upload_opens:
  assumes inv: "upload_inv s" and valid: "is_valid_name name" "name \<noteq> JOB_NAME" and sz: "sz \<noteq> 0"
    and fresh: "\<not> is_resumable (fst s) name sz h"
    and absent: "\<And>c. snd s (data_path name) = Some c \<Longrightarrow> sha c \<noteq> h"
    and works: "fat_free env = Some free" "unat sz \<le> unat free" "psa_setup_ok env" "create_ok env"
  shows "begin_upload env sha name sz h s =
     (Inr (False, 0),
      (\<lparr>as_fp = Some (part_path name), as_hash = [], as_name = name,
        as_expected_sha256 = h, as_size = sz, as_written = 0\<rparr>,
       (snd (abort_upload env s))(part_path name \<mapsto> [])))"
proof -
  obtain st files where a: "abort_upload env s = (st, files)" by fastforce
  have "data_path name \<noteq> part_path (as_name (fst s))"
    using valid(1) by simp
  from abort_upload_frame [OF inv this, of env] a
  have "files (data_path name) = snd s (data_path name)" by simp
  then have absent': "\<not> is_present env sha files (data_path name) sz h"
    using absent by (auto simp: is_present_def hash_file_Inr split: option.splits if_splits)
  have "\<not> free < ucast sz"
    using works(2) by (simp add: word_less_nat_alt)
  with a valid sz fresh absent' works show ?thesis
    by (simp add: begin_upload_def Let_def)
qed

lemma upload_file_run:
  assumes inv: "upload_inv s" and valid: "is_valid_name name" "name \<noteq> JOB_NAME"
    and data: "data = concat chunks" "data \<noteq> []" "length data < 4294967296" "\<forall>c \<in> set chunks. c \<noteq> []"
    and fresh: "as_fp (fst s) = None"
    and absent: "\<And>c. snd s (data_path name) = Some c \<Longrightarrow> sha c \<noteq> sha data"
    and works: "io_works env (length data)"
  shows "\<exists>st' files'. upload_file env sha name chunks s = (ESP_OK, (st', files')) \<and>
     files' (data_path name) = Some data \<and> files' (part_path name) = None \<and> as_fp st' = None"
proof -
  from works obtain free where free: "fat_free env = Some free" "length data \<le> unat free"
    by (auto simp: io_works_def)
  let ?sz = "of_nat (length data) :: u32"
  have sz: "unat ?sz = length data" using data(3) by (rule unat_of_nat_u32)
  then have "?sz \<noteq> 0" using data(2) by (metis length_0_conv unat_eq_zero)
  define st where "st = \<lparr>as_fp = Some (part_path name), as_hash = [], as_name = name,
        as_expected_sha256 = sha data, as_size = ?sz, as_written = 0\<rparr>"
  define files where "files = (snd (abort_upload env s))(part_path name \<mapsto> [])"
  have b: "begin_upload env sha name ?sz (sha data) s = (Inr (False, 0), (st, files))"
    unfolding st_def files_def
    by (rule begin_upload_opens [OF inv valid \<open>?sz \<noteq> 0\<close> _ absent free(1)])
      (use fresh works free sz in \<open>auto simp: is_resumable_def io_works_def\<close>)
  have inv1: "upload_inv (st, files)"
    using begin_upload_inv [OF inv, of env sha name ?sz "sha data"] b by simp
  define st1 where "st1 = st\<lparr>as_hash := data, as_written := ?sz\<rparr>"
  have "\<exists>files'. write_chunks env chunks (st, files) = (ESP_OK, (st1, files'))"
    using write_chunks_success [OF inv1, of "part_path name" chunks env] data works sz
    by (simp add: st_def st1_def io_works_def)
  then obtain files1 where w: "write_chunks env chunks (st, files) = (ESP_OK, (st1, files1))" ..
  have inv2: "upload_inv (st1, files1)"
    using write_chunks_inv [OF inv1, of env chunks] w by simp
  obtain st2 files2 where c: "commit_upload env sha (st1, files1) = (ESP_OK, (st2, files2))"
    using commit_upload_works [OF inv2, of "part_path name" sha env] works
    by (cases "commit_upload env sha (st1, files1)")
      (auto simp: st1_def st_def io_works_def)
  from commit_upload_success [OF inv2 c] b w c data(1) show ?thesis
    by (auto simp: upload_file_def Let_def st1_def st_def)
qed

text \<open>What \<open>begin\<close> tells the host, against the files and the state it leaves.\<close>

definition offset_truthful ::
  "(bytes \<Rightarrow> bytes) \<Rightarrow> string \<Rightarrow> u32 \<Rightarrow> bytes \<Rightarrow> bool \<Rightarrow> u32 \<Rightarrow> asset_store \<Rightarrow> fs \<Rightarrow> bool" where
  "offset_truthful sha name sz h present offset st files \<longleftrightarrow>
     (if present
      then offset = sz \<and>
        (case files (data_path name) of None \<Rightarrow> False | Some c \<Rightarrow> length c = unat sz \<and> sha c = h)
      else as_fp st = Some (part_path name) \<and>
        (case files (part_path name) of None \<Rightarrow> False | Some c \<Rightarrow> length c = unat offset \<and> c = as_hash st))"

lemma begin_upload_reports:
  assumes inv: "upload_inv s" and b: "begin_upload env sha name sz h s = (Inr (present, offset), st, files)"
  shows "offset_truthful sha name sz h present offset st files"
proof (cases "is_resumable (fst s) name sz h")
  case True
  then obtain p where p: "as_fp (fst s) = Some p" "as_name (fst s) = name" by (auto simp: is_resumable_def)
  from True b have "present = False" "offset = as_written (fst s)" "(st, files) = s"
    by (auto simp: begin_upload_def split: if_splits)
  with p upload_inv_open [of "fst s" "snd s" p] inv show ?thesis by (auto simp: offset_truthful_def)
next
  case False
  obtain st1 files1 where a: "abort_upload env s = (st1, files1)" by fastforce
  have valid: "is_valid_name name" using b by (auto simp: begin_upload_def split: if_splits)
  show ?thesis
    using b False a valid
    by (auto simp: begin_upload_def Let_def offset_truthful_def is_present_def hash_file_Inr
        split: option.splits if_splits)
qed

section \<open>Properties\<close>

text \<open>
  C28: After any sequence of begin, write and commit calls from boot, whatever fails on the way,
  the bytes in the open \<open>.part\<close> file are exactly the bytes hashed, and never more than the
  announced size. Whatever upload is begun next, new or resumed, the offset that \<open>begin\<close> reports is
  the number of bytes that the named \<open>.part\<close> file then holds and has hashed; when it says instead that the
  asset is present, the file under the name has the announced length and hash.
\<close>

theorem upload_invariant:
  "let s = fold (store_step sha) ops (empty_store, files) in upload_inv s \<and>
     (\<forall>env name sz h. case begin_upload env sha name sz h s of
        (Inr (present, offset), st, files') \<Rightarrow> offset_truthful sha name sz h present offset st files'
      | _ \<Rightarrow> True)"
  unfolding Let_def
proof (intro conjI allI)
  let ?s = "fold (store_step sha) ops (empty_store, files)"
  show inv: "upload_inv ?s" by (rule store.inv_run) (rule upload_inv_empty)
  show "case begin_upload env sha name sz h ?s of
      (Inr (present, offset), st, files') \<Rightarrow> offset_truthful sha name sz h present offset st files' | _ \<Rightarrow> True"
    for env name sz h
    using begin_upload_reports [OF inv, of env sha name sz h] by (auto split: prod.split sum.split)
qed

text \<open>
  C29: No sequence of asset calls can create, change or delete the installed job file
  \<open>/data/job.pb\<close>.
\<close>

theorem assets_never_touch_job:
  "snd (fold (store_step sha) ops (empty_store, files)) (data_path JOB_NAME) =
     files (data_path JOB_NAME)"
  using store.frame_run [OF upload_inv_empty job_path_not_owned] by simp

text \<open>
  C19: A commit that returns \<open>ESP_OK\<close> leaves under the asset's name exactly the bytes that were
  hashed; they have the announced length and the announced hash, the \<open>.part\<close> file is gone and
  no other file has changed.
\<close>

theorem commit_installs_verified:
  assumes "upload_inv (st, files)"
    and "commit_upload env sha (st, files) = (ESP_OK, (st', files'))"
  shows "files' (data_path (as_name st)) = Some (as_hash st) \<and>
     sha (as_hash st) = as_expected_sha256 st \<and> length (as_hash st) = unat (as_size st) \<and>
     as_fp st' = None \<and> files' (part_path (as_name st)) = None \<and>
     (\<forall>p. p \<notin> {part_path (as_name st), data_path (as_name st)} \<longrightarrow> files' p = files p)"
  using commit_upload_success [OF assms] commit_upload_frame [OF assms(1)] assms(2)
  by (metis fst_conv insertCI snd_conv)

text \<open>
  A commit whose hash does not match keeps every file but the \<open>.part\<close> file: the asset that
  was installed under the name before is still there.
\<close>

theorem commit_bad_hash_keeps_files:
  assumes "upload_inv s" and "fst (commit_upload env sha s) = ESP_ERR_INVALID_CRC"
    and "p \<noteq> part_path (as_name (fst s))"
  shows "snd (snd (commit_upload env sha s)) p = snd s p \<and>
     as_fp (fst (snd (commit_upload env sha s))) = None"
  using assms by (rule commit_upload_crc)

text \<open>
  C30: When storage and hashing work, announcing a file that is not there yet, sending it in
  non-empty chunks of any sizes and committing succeeds, and the file holds the chunks joined.
\<close>

theorem upload_roundtrip:
  assumes "upload_inv s" and "is_valid_name name" and "name \<noteq> JOB_NAME"
    and "concat chunks \<noteq> []" and "length (concat chunks) < 4294967296" and "\<forall>c \<in> set chunks. c \<noteq> []"
    and "as_fp (fst s) = None"
    and "\<And>c. snd s (data_path name) = Some c \<Longrightarrow> sha c \<noteq> sha (concat chunks)"
    and "io_works env (length (concat chunks))"
  shows "\<exists>st' files'. upload_file env sha name chunks s = (ESP_OK, (st', files')) \<and>
     files' (data_path name) = Some (concat chunks) \<and> files' (part_path name) = None \<and>
     as_fp st' = None"
  by (rule upload_file_run [OF assms(1-3) refl]) (use assms(4-9) in auto)

text \<open>A run on which the commit properties are exercised: \<open>fw.bin\<close> sent as two chunks.\<close>

definition sample_io :: io_env where
  "sample_io = \<lparr>fopen_rd_ok = (\<lambda>_. True), read_hash_ok = (\<lambda>_. True), stat_ok = (\<lambda>_. True),
     fat_free = Some 1000, psa_setup_ok = True, create_ok = True, fwrite_n = 1000,
     psa_update_ok = True, psa_finish_ok = True, fclose_ok = True, unlink_ok = (\<lambda>_. True),
     rename_ok = True\<rparr>"

definition sample_store :: "bytes \<Rightarrow> store_state" where
  "sample_store h =
     (\<lparr>as_fp = Some (part_path ''fw.bin''), as_hash = [1, 2, 3], as_name = ''fw.bin'',
       as_expected_sha256 = h, as_size = 3, as_written = 3\<rparr>,
      [part_path ''fw.bin'' \<mapsto> [1, 2, 3], data_path ''fw.bin'' \<mapsto> [9]])"

lemma sample_name: "is_valid_name ''fw.bin''" "''fw.bin'' \<noteq> JOB_NAME"
  by (simp_all add: is_valid_name_def MAX_NAME_LEN_def Let_def has_suffix_def ends_with_def
      PART_SUFFIX_def allowed_char_def JOB_NAME_def)

lemma sample_store_inv: "upload_inv (sample_store h)"
  using sample_name
  by (simp add: sample_store_def upload_inv_def data_path_def part_path_def PART_SUFFIX_def)

lemma sample_commit:
  "fst (commit_upload sample_io rev (sample_store [3, 2, 1])) = ESP_OK"
  "fst (commit_upload sample_io rev (sample_store [])) = ESP_ERR_INVALID_CRC"
  using sample_name
  by (simp_all add: commit_upload_def sample_store_def sample_io_def Let_def install_file_def
      io_unlink_def io_rename_def)

theorem commit_installs_verified_witness:
  "snd (snd (commit_upload sample_io rev (sample_store [3, 2, 1]))) (data_path ''fw.bin'') =
     Some [1, 2, 3]"
proof (cases "commit_upload sample_io rev (sample_store [3, 2, 1])")
  case (fields r st files)
  have "upload_inv (fst (sample_store [3, 2, 1]), snd (sample_store [3, 2, 1]))"
    by (simp add: sample_store_inv)
  from commit_installs_verified [OF this, of sample_io rev st files] fields sample_commit(1)
  show ?thesis by (simp add: sample_store_def)
qed

theorem commit_bad_hash_keeps_files_witness:
  "snd (snd (commit_upload sample_io rev (sample_store []))) (data_path ''fw.bin'') = Some [9]"
  using commit_bad_hash_keeps_files [OF sample_store_inv sample_commit(2), of "data_path ''fw.bin''"]
    sample_name
  by (simp add: sample_store_def)

theorem upload_roundtrip_witness:
  "\<exists>st' files'. upload_file sample_io rev ''fw.bin'' [[1, 2], [3]] (empty_store, Map.empty) =
     (ESP_OK, (st', files')) \<and> files' (data_path ''fw.bin'') = Some [1, 2, 3] \<and>
     files' (part_path ''fw.bin'') = None \<and> as_fp st' = None"
  using upload_roundtrip [OF upload_inv_empty sample_name,
      of "[[1, 2], [3]]" Map.empty rev sample_io]
  by (simp add: empty_store_def io_works_def sample_io_def)

text \<open>
  Two accepted names that FAT takes for the same file are equal, so no accepted name other
  than \<open>job.pb\<close> itself can reach the job file through FAT's case folding or dropped dots.
\<close>

theorem valid_names_fat_unique:
  assumes "is_valid_name a" and "is_valid_name b" and "fat_name a = fat_name b"
  shows "a = b"
  using assms by (simp add: fat_name_valid)

theorem valid_names_fat_unique_witness:
  "is_valid_name ''fw.bin'' \<and> fat_name ''fw.bin'' \<noteq> fat_name JOB_NAME"
  using valid_names_fat_unique [OF sample_name(1) job_name_valid] sample_name by blast

text \<open>
  The boot-time sweep deletes every listed \<open>.part\<close> file whose deletion works and whose path
  fits the buffer, and nothing else.
\<close>

theorem stale_uploads_swept:
  "remove_stale_uploads env entries files p =
     (if \<exists>d \<in> set entries. p = DIR_PREFIX @ d \<and> has_suffix d PART_SUFFIX \<and>
           length (DIR_PREFIX @ d) < MAX_PATH_LEN \<and> unlink_ok env p
      then None else files p)"
proof (induction entries arbitrary: files)
  case (Cons e entries)
  show ?case
    by (subst remove_stale_uploads.simps, subst Cons.IH)
      (auto simp: make_path_def Let_def io_unlink_def MAX_PATH_LEN_def DIR_PREFIX_def)
qed simp

end
