(* ===== verification/Fw_Asset_Manager.thy ===== *)
theory Fw_Asset_Manager
  imports Job_Decoder Asset_Store
begin

text \<open>
  \<open>main/prog/fw_asset_manager.cpp\<close>: the active job. A staged job becomes active after it decodes,
  validates, every image it pins hashes to the pinned value, and it has been saved as
  \<open>/data/job.pb\<close>.

  \<open>lib_params\<close> are the libraries (SHA-256, nanopb's decoder and the schema number it was generated
  from); \<open>asset_env\<close> is what can fail during one call. \<open>am_live\<close> counts the PSRAM buffers that are
  allocated. \<open>am_cfg\<close> is \<open>None\<close> once a write outside the configuration's arrays has happened, which
  the invariant excludes.
\<close>

section \<open>State\<close>

record lib_params =
  lib_sha :: "bytes \<Rightarrow> bytes"
  lib_parse :: "bytes \<Rightarrow> bytes list \<times> si_job_Job option"
  lib_schema :: int

record asset_env =
  ae_io :: io_env
  ae_open_ok :: "path \<Rightarrow> bool"
  ae_alloc_ok :: "nat \<Rightarrow> bool"
  ae_job_alloc_ok :: bool

definition dec_env :: "lib_params \<Rightarrow> asset_env \<Rightarrow> decode_env" where
  "dec_env lib env = \<lparr>pb_parse = lib_parse lib, schema_current = lib_schema lib,
     open_ok = ae_open_ok env, alloc_ok = ae_alloc_ok env\<rparr>"

record decoded_job =
  dj_job :: si_job_Job
  dj_algo_bin :: "bytes option"

record fw_assets =
  am_cfg :: "target_config option"
  am_job :: "si_job_Job option"
  am_algo_bin :: "bytes option"
  am_sha256 :: bytes
  am_live :: nat

definition boot_assets :: fw_assets where
  "boot_assets = \<lparr>am_cfg = Some empty_config, am_job = None, am_algo_bin = None,
     am_sha256 = replicate SHA256_LEN 0, am_live = 0\<rparr>"

definition JOB_PATH :: path where "JOB_PATH = ''/data/job.pb''"
definition STAGED_JOB_PATH :: path where "STAGED_JOB_PATH = ''/data/job.pb.new''"
definition FIRMWARE_PATH :: path where "FIRMWARE_PATH = ''/data/firmware.bin''"

section \<open>Operations\<close>

definition verify_image :: "lib_params \<Rightarrow> asset_env \<Rightarrow> fs \<Rightarrow> path \<Rightarrow> bytes \<Rightarrow> esp_err" where
  "verify_image lib env files p pinned_sha256 =
     (case hash_file (ae_io env) (lib_sha lib) files p of
        Inl ret \<Rightarrow> ret
      | Inr actual \<Rightarrow> if actual \<noteq> pinned_sha256 then ESP_ERR_INVALID_CRC else ESP_OK)"

fun verify_image_loop ::
  "lib_params \<Rightarrow> asset_env \<Rightarrow> fs \<Rightarrow> si_job_Esp32Image list \<Rightarrow> esp_err" where
  "verify_image_loop lib env files [] = ESP_OK"
| "verify_image_loop lib env files (i # is) =
     (let ret = verify_image lib env files (ei_path i) (ei_sha256 i)
      in if ret \<noteq> ESP_OK then ret else verify_image_loop lib env files is)"

definition verify_job_images ::
  "lib_params \<Rightarrow> asset_env \<Rightarrow> fs \<Rightarrow> si_job_Job \<Rightarrow> esp_err" where
  "verify_job_images lib env files new_job =
     (if tg_has_cortex_m (jb_target new_job)
      then verify_image lib env files FIRMWARE_PATH
             (cm_firmware_sha256 (tg_cortex_m (jb_target new_job)))
      else verify_image_loop lib env files (es_images (tg_esp32 (jb_target new_job))))"

definition verify_images :: "lib_params \<Rightarrow> asset_env \<Rightarrow> fs \<Rightarrow> fw_assets \<Rightarrow> esp_err" where
  "verify_images lib env files a =
     (case am_job a of
        None \<Rightarrow> ESP_ERR_INVALID_STATE
      | Some job \<Rightarrow> verify_job_images lib env files job)"

text \<open>\<open>decode\<close>: the error or the decoded job, and the number of live buffers.\<close>

definition decode ::
  "lib_params \<Rightarrow> asset_env \<Rightarrow> fs \<Rightarrow> path \<Rightarrow> nat \<Rightarrow> (esp_err + decoded_job) \<times> nat" where
  "decode lib env files p live =
     (if \<not> ae_job_alloc_ok env then (Inl ESP_ERR_NO_MEM, live)
      else case decode_job (dec_env lib env) files p (Suc live) of
          (Inl ret, live) \<Rightarrow> (Inl ret, live - 1)
        | (Inr (job, algo_bin), live) \<Rightarrow>
            let ret = verify_job_images lib env files job
            in if ret \<noteq> ESP_OK then (Inl ret, heap_free algo_bin live - 1)
               else (Inr \<lparr>dj_job = job, dj_algo_bin = algo_bin\<rparr>, live))"

text \<open>The length \<open>algo_bin_len\<close> beside the buffer, zero without one.\<close>

definition blob_len :: "bytes option \<Rightarrow> u32" where
  "blob_len b = (case b of None \<Rightarrow> 0 | Some d \<Rightarrow> of_nat (length d))"

definition publish :: "decoded_job \<Rightarrow> bytes \<Rightarrow> fw_assets \<Rightarrow> fw_assets" where
  "publish decoded sha256 a =
     \<lparr>am_cfg = Option.bind (am_cfg a)
        (fill_target_config (dj_job decoded) (dj_algo_bin decoded) (blob_len (dj_algo_bin decoded))),
      am_job = Some (dj_job decoded),
      am_algo_bin = dj_algo_bin decoded,
      am_sha256 = sha256,
      am_live = heap_free (am_job a) (heap_free (am_algo_bin a) (am_live a))\<rparr>"

definition am_init :: "lib_params \<Rightarrow> asset_env \<Rightarrow> fs \<Rightarrow> fw_assets \<Rightarrow> esp_err \<times> fw_assets" where
  "am_init lib env files a =
     (case hash_file (ae_io env) (lib_sha lib) files JOB_PATH of
        Inl ret \<Rightarrow> (ret, a)
      | Inr sha256 \<Rightarrow>
          (case decode lib env files JOB_PATH (am_live a) of
             (Inl ret, live) \<Rightarrow> (ret, a\<lparr>am_live := live\<rparr>)
           | (Inr decoded, live) \<Rightarrow> (ESP_OK, publish decoded sha256 (a\<lparr>am_live := live\<rparr>))))"

definition activate_staged ::
  "lib_params \<Rightarrow> asset_env \<Rightarrow> bytes \<Rightarrow> fw_assets \<times> fs \<Rightarrow> esp_err \<times> (fw_assets \<times> fs)" where
  "activate_staged lib env sha256 s =
     (case s of (a, files) \<Rightarrow>
        if am_job a \<noteq> None \<and> am_sha256 a = sha256 then (ESP_OK, s)
        else if hash_file (ae_io env) (lib_sha lib) files STAGED_JOB_PATH \<noteq> Inr sha256
        then (ESP_ERR_NOT_FOUND, s)
        else case decode lib env files STAGED_JOB_PATH (am_live a) of
            (Inl ret, live) \<Rightarrow> (ret, (a\<lparr>am_live := live\<rparr>, files))
          | (Inr decoded, live) \<Rightarrow>
              (case install_file (ae_io env) STAGED_JOB_PATH JOB_PATH files of (ret, files) \<Rightarrow>
                 if ret \<noteq> ESP_OK
                 then (ret, (a\<lparr>am_live := heap_free (Some (dj_job decoded))
                                (heap_free (dj_algo_bin decoded) live)\<rparr>, files))
                 else (ESP_OK, (publish decoded sha256 (a\<lparr>am_live := live\<rparr>), files))))"

definition job_name :: "fw_assets \<Rightarrow> string" where
  "job_name a =
     (case am_job a of
        None \<Rightarrow> ''''
      | Some job \<Rightarrow> if jb_name job \<noteq> [] then jb_name job else tg_variant_name (jb_target job))"

definition non_empty :: "bool \<Rightarrow> si_job_Procedure \<Rightarrow> si_job_Procedure option" where
  "non_empty present procedure =
     (if \<not> present \<or> length procedure = 0 then None else Some procedure)"

definition pre_program_steps :: "fw_assets \<Rightarrow> si_job_Procedure option" where
  "pre_program_steps a =
     (case am_job a of
        None \<Rightarrow> None
      | Some job \<Rightarrow> non_empty (jb_has_pre_program job) (jb_pre_program job))"

definition post_program_steps :: "fw_assets \<Rightarrow> si_job_Procedure option" where
  "post_program_steps a =
     (case am_job a of
        None \<Rightarrow> None
      | Some job \<Rightarrow> non_empty (jb_has_post_program job) (jb_post_program job))"

section \<open>Decoding and publishing\<close>

text \<open>Every image a job pins is on disk with the pinned hash.\<close>

definition pinned_images :: "si_job_Job \<Rightarrow> (path \<times> bytes) list" where
  "pinned_images job =
     (if tg_has_cortex_m (jb_target job)
      then [(FIRMWARE_PATH, cm_firmware_sha256 (tg_cortex_m (jb_target job)))]
      else map (\<lambda>i. (ei_path i, ei_sha256 i)) (es_images (tg_esp32 (jb_target job))))"

definition images_match :: "lib_params \<Rightarrow> fs \<Rightarrow> si_job_Job \<Rightarrow> bool" where
  "images_match lib files job \<longleftrightarrow>
     (\<forall>(p, h) \<in> set (pinned_images job). \<exists>c. files p = Some c \<and> lib_sha lib c = h)"

lemma verify_image_OK:
  "verify_image lib env files p h = ESP_OK \<longleftrightarrow> hash_file (ae_io env) (lib_sha lib) files p = Inr h"
  using hash_file_not_OK [of "ae_io env" "lib_sha lib" files p]
  by (auto simp: verify_image_def split: sum.splits)

lemma verify_image_loop_OK:
  "verify_image_loop lib env files is = ESP_OK \<longleftrightarrow>
     (\<forall>i \<in> set is. verify_image lib env files (ei_path i) (ei_sha256 i) = ESP_OK)"
  by (induction "is") (auto simp: Let_def)

lemma verify_job_images_OK:
  "verify_job_images lib env files job = ESP_OK \<longleftrightarrow>
     (\<forall>(p, h) \<in> set (pinned_images job). verify_image lib env files p h = ESP_OK)"
  by (auto simp: verify_job_images_def pinned_images_def verify_image_loop_OK)

lemma verify_job_images_match:
  "verify_job_images lib env files job = ESP_OK \<Longrightarrow> images_match lib files job"
  by (auto simp: verify_job_images_OK images_match_def verify_image_OK hash_file_Inr)

lemma job_valid_dec_env:
  "job_valid (dec_env lib env) job blob = job_valid (dec_env lib env') job blob"
  by (simp add: job_valid_def dec_env_def)

text \<open>A job is what the file content \<open>c\<close> parses to, with its blob, and it is valid.\<close>

definition job_of :: "lib_params \<Rightarrow> bytes \<Rightarrow> si_job_Job \<Rightarrow> bytes option \<Rightarrow> bool" where
  "job_of lib c job blob \<longleftrightarrow>
     (case lib_parse lib c of (payloads, msg) \<Rightarrow>
        c \<noteq> [] \<and> msg = Some job \<and>
        (case blob of None \<Rightarrow> payloads = [] | Some b \<Rightarrow> payloads = [b] \<and> b \<noteq> [])) \<and>
     (\<forall>env. job_valid (dec_env lib env) job blob)"

lemma run_callbacks_blob:
  "fst (run_callbacks env ps (None, live)) \<Longrightarrow>
     (case fst (snd (run_callbacks env ps (None, live))) of
        None \<Rightarrow> ps = [] | Some b \<Rightarrow> ps = [b] \<and> b \<noteq> [])"
  by (cases ps; cases "tl ps") (auto simp: decode_algo_blob_def split: prod.splits if_splits)

lemma decode_job_Inr:
  assumes "decode_job (dec_env lib env) files p live = (Inr (job, blob), live')"
  shows "\<exists>c. files p = Some c \<and> job_of lib c job blob"
proof -
  obtain res buf n where dec: "decode_file (dec_env lib env) files p (None, live) = (res, (buf, n))"
    by (metis surj_pair)
  with assms have res: "res = Inr job" "buf = blob"
      and v: "validate_job (dec_env lib env) job blob = ESP_OK"
    by (auto simp: decode_job_def split: sum.splits esp_err.splits)
  from dec res obtain c payloads where c: "files p = Some c" "c \<noteq> []"
      "lib_parse lib c = (payloads, Some job)"
      and cb: "run_callbacks (dec_env lib env) payloads (None, live) = (True, (blob, n))"
    by (auto simp: decode_file_def dec_env_def split: option.splits if_splits prod.splits)
  have "job_valid (dec_env lib env') job blob" for env'
    using v job_valid_dec_env [of lib env job blob env'] by (simp add: validate_job_OK)
  with run_callbacks_blob [of "dec_env lib env" payloads live] cb c show ?thesis
    by (simp add: job_of_def)
qed

lemma decode_cases:
  "(\<exists>e. decode lib env files p live = (Inl e, live) \<and> e \<noteq> ESP_OK) \<or>
   (\<exists>d c. decode lib env files p live =
        (Inr d, Suc live + (if dj_algo_bin d = None then 0 else 1)) \<and>
      files p = Some c \<and> job_of lib c (dj_job d) (dj_algo_bin d) \<and>
      images_match lib files (dj_job d))"
proof (cases "ae_job_alloc_ok env")
  case True
  from decode_job_cases [of "dec_env lib env" files p "Suc live"] show ?thesis
  proof (elim disjE exE conjE)
    fix e assume "decode_job (dec_env lib env) files p (Suc live) = (Inl e, Suc live)" "e \<noteq> ESP_OK"
    with True show ?thesis by (simp add: decode_def)
  next
    fix job buf
    assume dj: "decode_job (dec_env lib env) files p (Suc live) =
        (Inr (job, buf), Suc live + (if buf = None then 0 else 1))"
    from decode_job_Inr [OF dj] obtain c where c: "files p = Some c" "job_of lib c job buf" by blast
    show ?thesis
    proof (cases "verify_job_images lib env files job = ESP_OK")
      case ok: True
      let ?d = "\<lparr>dj_job = job, dj_algo_bin = buf\<rparr>"
      have "decode lib env files p live =
          (Inr ?d, Suc live + (if dj_algo_bin ?d = None then 0 else 1))"
        using True dj ok by (simp add: decode_def Let_def)
      with c verify_job_images_match [OF ok] show ?thesis
        by (intro disjI2 exI [of _ ?d] exI [of _ c]) simp
    next
      case False
      with True dj show ?thesis by (auto simp: decode_def Let_def heap_free_def)
    qed
  qed
qed (simp add: decode_def)

section \<open>The manager's invariant\<close>

text \<open>nanopb enforces the capacities of \<open>job.options\<close> on every message it decodes.\<close>

definition parse_bounded :: "lib_params \<Rightarrow> bool" where
  "parse_bounded lib \<longleftrightarrow> (\<forall>c payloads job. lib_parse lib c = (payloads, Some job) \<longrightarrow> nanopb_limits job)"

definition am_inv :: "lib_params \<Rightarrow> fw_assets \<Rightarrow> bool" where
  "am_inv lib a \<longleftrightarrow>
     am_live a = (if am_job a = None then 0 else 1) + (if am_algo_bin a = None then 0 else 1) \<and>
     (am_job a = None \<longrightarrow> am_algo_bin a = None) \<and>
     (\<exists>cfg. am_cfg a = Some cfg \<and> config_shape cfg \<and> (am_job a \<noteq> None \<longrightarrow> config_ready cfg)) \<and>
     (\<forall>job. am_job a = Some job \<longrightarrow>
        (\<exists>c. lib_sha lib c = am_sha256 a \<and> job_of lib c job (am_algo_bin a)))"

lemma am_inv_boot: "am_inv lib boot_assets"
  by (simp add: am_inv_def boot_assets_def config_shape_empty)

lemma fill_target_config_ready:
  assumes "job_valid env job blob" and "nanopb_limits job" and "config_shape cfg"
  shows "\<exists>cfg'. fill_target_config job blob len cfg = Some cfg' \<and> config_shape cfg' \<and>
     config_ready cfg'"
proof -
  obtain cfg' where "fill_target_config job blob len cfg = Some cfg'" "config_ready cfg'"
    using fill_target_config_facts [OF assms, of len] by blast
  then show ?thesis by (auto simp: config_ready_def)
qed

lemma publish_inv:
  assumes inv: "am_inv lib a" and bnd: "parse_bounded lib"
    and sha: "lib_sha lib c = sha256" and of: "job_of lib c (dj_job d) (dj_algo_bin d)"
    and live: "live = Suc (am_live a) + (if dj_algo_bin d = None then 0 else 1)"
  shows "am_inv lib (publish d sha256 (a\<lparr>am_live := live\<rparr>))"
proof -
  obtain cfg where cfg: "am_cfg a = Some cfg" "config_shape cfg"
    using inv by (auto simp: am_inv_def)
  have "nanopb_limits (dj_job d)"
    using of bnd by (auto simp: job_of_def parse_bounded_def split: prod.splits)
  moreover have "job_valid (dec_env lib undefined) (dj_job d) (dj_algo_bin d)"
    using of by (simp add: job_of_def)
  ultimately obtain cfg' where
    "fill_target_config (dj_job d) (dj_algo_bin d) (blob_len (dj_algo_bin d)) cfg = Some cfg'"
    "config_shape cfg'" "config_ready cfg'"
    using fill_target_config_ready cfg(2) by blast
  moreover have "heap_free (am_job a) (heap_free (am_algo_bin a) live) =
      Suc 0 + (if dj_algo_bin d = None then 0 else 1)"
    using inv live by (auto simp: am_inv_def heap_free_def)
  ultimately show ?thesis
    using cfg(1) sha of by (auto simp: am_inv_def publish_def)
qed

lemma am_init_cases:
  obtains (failed) e where "am_init lib env files a = (e, a)" "e \<noteq> ESP_OK"
  | (loaded) d c where
      "am_init lib env files a =
        (ESP_OK, publish d (lib_sha lib c)
           (a\<lparr>am_live := Suc (am_live a) + (if dj_algo_bin d = None then 0 else 1)\<rparr>))"
      "files JOB_PATH = Some c" "job_of lib c (dj_job d) (dj_algo_bin d)"
      "images_match lib files (dj_job d)"
proof (cases "hash_file (ae_io env) (lib_sha lib) files JOB_PATH")
  case (Inl e)
  with hash_file_not_OK [of "ae_io env" "lib_sha lib" files JOB_PATH] show ?thesis
    by (intro failed [of e]) (auto simp: am_init_def)
next
  case (Inr h)
  then obtain c where c: "files JOB_PATH = Some c" "h = lib_sha lib c"
    by (auto simp: hash_file_Inr)
  from decode_cases [of lib env files JOB_PATH "am_live a"] show ?thesis
  proof (elim disjE exE conjE)
    fix e assume "decode lib env files JOB_PATH (am_live a) = (Inl e, am_live a)" "e \<noteq> ESP_OK"
    with Inr show ?thesis by (intro failed [of e]) (simp_all add: am_init_def)
  next
    fix d c'
    assume "decode lib env files JOB_PATH (am_live a) =
        (Inr d, Suc (am_live a) + (if dj_algo_bin d = None then 0 else 1))"
      and "files JOB_PATH = Some c'" "job_of lib c' (dj_job d) (dj_algo_bin d)"
        "images_match lib files (dj_job d)"
    with c Inr show ?thesis by (intro loaded [of d c]) (simp_all add: am_init_def)
  qed
qed

lemma am_init_inv:
  assumes "am_inv lib a" and "parse_bounded lib"
  shows "am_inv lib (snd (am_init lib env files a))"
proof (cases rule: am_init_cases [of lib env files a])
  case (loaded d c)
  with publish_inv [OF assms refl loaded(3)] show ?thesis by simp
qed (simp add: assms)

text \<open>What \<open>activate_staged\<close> does, by outcome.\<close>

lemma activate_staged_cases:
  obtains (noop) job where "am_job a = Some job" "am_sha256 a = sha256"
      "activate_staged lib env sha256 (a, files) = (ESP_OK, (a, files))"
  | (refused) e where "activate_staged lib env sha256 (a, files) = (e, (a, files))" "e \<noteq> ESP_OK"
  | (unsaved) "activate_staged lib env sha256 (a, files) =
        (ESP_FAIL, (a, io_unlink (ae_io env) JOB_PATH files))"
      "\<not> rename_ok (ae_io env)"
  | (saved) d c files' where
      "activate_staged lib env sha256 (a, files) =
        (ESP_OK, (publish d sha256
           (a\<lparr>am_live := Suc (am_live a) + (if dj_algo_bin d = None then 0 else 1)\<rparr>), files'))"
      "files STAGED_JOB_PATH = Some c" "lib_sha lib c = sha256" "job_of lib c (dj_job d) (dj_algo_bin d)"
      "images_match lib files (dj_job d)" "files' JOB_PATH = Some c" "files' STAGED_JOB_PATH = None"
      "\<forall>p. p \<noteq> JOB_PATH \<and> p \<noteq> STAGED_JOB_PATH \<longrightarrow> files' p = files p"
proof (cases "am_job a \<noteq> None \<and> am_sha256 a = sha256")
  case True
  then show ?thesis by (auto simp: activate_staged_def intro: noop)
next
  case new: False
  show ?thesis
  proof (cases "hash_file (ae_io env) (lib_sha lib) files STAGED_JOB_PATH = Inr sha256")
    case False
    with new show ?thesis by (intro refused [of ESP_ERR_NOT_FOUND]) (auto simp: activate_staged_def)
  next
    case True
    from decode_cases [of lib env files STAGED_JOB_PATH "am_live a"] show ?thesis
    proof (elim disjE exE conjE)
      fix e assume "decode lib env files STAGED_JOB_PATH (am_live a) = (Inl e, am_live a)" "e \<noteq> ESP_OK"
      with new True show ?thesis by (intro refused [of e]) (auto simp: activate_staged_def)
    next
      fix d c
      assume d: "decode lib env files STAGED_JOB_PATH (am_live a) =
          (Inr d, Suc (am_live a) + (if dj_algo_bin d = None then 0 else 1))"
        and c: "files STAGED_JOB_PATH = Some c" "job_of lib c (dj_job d) (dj_algo_bin d)"
          "images_match lib files (dj_job d)"
      from True c(1) have sha: "lib_sha lib c = sha256" by (auto simp: hash_file_Inr)
      obtain r files' where inst: "install_file (ae_io env) STAGED_JOB_PATH JOB_PATH files = (r, files')"
        by fastforce
      have ne: "STAGED_JOB_PATH \<noteq> JOB_PATH" by (simp add: STAGED_JOB_PATH_def JOB_PATH_def)
      show ?thesis
      proof (cases "r = ESP_OK")
        case ok: True
        with install_file_OK [OF inst [unfolded ok] ne] install_file_other [OF inst] new True d c sha inst
        show ?thesis by (intro saved [of d files' c]) (auto simp: activate_staged_def)
      next
        case False
        from install_file_err [OF inst False] have r: "r = ESP_FAIL"
            "files' = io_unlink (ae_io env) JOB_PATH files" by auto
        have "\<not> rename_ok (ae_io env)"
          using inst False c(1) ne by (auto simp: install_file_def io_rename_def Let_def split: if_splits)
        moreover have "activate_staged lib env sha256 (a, files) =
            (ESP_FAIL, (a, io_unlink (ae_io env) JOB_PATH files))"
          using new True d inst r by (auto simp: activate_staged_def heap_free_def)
        ultimately show ?thesis by (intro unsaved)
      qed
    qed
  qed
qed

lemma activate_staged_inv:
  assumes "am_inv lib (fst s)" and "parse_bounded lib"
  shows "am_inv lib (fst (snd (activate_staged lib env sha256 s)))"
proof (cases s)
  case (Pair a files)
  show ?thesis
  proof (cases rule: activate_staged_cases [of a sha256 lib env files])
    case (saved d c files')
    with publish_inv [OF _ assms(2) saved(3,4), of a] assms(1) Pair show ?thesis by simp
  qed (use assms Pair in simp_all)
qed

section \<open>Uploads and activations interleaved\<close>

text \<open>Everything the SIDP service can do to the job and the files, in any order.\<close>

datatype am_op = Am_store store_op | Am_activate asset_env bytes

type_synonym am_state = "fw_assets \<times> store_state"

fun am_step :: "lib_params \<Rightarrow> am_op \<Rightarrow> am_state \<Rightarrow> am_state" where
  "am_step lib (Am_store op) (a, s) = (a, store_step (lib_sha lib) op s)"
| "am_step lib (Am_activate env sha256) (a, (st, files)) =
     (case snd (activate_staged lib env sha256 (a, files)) of (a', files') \<Rightarrow> (a', (st, files')))"

definition boot :: "lib_params \<Rightarrow> asset_env \<Rightarrow> fs \<Rightarrow> am_state" where
  "boot lib env files = (snd (am_init lib env files boot_assets), (empty_store, files))"

definition sys_inv :: "lib_params \<Rightarrow> am_state \<Rightarrow> bool" where
  "sys_inv lib s \<longleftrightarrow> am_inv lib (fst s) \<and> upload_inv (snd s)"

definition job_saved :: "lib_params \<Rightarrow> am_state \<Rightarrow> bool" where
  "job_saved lib s \<longleftrightarrow>
     (\<forall>job. am_job (fst s) = Some job \<longrightarrow>
        (\<exists>c. snd (snd s) JOB_PATH = Some c \<and> lib_sha lib c = am_sha256 (fst s) \<and>
             job_of lib c job (am_algo_bin (fst s))))"

fun rename_works :: "am_op \<Rightarrow> bool" where
  "rename_works (Am_store op) = True"
| "rename_works (Am_activate env sha256) = rename_ok (ae_io env)"

lemma job_paths:
  "JOB_PATH = data_path JOB_NAME" "STAGED_JOB_PATH = data_path ''job.pb.new''"
  by (simp_all add: JOB_PATH_def STAGED_JOB_PATH_def data_path_def DIR_PREFIX_def JOB_NAME_def)

lemma staged_name_valid: "is_valid_name ''job.pb.new''"
  by (simp add: is_valid_name_def MAX_NAME_LEN_def Let_def has_suffix_def ends_with_def
      PART_SUFFIX_def allowed_char_def)

lemma job_paths_not_part [simp]: "part_path n \<noteq> JOB_PATH" "part_path n \<noteq> STAGED_JOB_PATH"
  by (simp_all add: job_paths job_name_valid staged_name_valid)

lemma activate_staged_frame:
  assumes "p \<noteq> JOB_PATH" and "p \<noteq> STAGED_JOB_PATH"
  shows "snd (snd (activate_staged lib env sha256 (a, files))) p = files p"
  by (cases rule: activate_staged_cases [of a sha256 lib env files]) (use assms in auto)

lemma upload_inv_frame:
  "upload_inv (st, files) \<Longrightarrow> (\<And>n. files' (part_path n) = files (part_path n)) \<Longrightarrow>
     upload_inv (st, files')"
  by (auto simp: upload_inv_def split: option.splits)

lemma am_step_inv:
  assumes "sys_inv lib s" and "parse_bounded lib"
  shows "sys_inv lib (am_step lib op s)"
proof -
  obtain a st files where s: "s = (a, (st, files))" by (metis surj_pair)
  show ?thesis
  proof (cases op)
    case (Am_store op')
    with assms s show ?thesis by (simp add: sys_inv_def store_step_inv)
  next
    case (Am_activate env h)
    with assms s activate_staged_inv [of lib "(a, files)" env h]
      activate_staged_frame [of _ lib env h a files]
    show ?thesis
      by (auto simp: sys_inv_def split: prod.splits intro: upload_inv_frame)
  qed
qed

lemma am_step_saved:
  assumes inv: "sys_inv lib s" and saved: "job_saved lib s" and "rename_works op"
  shows "job_saved lib (am_step lib op s)"
proof -
  obtain a st files where s: "s = (a, (st, files))" by (metis surj_pair)
  show ?thesis
  proof (cases op)
    case (Am_store op')
    have "snd (store_step (lib_sha lib) op' (st, files)) JOB_PATH = files JOB_PATH"
      using store.frame_step [OF _ job_path_not_owned, of "(st, files)"] inv s
      by (simp add: sys_inv_def job_paths)
    with Am_store saved s show ?thesis by (simp add: job_saved_def)
  next
    case (Am_activate env h)
    show ?thesis
      by (cases rule: activate_staged_cases [of a h lib env files])
        (use Am_activate assms s in \<open>auto simp: job_saved_def publish_def\<close>)
  qed
qed

lemma boot_inv: "parse_bounded lib \<Longrightarrow> sys_inv lib (boot lib env files)"
  by (simp add: sys_inv_def boot_def am_init_inv am_inv_boot upload_inv_empty)

lemma boot_saved: "job_saved lib (boot lib env files)"
  by (cases rule: am_init_cases [of lib env files boot_assets])
    (auto simp: job_saved_def boot_def boot_assets_def publish_def)

lemma am_run_inv:
  assumes "parse_bounded lib" and "sys_inv lib s"
  shows "sys_inv lib (fold (am_step lib) ops s)"
  using assms(2) by (induction ops arbitrary: s) (simp_all add: am_step_inv assms(1))

lemma am_run_saved:
  assumes "parse_bounded lib" and "sys_inv lib s" and "job_saved lib s" and "list_all rename_works ops"
  shows "job_saved lib (fold (am_step lib) ops s)"
  using assms(2-4)
  by (induction ops arbitrary: s) (simp_all add: am_step_inv am_step_saved assms(1))

section \<open>Rebooting\<close>

definition env_works :: "asset_env \<Rightarrow> bool" where
  "env_works env \<longleftrightarrow>
     (\<forall>p. fopen_rd_ok (ae_io env) p \<and> read_hash_ok (ae_io env) p \<and> ae_open_ok env p) \<and>
     (\<forall>n. ae_alloc_ok env n) \<and> ae_job_alloc_ok env"

lemma images_match_verify:
  "images_match lib files job \<Longrightarrow> env_works env \<Longrightarrow> verify_job_images lib env files job = ESP_OK"
  by (fastforce simp: images_match_def verify_job_images_OK verify_image_OK hash_file_Inr env_works_def)

lemma decode_job_works:
  assumes "files p = Some c" and of: "job_of lib c job blob" and w: "env_works env"
  shows "decode_job (dec_env lib env) files p live =
     (Inr (job, blob), live + (if blob = None then 0 else 1))"
proof -
  obtain payloads where p: "lib_parse lib c = (payloads, Some job)" "c \<noteq> []"
      "case blob of None \<Rightarrow> payloads = [] | Some b \<Rightarrow> payloads = [b] \<and> b \<noteq> []"
    using of by (cases "lib_parse lib c") (auto simp: job_of_def)
  then have "run_callbacks (dec_env lib env) payloads (None, live) =
      (True, (blob, live + (if blob = None then 0 else 1)))"
    using w by (auto simp: decode_algo_blob_def dec_env_def env_works_def split: option.splits)
  then have "decode_file (dec_env lib env) files p (None, live) =
      (Inr job, (blob, live + (if blob = None then 0 else 1)))"
    using p assms(1) w by (simp add: decode_file_def dec_env_def env_works_def)
  moreover have "validate_job (dec_env lib env) job blob = ESP_OK"
    using of by (simp add: validate_job_OK job_of_def)
  ultimately show ?thesis by (simp add: decode_job_def)
qed

lemma am_init_works:
  assumes "files JOB_PATH = Some c" and "job_of lib c job blob" and "images_match lib files job"
    and w: "env_works env"
  shows "am_init lib env files a = (ESP_OK, publish \<lparr>dj_job = job, dj_algo_bin = blob\<rparr> (lib_sha lib c)
     (a\<lparr>am_live := Suc (am_live a) + (if blob = None then 0 else 1)\<rparr>))"
proof -
  have "hash_file (ae_io env) (lib_sha lib) files JOB_PATH = Inr (lib_sha lib c)"
    using assms(1) w by (simp add: hash_file_Inr env_works_def)
  moreover have "decode lib env files JOB_PATH (am_live a) =
      (Inr \<lparr>dj_job = job, dj_algo_bin = blob\<rparr>, Suc (am_live a) + (if blob = None then 0 else 1))"
    using decode_job_works [of files JOB_PATH, OF assms(1,2) w, of "Suc (am_live a)"] images_match_verify [OF assms(3) w] w
    by (simp add: decode_def env_works_def Let_def)
  ultimately show ?thesis by (simp add: am_init_def)
qed

section \<open>Properties\<close>

text \<open>
  C26: From any boot and under any interleaving of uploads and activations, the PSRAM buffers
  allocated are exactly those of the active job, the configuration has never been written out of
  bounds and can be used whenever a job is active, and the active job is a valid job parsed from
  content with the active hash; the upload invariant holds beside it.
\<close>

theorem manager_invariant:
  assumes "parse_bounded lib"
  shows "sys_inv lib (fold (am_step lib) ops (boot lib env files))"
  using am_run_inv [OF assms boot_inv [OF assms]] .

text \<open>
  As long as no \<open>rename\<close> fails during an activation, the active job is the one saved in
  \<open>/data/job.pb\<close>, whatever is uploaded meanwhile.
\<close>

theorem active_job_is_saved:
  assumes "parse_bounded lib" and "list_all rename_works ops"
  shows "job_saved lib (fold (am_step lib) ops (boot lib env files))"
  using am_run_saved [OF assms(1) boot_inv [OF assms(1)] boot_saved assms(2)] .

text \<open>
  C31: An activation that fails leaves the active job, its configuration and its buffers exactly
  as they were, and every file except possibly \<open>/data/job.pb\<close>.
\<close>

theorem failed_activation_keeps_job:
  assumes "activate_staged lib env sha256 (a, files) = (r, (a', files'))" and "r \<noteq> ESP_OK"
  shows "a' = a \<and> (\<forall>p. p \<noteq> JOB_PATH \<longrightarrow> files' p = files p)"
  by (cases rule: activate_staged_cases [of a sha256 lib env files]) (use assms in auto)

text \<open>
  C18: An activation that succeeds for a job that is not active yet has moved the staged file to
  \<open>/data/job.pb\<close>; that file has the requested hash, parses to the job that is now active, and
  every image the job pins is on disk with the pinned hash.
\<close>

theorem successful_activation:
  assumes "activate_staged lib env sha256 (a, files) = (ESP_OK, (a', files'))"
    and "\<not> (am_job a \<noteq> None \<and> am_sha256 a = sha256)"
  shows "\<exists>c job. files STAGED_JOB_PATH = Some c \<and> lib_sha lib c = sha256 \<and>
     files' JOB_PATH = Some c \<and> files' STAGED_JOB_PATH = None \<and> am_sha256 a' = sha256 \<and>
     am_job a' = Some job \<and> job_of lib c job (am_algo_bin a') \<and> images_match lib files job"
  by (cases rule: activate_staged_cases [of a sha256 lib env files])
    (use assms in \<open>auto simp: publish_def\<close>)

text \<open>
  C32: A job that was activated comes back after a reboot: with storage and memory working,
  \<open>init\<close> loads the same job, the same algorithm and the same hash, provided the job does not pin
  the job files themselves.
\<close>

theorem activation_survives_reboot:
  assumes act: "activate_staged lib env sha256 (a, files) = (ESP_OK, (a', files'))"
    and new: "\<not> (am_job a \<noteq> None \<and> am_sha256 a = sha256)"
    and job: "am_job a' = Some job"
    and pins: "\<forall>(p, h) \<in> set (pinned_images job). p \<noteq> JOB_PATH \<and> p \<noteq> STAGED_JOB_PATH"
    and w: "env_works env'"
  shows "\<exists>a''. am_init lib env' files' boot_assets = (ESP_OK, a'') \<and> am_job a'' = Some job \<and>
     am_algo_bin a'' = am_algo_bin a' \<and> am_sha256 a'' = am_sha256 a'"
proof (cases rule: activate_staged_cases [of a sha256 lib env files])
  case (saved d c fs')
  with act job have eq: "fs' = files'" "dj_job d = job" "am_algo_bin a' = dj_algo_bin d"
      "am_sha256 a' = lib_sha lib c"
    by (auto simp: publish_def)
  have "images_match lib files' job"
    using saved(5,8) pins eq by (fastforce simp: images_match_def)
  from am_init_works [OF saved(6) [unfolded eq] saved(4) [unfolded eq] this w] eq show ?thesis
    by (simp add: publish_def)
qed (use act new in auto)

text \<open>
  When saving a new job deletes \<open>/data/job.pb\<close> and the \<open>rename\<close> then fails, the previous job
  stays active although no job is saved, and a later request to activate that previous job is
  answered \<open>ESP_OK\<close> without saving it: the published job is not always the one on disk.
\<close>

theorem failed_save_then_noop:
  assumes "am_job a = Some job" and "sha256 \<noteq> am_sha256 a"
    and "hash_file (ae_io env) (lib_sha lib) files STAGED_JOB_PATH = Inr sha256"
    and "decode lib env files STAGED_JOB_PATH (am_live a) = (Inr d, live)"
    and "unlink_ok (ae_io env) JOB_PATH" and "\<not> rename_ok (ae_io env)"
  shows "\<exists>files'. activate_staged lib env sha256 (a, files) = (ESP_FAIL, (a, files')) \<and>
     files' JOB_PATH = None \<and>
     activate_staged lib env' (am_sha256 a) (a, files') = (ESP_OK, (a, files'))"
proof -
  have "install_file (ae_io env) STAGED_JOB_PATH JOB_PATH files = (ESP_FAIL, files(JOB_PATH := None))"
    using assms(5,6) by (auto simp: install_file_def io_unlink_def io_rename_def Let_def split: option.splits)
  then have "fst (activate_staged lib env sha256 (a, files)) = ESP_FAIL"
      "snd (snd (activate_staged lib env sha256 (a, files))) = files(JOB_PATH := None)"
    using assms(1-4) by (auto simp: activate_staged_def)
  then have "activate_staged lib env sha256 (a, files) = (ESP_FAIL, (a, files(JOB_PATH := None)))"
    by (cases rule: activate_staged_cases [of a sha256 lib env files]) auto
  then show ?thesis using assms(1) by (simp add: activate_staged_def)
qed

section \<open>A concrete run\<close>

text \<open>
  Two job files, \<open>[7]\<close> and \<open>[6]\<close>, for the same firmware \<open>[8]\<close>; the hash is the content itself.
\<close>

definition sample_lib :: lib_params where
  "sample_lib = \<lparr>lib_sha = (\<lambda>c. c),
     lib_parse = (\<lambda>c. ([[1, 2, 3, 4]], if c = [7] \<or> c = [6] then Some sample_job else None)),
     lib_schema = 1\<rparr>"

definition sample_asset_env :: asset_env where
  "sample_asset_env = \<lparr>ae_io = sample_io, ae_open_ok = (\<lambda>_. True), ae_alloc_ok = (\<lambda>_. True),
     ae_job_alloc_ok = True\<rparr>"

definition no_rename_env :: asset_env where
  "no_rename_env = sample_asset_env\<lparr>ae_io := sample_io\<lparr>rename_ok := False\<rparr>\<rparr>"

definition sample_files :: fs where
  "sample_files = [STAGED_JOB_PATH \<mapsto> [7], FIRMWARE_PATH \<mapsto> [8]]"

definition sample_active :: fw_assets where
  "sample_active = snd (am_init sample_lib sample_asset_env
     [JOB_PATH \<mapsto> [7], FIRMWARE_PATH \<mapsto> [8]] boot_assets)"

lemma sample_bounded: "parse_bounded sample_lib"
  using sample_job_valid(2) by (auto simp: parse_bounded_def sample_lib_def split: if_splits)

lemma sample_works: "env_works sample_asset_env"
  by (simp add: env_works_def sample_asset_env_def sample_io_def)

lemma sample_paths: "STAGED_JOB_PATH \<noteq> JOB_PATH" "FIRMWARE_PATH \<noteq> JOB_PATH"
  "FIRMWARE_PATH \<noteq> STAGED_JOB_PATH" "JOB_PATH \<noteq> STAGED_JOB_PATH" "JOB_PATH \<noteq> FIRMWARE_PATH"
  "STAGED_JOB_PATH \<noteq> FIRMWARE_PATH"
  by (simp_all add: STAGED_JOB_PATH_def JOB_PATH_def FIRMWARE_PATH_def)

lemma sample_job_of: "c = [7] \<or> c = [6] \<Longrightarrow> job_of sample_lib c sample_job (Some [1, 2, 3, 4])"
  using sample_job_valid(1) by (auto simp: job_of_def sample_lib_def job_valid_def dec_env_def sample_env_def)

lemma sample_pins: "pinned_images sample_job = [(FIRMWARE_PATH, [8])]"
  by (simp add: pinned_images_def sample_defs)

lemma sample_activation:
  "\<exists>a files. activate_staged sample_lib sample_asset_env [7] (boot_assets, sample_files) =
     (ESP_OK, (a, files)) \<and> am_job a = Some sample_job"
proof -
  have "hash_file (ae_io sample_asset_env) (lib_sha sample_lib) sample_files STAGED_JOB_PATH = Inr [7]"
    by (simp add: hash_file_Inr sample_asset_env_def sample_io_def sample_files_def sample_lib_def
        sample_paths)
  moreover have "decode sample_lib sample_asset_env sample_files STAGED_JOB_PATH 0 =
      (Inr \<lparr>dj_job = sample_job, dj_algo_bin = Some [1, 2, 3, 4]\<rparr>, 2)"
    using decode_job_works [of sample_files STAGED_JOB_PATH, OF _ sample_job_of sample_works, of "[7]" 1]
      images_match_verify [OF _ sample_works, of sample_lib sample_files sample_job]
    by (simp add: decode_def sample_files_def sample_paths images_match_def sample_pins Let_def
        sample_lib_def sample_asset_env_def)
  ultimately show ?thesis
    by (simp add: activate_staged_def boot_assets_def install_file_def io_rename_def io_unlink_def
        sample_files_def sample_asset_env_def sample_io_def sample_paths publish_def)
qed

theorem manager_invariant_witness:
  "sys_inv sample_lib (fold (am_step sample_lib) [Am_activate sample_asset_env [7]]
     (boot sample_lib sample_asset_env sample_files))"
  by (rule manager_invariant [OF sample_bounded])

theorem active_job_is_saved_witness:
  "job_saved sample_lib (fold (am_step sample_lib) [Am_activate sample_asset_env [7]]
     (boot sample_lib sample_asset_env sample_files))"
  by (rule active_job_is_saved [OF sample_bounded])
    (simp add: sample_asset_env_def sample_io_def)

theorem failed_activation_keeps_job_witness:
  "activate_staged sample_lib sample_asset_env [5] (boot_assets, sample_files) =
     (ESP_ERR_NOT_FOUND, (boot_assets, sample_files))"
proof -
  obtain r a files where act: "activate_staged sample_lib sample_asset_env [5]
      (boot_assets, sample_files) = (r, (a, files))" by (metis surj_pair)
  moreover from act have "r = ESP_ERR_NOT_FOUND" "files = sample_files"
    by (auto simp: activate_staged_def boot_assets_def hash_file_Inr sample_files_def sample_lib_def
        sample_paths)
  ultimately show ?thesis using failed_activation_keeps_job [OF act] by simp
qed

theorem successful_activation_witness:
  "\<exists>a files. activate_staged sample_lib sample_asset_env [7] (boot_assets, sample_files) =
     (ESP_OK, (a, files)) \<and> files JOB_PATH = Some [7] \<and> am_sha256 a = [7]"
proof -
  obtain a files where act: "activate_staged sample_lib sample_asset_env [7]
      (boot_assets, sample_files) = (ESP_OK, (a, files))" using sample_activation by blast
  with successful_activation [OF act] show ?thesis
    by (auto simp: boot_assets_def sample_lib_def)
qed

theorem activation_survives_reboot_witness:
  "\<exists>a files a'. activate_staged sample_lib sample_asset_env [7] (boot_assets, sample_files) =
     (ESP_OK, (a, files)) \<and>
     am_init sample_lib sample_asset_env files boot_assets = (ESP_OK, a') \<and>
     am_job a' = Some sample_job"
proof -
  obtain a files where act: "activate_staged sample_lib sample_asset_env [7]
      (boot_assets, sample_files) = (ESP_OK, (a, files))" and "am_job a = Some sample_job"
    using sample_activation by blast
  with activation_survives_reboot [OF act _ _ _ sample_works, of sample_job] show ?thesis
    by (auto simp: boot_assets_def sample_pins sample_paths)
qed

theorem failed_save_then_noop_witness:
  "\<exists>files'. activate_staged sample_lib no_rename_env [6]
       (sample_active, [JOB_PATH \<mapsto> [7], STAGED_JOB_PATH \<mapsto> [6], FIRMWARE_PATH \<mapsto> [8]]) =
     (ESP_FAIL, (sample_active, files')) \<and> files' JOB_PATH = None"
proof -
  let ?fs = "[JOB_PATH \<mapsto> [7], STAGED_JOB_PATH \<mapsto> [6], FIRMWARE_PATH \<mapsto> [8]] :: fs"
  have w: "env_works no_rename_env"
    by (simp add: env_works_def no_rename_env_def sample_asset_env_def sample_io_def)
  have "am_init sample_lib sample_asset_env [JOB_PATH \<mapsto> [7], FIRMWARE_PATH \<mapsto> [8]] boot_assets =
      (ESP_OK, publish \<lparr>dj_job = sample_job, dj_algo_bin = Some [1, 2, 3, 4]\<rparr> [7]
         (boot_assets\<lparr>am_live := 2\<rparr>))"
    using am_init_works [OF _ sample_job_of _ sample_works, of "[JOB_PATH \<mapsto> [7], FIRMWARE_PATH \<mapsto> [8]]"
        "[7]" boot_assets]
    by (simp add: images_match_def sample_pins sample_paths sample_lib_def boot_assets_def eval_nat_numeral)
  then have a: "am_job sample_active = Some sample_job" "am_sha256 sample_active = [7]"
    by (simp_all add: sample_active_def publish_def)
  have h: "hash_file (ae_io no_rename_env) (lib_sha sample_lib) ?fs STAGED_JOB_PATH = Inr [6]"
    using w by (simp add: hash_file_Inr sample_lib_def sample_paths env_works_def)
  have "decode sample_lib no_rename_env ?fs STAGED_JOB_PATH n =
      (Inr \<lparr>dj_job = sample_job, dj_algo_bin = Some [1, 2, 3, 4]\<rparr>, Suc (Suc n))" for n
    using decode_job_works [of ?fs STAGED_JOB_PATH, OF _ sample_job_of w, of "[6]" "Suc n"]
      images_match_verify [OF _ w, of sample_lib ?fs sample_job] w
    by (simp add: decode_def sample_paths images_match_def sample_pins Let_def sample_lib_def
        env_works_def)
  from failed_save_then_noop [OF a(1) _ h this] a(2) show ?thesis
    by (auto simp: no_rename_env_def sample_asset_env_def sample_io_def)
qed

end
