(* ===== verification/Offline_Flasher.thy ===== *)
theory Offline_Flasher
  imports Procedure_Executor Fw_Asset_Manager
begin

text \<open>
  \<open>main/prog/offline_flasher.cpp\<close>: the state machine of one programming run, and the loop of
  \<open>bootstrap_fsm::run_job\<close> that drives it. \<open>run_env\<close> holds what does not change during a run: the
  active job and its files, the backend of each family, the RTOS, and the build option
  \<open>CONFIG_SI_SG_PROG_RIG\<close> with its current test. The cancel flag is set by another task, so each
  step receives the value it reads. Handlers return \<open>None\<close> where the code would dereference a null
  backend or never return.
\<close>

section \<open>State\<close>

datatype pg_state = ERROR | LOAD_ASSET | PRE_PROGRAM | DETECT | ERASE | PROGRAM | VERIFY
  | SELF_TEST | POST_PROGRAM | DONE | CANCELLED | SG_CURRENT_TEST

text \<open>The values of the enum, and its order.\<close>

fun pg_code :: "pg_state \<Rightarrow> int" where
  "pg_code ERROR = -1"
| "pg_code LOAD_ASSET = 0"
| "pg_code PRE_PROGRAM = 1"
| "pg_code DETECT = 2"
| "pg_code ERASE = 3"
| "pg_code PROGRAM = 4"
| "pg_code VERIFY = 5"
| "pg_code SELF_TEST = 6"
| "pg_code POST_PROGRAM = 7"
| "pg_code DONE = 8"
| "pg_code CANCELLED = 9"
| "pg_code SG_CURRENT_TEST = 0xf0"

lemma pg_code_inj: "pg_code a = pg_code b \<longleftrightarrow> a = b"
  by (cases a; cases b) simp_all

instantiation pg_state :: linorder
begin

definition less_eq_pg_state :: "pg_state \<Rightarrow> pg_state \<Rightarrow> bool" where
  "less_eq_pg_state a b \<longleftrightarrow> pg_code a \<le> pg_code b"

definition less_pg_state :: "pg_state \<Rightarrow> pg_state \<Rightarrow> bool" where
  "less_pg_state a b \<longleftrightarrow> pg_code a < pg_code b"

instance
  by standard (auto simp: less_eq_pg_state_def less_pg_state_def pg_code_inj)

end

text \<open>Calls of the display and of the LED; a test failure shows text made from its arguments.\<close>

datatype ui_event =
    Ui_init
  | Ui_erase nat
  | Ui_program nat
  | Ui_test nat nat
  | Ui_done
  | Ui_current
  | Ui_error string string
  | Ui_test_error nat nat u32 string
  | Ui_test_ret_error u32 string u32
  | Ui_led nat nat nat

record 'w flasher =
  fl_written_len :: u32
  fl_backend :: "target_family option"
  fl_state :: pg_state
  fl_failed_state :: pg_state
  fl_ui :: "ui_event list"
  fl_world :: 'w

record 'w run_env =
  ru_lib :: lib_params
  ru_env :: asset_env
  ru_files :: fs
  ru_assets :: fw_assets
  ru_backend :: "target_family \<Rightarrow> 'w backend"
  ru_rtos :: "'w rtos"
  ru_sg_rig :: bool
  ru_current_test :: "'w \<Rightarrow> (esp_err \<times> 'w) option"

text \<open>\<open>fw_asset_manager::config()\<close>; \<open>None\<close> is excluded by the manager's invariant.\<close>

definition config :: "fw_assets \<Rightarrow> target_config" where
  "config a = (case am_cfg a of None \<Rightarrow> empty_config | Some cfg \<Rightarrow> cfg)"

definition ui :: "ui_event \<Rightarrow> 'w flasher \<Rightarrow> 'w flasher" where
  "ui e f = f\<lparr>fl_ui := fl_ui f @ [e]\<rparr>"

definition with_backend ::
  "'w run_env \<Rightarrow> 'w flasher \<Rightarrow> ('w backend \<Rightarrow> 'r option) \<Rightarrow> 'r option" where
  "with_backend ru f k = (case fl_backend f of None \<Rightarrow> None | Some fam \<Rightarrow> k (ru_backend ru fam))"

text \<open>\<open>if (backend != nullptr) backend->release_transport();\<close>\<close>

definition release_backend :: "'w run_env \<Rightarrow> 'w flasher \<Rightarrow> 'w flasher" where
  "release_backend ru f =
     (case fl_backend f of
        None \<Rightarrow> f
      | Some fam \<Rightarrow> f\<lparr>fl_world := snd (be_release_transport (ru_backend ru fam) (fl_world f))\<rparr>)"

section \<open>Handlers\<close>

definition fl_init :: "'w run_env \<Rightarrow> 'w flasher \<Rightarrow> 'w flasher" where
  "fl_init ru f = (release_backend ru f)\<lparr>fl_failed_state := DONE, fl_state := LOAD_ASSET\<rparr>"

definition select_backend :: "'w run_env \<Rightarrow> 'w flasher \<Rightarrow> 'w flasher" where
  "select_backend ru f =
     f\<lparr>fl_backend := Some (case cfg_family (config (ru_assets ru)) of
                              esp32_serial \<Rightarrow> esp32_serial | swd_cortex_m \<Rightarrow> swd_cortex_m)\<rparr>"

definition on_error :: "'w run_env \<Rightarrow> 'w flasher \<Rightarrow> 'w flasher" where
  "on_error ru f = ui (Ui_led 0x80 0 0) (release_backend ru f)"

definition on_erase :: "'w run_env \<Rightarrow> 'w flasher \<Rightarrow> 'w flasher option" where
  "on_erase ru f = with_backend ru f (\<lambda>be.
     let f = ui (Ui_erase 255) f in
     case be_erase be (fl_world f) of (ret, w) \<Rightarrow>
       let f = f\<lparr>fl_world := w\<rparr> in
       if ret = ESP_ERR_INVALID_STATE
       then Some ((ui (Ui_error ''CFG ERROR'' ''Flash address\<newline>not provided'') f)\<lparr>fl_state := ERROR\<rparr>)
       else if ret \<noteq> ESP_OK
       then Some ((ui (Ui_error ''ERROR'' ''Cannot erase target!\<newline>Please try again!'') f)\<lparr>fl_state := ERROR\<rparr>)
       else Some (f\<lparr>fl_state := PROGRAM\<rparr>))"

definition on_program :: "'w run_env \<Rightarrow> 'w flasher \<Rightarrow> 'w flasher option" where
  "on_program ru f = with_backend ru f (\<lambda>be.
     let f = ui (Ui_program 100) f in
     case be_program be (fl_written_len f) (fl_world f) of (ret, len, w) \<Rightarrow>
       let f = f\<lparr>fl_written_len := len, fl_world := w\<rparr> in
       if ret \<noteq> ESP_OK
       then Some ((ui (Ui_error ''ERROR'' ''Cannot program target!\<newline>Please try again!'') f)\<lparr>fl_state := ERROR\<rparr>)
       else Some (f\<lparr>fl_state := VERIFY\<rparr>))"

fun detect_loop ::
  "'w rtos \<Rightarrow> 'w backend \<Rightarrow> nat \<Rightarrow> esp_err \<times> 'w \<Rightarrow> esp_err \<times> nat \<times> 'w" where
  "detect_loop rt be 0 (ret, w) = (ret, 0, w)"
| "detect_loop rt be (Suc max_retry) (ret, w) =
     (if ret \<noteq> ESP_OK
      then detect_loop rt be max_retry (be_detect be (rt_delay rt (rt_ms_to_ticks rt 30) w))
      else (ret, Suc max_retry, w))"

definition on_detect :: "'w run_env \<Rightarrow> 'w flasher \<Rightarrow> 'w flasher option" where
  "on_detect ru f = with_backend ru f (\<lambda>be.
     let f = ui Ui_init f in
     case detect_loop (ru_rtos ru) be 10 (be_detect be (fl_world f)) of (ret, max_retry, w) \<Rightarrow>
       let f = f\<lparr>fl_world := w\<rparr> in
       if max_retry = 0 \<and> ret \<noteq> ESP_OK then Some (f\<lparr>fl_state := ERROR\<rparr>)
       else Some (f\<lparr>fl_state := ERASE\<rparr>))"

definition on_done :: "'w run_env \<Rightarrow> 'w flasher \<Rightarrow> 'w flasher" where
  "on_done ru f = ui Ui_done (ui (Ui_led 0 80 0) (release_backend ru f))"

definition on_verify :: "'w run_env \<Rightarrow> 'w flasher \<Rightarrow> 'w flasher option" where
  "on_verify ru f = with_backend ru f (\<lambda>be.
     let f = ui (Ui_program 100) (ui (Ui_led 0x68 0x26 0x99) f) in
     case be_verify be (fl_written_len f) (fl_world f) of (ret, w) \<Rightarrow>
       let f = f\<lparr>fl_world := w\<rparr> in
       if ret \<noteq> ESP_OK
       then Some ((ui (Ui_error ''ERROR'' ''Failed to verify\<newline>Please try again'') f)\<lparr>fl_state := ERROR\<rparr>)
       else Some (f\<lparr>fl_state := SELF_TEST\<rparr>))"

text \<open>\<open>backend->reset_target(); state = flasher::POST_PROGRAM;\<close>\<close>

definition end_self_test :: "'w backend \<Rightarrow> 'w flasher \<Rightarrow> 'w flasher" where
  "end_self_test be f = f\<lparr>fl_world := snd (be_reset_target be (fl_world f)), fl_state := POST_PROGRAM\<rparr>"

fun self_test_loop ::
  "'w backend \<Rightarrow> nat \<Rightarrow> nat \<Rightarrow> test_item list \<Rightarrow> 'w flasher \<Rightarrow> 'w flasher" where
  "self_test_loop be test_count idx [] f = end_self_test be f"
| "self_test_loop be test_count idx (item # items) f =
     (let f = ui (Ui_test idx (test_count - 1)) f in
      if ti_type item = INTERNAL_SIMPLE_TEST then
        case be_self_test be item UINT32_MAX (fl_world f) of (ret, func_ret, w) \<Rightarrow>
          let f = f\<lparr>fl_world := w\<rparr> in
          if ret = ESP_ERR_NOT_SUPPORTED then end_self_test be f
          else if ret \<noteq> ESP_OK
          then (ui (Ui_test_error (idx + 1) test_count (ti_addr item) (ti_name item)) f)\<lparr>fl_state := ERROR\<rparr>
          else if func_ret \<noteq> 0
          then (ui (Ui_test_ret_error (ti_addr item) (ti_name item) func_ret) f)\<lparr>fl_state := ERROR\<rparr>
          else self_test_loop be test_count (idx + 1) items f
      else self_test_loop be test_count (idx + 1) items f)"

definition on_self_test :: "'w run_env \<Rightarrow> 'w flasher \<Rightarrow> 'w flasher option" where
  "on_self_test ru f = with_backend ru f (\<lambda>be.
     let cfg = config (ru_assets ru) in
     Some (self_test_loop be (cfg_test_count cfg) 0 (used_tests cfg) (ui (Ui_led 0 0xb7 0xeb) f)))"

definition after_post :: "'w run_env \<Rightarrow> pg_state" where
  "after_post ru = (if \<not> ru_sg_rig ru then DONE else SG_CURRENT_TEST)"

definition on_post_program :: "'w run_env \<Rightarrow> 'w flasher \<Rightarrow> 'w flasher option" where
  "on_post_program ru f = with_backend ru f (\<lambda>be.
     case be_begin_session be (fl_world f) of (ret, w) \<Rightarrow>
       let f = f\<lparr>fl_world := w\<rparr> in
       if ret \<noteq> ESP_OK
       then Some ((ui (Ui_error ''ERROR'' ''Post-program fail'') f)\<lparr>fl_state := ERROR\<rparr>)
       else case post_program_steps (ru_assets ru) of
           None \<Rightarrow> Some (f\<lparr>fl_world := snd (be_release_transport be w), fl_state := after_post ru\<rparr>)
         | Some steps \<Rightarrow>
             (case execute (ru_rtos ru) be steps w of
                None \<Rightarrow> None
              | Some (ret, w) \<Rightarrow>
                  let f = f\<lparr>fl_world := w\<rparr> in
                  if ret \<noteq> ESP_OK
                  then Some ((ui (Ui_error ''ERROR'' ''Post-program fail'') f)\<lparr>fl_state := ERROR\<rparr>)
                  else Some (f\<lparr>fl_world := snd (be_release_transport be w), fl_state := after_post ru\<rparr>)))"

definition on_current_test :: "'w run_env \<Rightarrow> 'w flasher \<Rightarrow> 'w flasher option" where
  "on_current_test ru f = with_backend ru f (\<lambda>be.
     case ru_current_test ru (snd (be_release_transport be (fl_world f))) of
       None \<Rightarrow> None
     | Some (ret, w) \<Rightarrow>
       let f = f\<lparr>fl_world := w\<rparr> in
       if ret \<noteq> ESP_OK
       then Some ((ui (Ui_error ''ERROR'' ''Current sensor error'') f)\<lparr>fl_state := ERROR\<rparr>)
       else Some ((ui Ui_current f)\<lparr>fl_state := DONE,
              fl_world := rt_delay (ru_rtos ru) (rt_ms_to_ticks (ru_rtos ru) 10000) w\<rparr>))"

definition on_cancelled :: "'w run_env \<Rightarrow> 'w flasher \<Rightarrow> 'w flasher" where
  "on_cancelled ru f =
     ui (Ui_error ''CANCELLED'' ''Job cancelled'') (ui (Ui_led 0x80 0x80 0) (release_backend ru f))"

definition on_pre_program :: "'w run_env \<Rightarrow> 'w flasher \<Rightarrow> 'w flasher option" where
  "on_pre_program ru f = with_backend ru f (\<lambda>be.
     let f = ui (Ui_led 0 0xb7 0xeb) f in
     case be_begin_session be (fl_world f) of (ret, w) \<Rightarrow>
       let f = f\<lparr>fl_world := w\<rparr> in
       if ret \<noteq> ESP_OK
       then Some ((ui (Ui_error ''ERROR'' ''Pre-program fail'') f)\<lparr>fl_state := ERROR\<rparr>)
       else case pre_program_steps (ru_assets ru) of
           None \<Rightarrow> Some (f\<lparr>fl_state := DETECT\<rparr>)
         | Some steps \<Rightarrow>
             (case execute (ru_rtos ru) be steps w of
                None \<Rightarrow> None
              | Some (ret, w) \<Rightarrow>
                  let f = f\<lparr>fl_world := w\<rparr> in
                  if ret \<noteq> ESP_OK
                  then Some ((ui (Ui_error ''ERROR'' ''Pre-program fail'') f)\<lparr>fl_state := ERROR\<rparr>)
                  else Some (f\<lparr>fl_state := DETECT\<rparr>)))"

definition on_load_asset :: "'w run_env \<Rightarrow> 'w flasher \<Rightarrow> 'w flasher" where
  "on_load_asset ru f =
     (if am_job (ru_assets ru) = None
      then (ui (Ui_error ''ERROR'' ''No job\<newline>Please push a job to me!'') f)\<lparr>fl_state := ERROR\<rparr>
      else if verify_images (ru_lib ru) (ru_env ru) (ru_files ru) (ru_assets ru) \<noteq> ESP_OK
      then (ui (Ui_error ''ERROR'' ''Firmware mismatch\<newline>Please push the job again!'') f)\<lparr>fl_state := ERROR\<rparr>
      else (select_backend ru f)\<lparr>fl_state := PRE_PROGRAM\<rparr>)"

section \<open>The state machine\<close>

definition check_cancel :: "bool \<Rightarrow> 'w flasher \<Rightarrow> 'w flasher" where
  "check_cancel cancel_requested f =
     (let finished = fl_state f = ERROR \<or> fl_state f = DONE \<or> fl_state f = CANCELLED
      in if \<not> finished \<and> cancel_requested
         then f\<lparr>fl_failed_state := fl_state f, fl_state := CANCELLED\<rparr> else f)"

definition run_state :: "'w run_env \<Rightarrow> 'w flasher \<Rightarrow> (esp_err \<times> 'w flasher) option" where
  "run_state ru f =
     (case fl_state f of
        PRE_PROGRAM \<Rightarrow> map_option (Pair ESP_ERR_NOT_FINISHED) (on_pre_program ru f)
      | LOAD_ASSET \<Rightarrow> Some (ESP_ERR_NOT_FINISHED, on_load_asset ru f)
      | DETECT \<Rightarrow> map_option (Pair ESP_ERR_NOT_FINISHED) (on_detect ru f)
      | ERASE \<Rightarrow> map_option (Pair ESP_ERR_NOT_FINISHED) (on_erase ru f)
      | PROGRAM \<Rightarrow> map_option (Pair ESP_ERR_NOT_FINISHED) (on_program ru f)
      | ERROR \<Rightarrow> Some (ESP_FAIL, on_error ru f)
      | DONE \<Rightarrow> Some (ESP_OK, on_done ru f)
      | CANCELLED \<Rightarrow> Some (ESP_FAIL, on_cancelled ru f)
      | VERIFY \<Rightarrow> map_option (Pair ESP_ERR_NOT_FINISHED) (on_verify ru f)
      | POST_PROGRAM \<Rightarrow> map_option (Pair ESP_ERR_NOT_FINISHED) (on_post_program ru f)
      | SELF_TEST \<Rightarrow> map_option (Pair ESP_ERR_NOT_FINISHED) (on_self_test ru f)
      | SG_CURRENT_TEST \<Rightarrow> map_option (Pair ESP_ERR_NOT_FINISHED) (on_current_test ru f))"

definition handle_states ::
  "'w run_env \<Rightarrow> bool \<Rightarrow> 'w flasher \<Rightarrow> (esp_err \<times> 'w flasher) option" where
  "handle_states ru cancel_requested f =
     (let f = check_cancel cancel_requested f; current = fl_state f
      in map_option (\<lambda>(ret, f).
           (ret, if fl_state f = ERROR \<and> current \<noteq> ERROR then f\<lparr>fl_failed_state := current\<rparr> else f))
         (run_state ru f))"

definition tick :: "'w run_env \<Rightarrow> 'w flasher \<Rightarrow> 'w flasher" where
  "tick ru f = f\<lparr>fl_world := rt_delay (ru_rtos ru) 1 (fl_world f)\<rparr>"

text \<open>The loop of \<open>run_job\<close>; \<open>cancel n\<close> is the flag read by the \<open>n\<close>th call.\<close>

partial_function (option) run_loop ::
  "'w run_env \<Rightarrow> (nat \<Rightarrow> bool) \<Rightarrow> nat \<Rightarrow> 'w flasher \<Rightarrow> (esp_err \<times> 'w flasher) option" where
  "run_loop ru cancel n f =
     (case handle_states ru (cancel n) f of
        None \<Rightarrow> None
      | Some (ret, f) \<Rightarrow>
          if ret = ESP_ERR_NOT_FINISHED then run_loop ru cancel (Suc n) (tick ru f)
          else Some (ret, tick ru f))"

section \<open>What it means for a stage to pass\<close>

definition stages :: "'w run_env \<Rightarrow> pg_state list" where
  "stages ru = [LOAD_ASSET, PRE_PROGRAM, DETECT, ERASE, PROGRAM, VERIFY, SELF_TEST, POST_PROGRAM] @
     (if ru_sg_rig ru then [SG_CURRENT_TEST] else [])"

fun next_stage :: "'w run_env \<Rightarrow> pg_state \<Rightarrow> pg_state" where
  "next_stage ru LOAD_ASSET = PRE_PROGRAM"
| "next_stage ru PRE_PROGRAM = DETECT"
| "next_stage ru DETECT = ERASE"
| "next_stage ru ERASE = PROGRAM"
| "next_stage ru PROGRAM = VERIFY"
| "next_stage ru VERIFY = SELF_TEST"
| "next_stage ru SELF_TEST = POST_PROGRAM"
| "next_stage ru POST_PROGRAM = after_post ru"
| "next_stage ru SG_CURRENT_TEST = DONE"
| "next_stage ru s = s"

definition steps_passed ::
  "'w run_env \<Rightarrow> 'w backend \<Rightarrow> si_job_Procedure option \<Rightarrow> 'w \<Rightarrow> 'w \<Rightarrow> bool" where
  "steps_passed ru be steps w w' =
     (case steps of None \<Rightarrow> w' = w | Some ss \<Rightarrow> passed (ru_rtos ru) be ss w w')"

text \<open>
  Self tests pass when each simple test, up to the first unsupported one, returns \<open>ESP_OK\<close> and its
  function returns zero; the target is reset at the end.
\<close>

fun tests_pass :: "'w backend \<Rightarrow> test_item list \<Rightarrow> 'w \<Rightarrow> 'w \<Rightarrow> bool" where
  "tests_pass be [] w w' = (w' = snd (be_reset_target be w))"
| "tests_pass be (item # items) w w' =
     (if ti_type item = INTERNAL_SIMPLE_TEST then
        (case be_self_test be item UINT32_MAX w of (ret, func_ret, w1) \<Rightarrow>
           if ret = ESP_ERR_NOT_SUPPORTED then w' = snd (be_reset_target be w1)
           else ret = ESP_OK \<and> func_ret = 0 \<and> tests_pass be items w1 w')
      else tests_pass be items w w')"

text \<open>The worlds before each attempt to detect: the first, then after a delay of 30 ms.\<close>

fun detect_world :: "'w rtos \<Rightarrow> 'w backend \<Rightarrow> 'w \<Rightarrow> nat \<Rightarrow> 'w" where
  "detect_world rt be w 0 = w"
| "detect_world rt be w (Suc n) =
     rt_delay rt (rt_ms_to_ticks rt 30) (snd (be_detect be (detect_world rt be w n)))"

definition detected :: "'w rtos \<Rightarrow> 'w backend \<Rightarrow> 'w \<Rightarrow> 'w \<Rightarrow> bool" where
  "detected rt be w w' \<longleftrightarrow>
     (\<exists>n \<le> 10. be_detect be (detect_world rt be w n) = (ESP_OK, w') \<and>
        (\<forall>m < n. fst (be_detect be (detect_world rt be w m)) \<noteq> ESP_OK))"

text \<open>The effect of one stage that passes, in terms of the backend's operations.\<close>

definition stage_passed :: "'w run_env \<Rightarrow> pg_state \<Rightarrow> 'w flasher \<Rightarrow> 'w flasher \<Rightarrow> bool" where
  "stage_passed ru s f f' \<longleftrightarrow>
     fl_state f = s \<and> fl_state f' = next_stage ru s \<and> fl_failed_state f' = fl_failed_state f \<and>
     fl_backend f' \<noteq> None \<and>
     (let be = ru_backend ru (the (fl_backend f')); w = fl_world f; w' = fl_world f' in
      (s \<noteq> LOAD_ASSET \<longrightarrow> fl_backend f' = fl_backend f) \<and>
      (s \<noteq> PROGRAM \<longrightarrow> fl_written_len f' = fl_written_len f) \<and>
      (case s of
         LOAD_ASSET \<Rightarrow> am_job (ru_assets ru) \<noteq> None \<and>
           verify_images (ru_lib ru) (ru_env ru) (ru_files ru) (ru_assets ru) = ESP_OK \<and>
           fl_backend f' = Some (cfg_family (config (ru_assets ru))) \<and> w' = w
       | PRE_PROGRAM \<Rightarrow> \<exists>w1. be_begin_session be w = (ESP_OK, w1) \<and>
           steps_passed ru be (pre_program_steps (ru_assets ru)) w1 w'
       | DETECT \<Rightarrow> detected (ru_rtos ru) be w w'
       | ERASE \<Rightarrow> be_erase be w = (ESP_OK, w')
       | PROGRAM \<Rightarrow> be_program be (fl_written_len f) w = (ESP_OK, fl_written_len f', w')
       | VERIFY \<Rightarrow> be_verify be (fl_written_len f) w = (ESP_OK, w')
       | SELF_TEST \<Rightarrow> tests_pass be (used_tests (config (ru_assets ru))) w w'
       | POST_PROGRAM \<Rightarrow> \<exists>w1 w2. be_begin_session be w = (ESP_OK, w1) \<and>
           steps_passed ru be (post_program_steps (ru_assets ru)) w1 w2 \<and>
           w' = snd (be_release_transport be w2)
       | SG_CURRENT_TEST \<Rightarrow> \<exists>w1. ru_current_test ru (snd (be_release_transport be w)) = Some (ESP_OK, w1) \<and>
           w' = rt_delay (ru_rtos ru) (rt_ms_to_ticks (ru_rtos ru) 10000) w1
       | _ \<Rightarrow> False))"

lemma ui_simps [simp]:
  "fl_state (ui e f) = fl_state f" "fl_backend (ui e f) = fl_backend f"
  "fl_world (ui e f) = fl_world f" "fl_written_len (ui e f) = fl_written_len f"
  "fl_failed_state (ui e f) = fl_failed_state f"
  by (simp_all add: ui_def)

lemma release_backend_simps [simp]:
  "fl_state (release_backend ru f) = fl_state f" "fl_backend (release_backend ru f) = fl_backend f"
  "fl_failed_state (release_backend ru f) = fl_failed_state f"
  "fl_written_len (release_backend ru f) = fl_written_len f"
  by (simp_all add: release_backend_def split: option.splits)

lemma tick_simps [simp]:
  "fl_state (tick ru f) = fl_state f" "fl_backend (tick ru f) = fl_backend f"
  "fl_failed_state (tick ru f) = fl_failed_state f"
  "fl_written_len (tick ru f) = fl_written_len f"
  "fl_world (tick ru f) = rt_delay (ru_rtos ru) 1 (fl_world f)"
  by (simp_all add: tick_def)

lemma detect_loop_result:
  assumes "detect_loop rt be n (be_detect be (detect_world rt be w k)) = (ret, left, w')"
    and "\<forall>m < k. fst (be_detect be (detect_world rt be w m)) \<noteq> ESP_OK"
  shows "(ret = ESP_OK \<and> (\<exists>j \<le> k + n. be_detect be (detect_world rt be w j) = (ESP_OK, w') \<and>
       (\<forall>m < j. fst (be_detect be (detect_world rt be w m)) \<noteq> ESP_OK))) \<or>
     (ret \<noteq> ESP_OK \<and> left = 0 \<and> (\<forall>j \<le> k + n. fst (be_detect be (detect_world rt be w j)) \<noteq> ESP_OK))"
  using assms
proof (induction n arbitrary: k)
  case 0
  then show ?case
    by (cases "be_detect be (detect_world rt be w k)") (auto simp: order_le_less)
next
  case (Suc n)
  obtain r w1 where d: "be_detect be (detect_world rt be w k) = (r, w1)" by fastforce
  show ?case
  proof (cases "r = ESP_OK")
    case True
    with d Suc.prems show ?thesis by (intro disjI1 conjI exI [of _ k]) auto
  next
    case False
    with d Suc.prems(1)
    have "detect_loop rt be n (be_detect be (detect_world rt be w (Suc k))) = (ret, left, w')" by simp
    moreover have "\<forall>m < Suc k. fst (be_detect be (detect_world rt be w m)) \<noteq> ESP_OK"
      using Suc.prems(2) d False by (auto simp: less_Suc_eq)
    ultimately show ?thesis using Suc.IH [of "Suc k"] by simp
  qed
qed

lemma self_test_loop_result:
  "(fl_state (self_test_loop be n idx items f) = POST_PROGRAM \<and>
      tests_pass be items (fl_world f) (fl_world (self_test_loop be n idx items f)) \<or>
    fl_state (self_test_loop be n idx items f) = ERROR \<and> (\<forall>w'. \<not> tests_pass be items (fl_world f) w')) \<and>
   fl_backend (self_test_loop be n idx items f) = fl_backend f \<and>
   fl_failed_state (self_test_loop be n idx items f) = fl_failed_state f \<and>
   fl_written_len (self_test_loop be n idx items f) = fl_written_len f"
proof (induction items arbitrary: idx f)
  case (Cons item items)
  show ?case
    using Cons.IH [of "idx + 1" "(ui (Ui_test idx (n - 1)) f)\<lparr>fl_world :=
        snd (snd (be_self_test be item UINT32_MAX (fl_world f)))\<rparr>"]
      Cons.IH [of "idx + 1" "ui (Ui_test idx (n - 1)) f"]
    by (auto simp: Let_def end_self_test_def split: prod.splits)
qed (simp add: end_self_test_def)

section \<open>One step\<close>

text \<open>
  Two things that a run waits for come to an end: the clock that the poll steps read advances, with the backend of
  either family, and the current test returns. The first is about the hardware. The second is about code of this
  program, a parameter here; \<open>Device.device_clock\<close> proves both for the device from its clock alone.
\<close>

definition clocks_advance :: "'w run_env \<Rightarrow> bool" where
  "clocks_advance ru \<longleftrightarrow> (\<forall>fam. clock_advances (ru_rtos ru) (ru_backend ru fam)) \<and> (\<forall>w. ru_current_test ru w \<noteq> None)"

definition is_stage :: "'w run_env \<Rightarrow> pg_state \<Rightarrow> bool" where
  "is_stage ru s \<longleftrightarrow> s \<in> set (stages ru)"

text \<open>In every stage after the first, a backend has been selected.\<close>

definition fl_inv :: "'w flasher \<Rightarrow> bool" where
  "fl_inv f \<longleftrightarrow> fl_state f = LOAD_ASSET \<or> fl_backend f \<noteq> None"

lemma is_stage_cases:
  assumes "is_stage ru s"
  obtains "s = LOAD_ASSET" | "s = PRE_PROGRAM" | "s = DETECT" | "s = ERASE" | "s = PROGRAM"
  | "s = VERIFY" | "s = SELF_TEST" | "s = POST_PROGRAM" | "s = SG_CURRENT_TEST" "ru_sg_rig ru"
  using assms by (auto simp: is_stage_def stages_def split: if_splits)

text \<open>The outcome of a stage's handler: the stage has passed, or it could not and the machine is in \<open>ERROR\<close>.\<close>

definition stage_outcome :: "'w run_env \<Rightarrow> 'w flasher \<Rightarrow> 'w flasher \<Rightarrow> bool" where
  "stage_outcome ru f f' \<longleftrightarrow>
     stage_passed ru (fl_state f) f f' \<or>
     (fl_state f' = ERROR \<and> fl_failed_state f' = fl_failed_state f \<and>
      (\<forall>f1. \<not> stage_passed ru (fl_state f) f f1))"

lemmas handler_defs = with_backend_def stage_outcome_def stage_passed_def Let_def

lemma load_asset_outcome:
  "fl_state f = LOAD_ASSET \<Longrightarrow> stage_outcome ru f (on_load_asset ru f)"
  by (auto simp: on_load_asset_def select_backend_def handler_defs split: target_family.splits)

lemma execute_steps_passed:
  "execute (ru_rtos ru) be ss w = Some (r, w') \<Longrightarrow>
     (if r = ESP_OK then steps_passed ru be (Some ss) w w' else \<forall>w1. \<not> steps_passed ru be (Some ss) w w1)"
  using execute_cases [of "ru_rtos ru" be ss w r w'] passed_execute [of "ru_rtos ru" be ss w]
  by (auto simp: steps_passed_def)

lemma pre_program_outcome:
  assumes "fl_state f = PRE_PROGRAM" "fl_backend f = Some fam" and clk: "clocks_advance ru"
  shows "\<exists>f'. on_pre_program ru f = Some f' \<and> stage_outcome ru f f'"
proof -
  let ?be = "ru_backend ru fam"
  obtain r w where b: "be_begin_session ?be (fl_world f) = (r, w)" by fastforce
  show ?thesis
  proof (cases "pre_program_steps (ru_assets ru)")
    case None
    with assms b show ?thesis by (auto simp: on_pre_program_def handler_defs steps_passed_def)
  next
    case (Some ss)
    obtain r' w' where "execute (ru_rtos ru) ?be ss w = Some (r', w')"
      using execute_returns clk unfolding clocks_advance_def by metis
    with assms b Some execute_steps_passed [of ru ?be ss w r' w'] show ?thesis
      by (auto simp: on_pre_program_def handler_defs)
  qed
qed

lemma post_program_outcome:
  assumes "fl_state f = POST_PROGRAM" "fl_backend f = Some fam" and clk: "clocks_advance ru"
  shows "\<exists>f'. on_post_program ru f = Some f' \<and> stage_outcome ru f f'"
proof -
  let ?be = "ru_backend ru fam"
  obtain r w where b: "be_begin_session ?be (fl_world f) = (r, w)" by fastforce
  show ?thesis
  proof (cases "post_program_steps (ru_assets ru)")
    case None
    with assms b show ?thesis by (auto simp: on_post_program_def handler_defs steps_passed_def)
  next
    case (Some ss)
    obtain r' w' where "execute (ru_rtos ru) ?be ss w = Some (r', w')"
      using execute_returns clk unfolding clocks_advance_def by metis
    with assms b Some execute_steps_passed [of ru ?be ss w r' w'] show ?thesis
      by (auto simp: on_post_program_def handler_defs)
  qed
qed

lemma detect_outcome:
  assumes "fl_state f = DETECT" "fl_backend f = Some fam"
  shows "\<exists>f'. on_detect ru f = Some f' \<and> stage_outcome ru f f'"
proof -
  let ?be = "ru_backend ru fam"
  obtain ret left w' where d: "detect_loop (ru_rtos ru) ?be 10 (be_detect ?be (fl_world f)) = (ret, left, w')"
    by (metis surj_pair)
  with detect_loop_result [of "ru_rtos ru" ?be 10 "fl_world f" 0 ret left w'] assms show ?thesis
    by (auto simp: on_detect_def handler_defs detected_def)
qed

lemma erase_outcome:
  "fl_state f = ERASE \<Longrightarrow> fl_backend f = Some fam \<Longrightarrow>
     \<exists>f'. on_erase ru f = Some f' \<and> stage_outcome ru f f'"
  by (auto simp: on_erase_def handler_defs split: prod.splits)

lemma program_outcome:
  "fl_state f = PROGRAM \<Longrightarrow> fl_backend f = Some fam \<Longrightarrow>
     \<exists>f'. on_program ru f = Some f' \<and> stage_outcome ru f f'"
  by (auto simp: on_program_def handler_defs split: prod.splits)

lemma verify_outcome:
  "fl_state f = VERIFY \<Longrightarrow> fl_backend f = Some fam \<Longrightarrow>
     \<exists>f'. on_verify ru f = Some f' \<and> stage_outcome ru f f'"
  by (auto simp: on_verify_def handler_defs split: prod.splits)

lemma self_test_outcome:
  "fl_state f = SELF_TEST \<Longrightarrow> fl_backend f = Some fam \<Longrightarrow>
     \<exists>f'. on_self_test ru f = Some f' \<and> stage_outcome ru f f'"
  using self_test_loop_result [of "ru_backend ru fam" "cfg_test_count (config (ru_assets ru))" 0
      "used_tests (config (ru_assets ru))" "ui (Ui_led 0 183 235) f"]
  by (auto simp: on_self_test_def handler_defs)

lemma current_test_outcome:
  assumes "fl_state f = SG_CURRENT_TEST" and "fl_backend f = Some fam" and "clocks_advance ru"
  shows "\<exists>f'. on_current_test ru f = Some f' \<and> stage_outcome ru f f'"
proof -
  obtain ret w where "ru_current_test ru (snd (be_release_transport (ru_backend ru fam) (fl_world f))) = Some (ret, w)"
    using assms(3) by (fastforce simp: clocks_advance_def)
  with assms(1,2) show ?thesis by (simp add: on_current_test_def handler_defs)
qed

lemma run_state_stage:
  assumes st: "is_stage ru (fl_state f)" and inv: "fl_inv f" and clk: "clocks_advance ru"
  shows "\<exists>f'. run_state ru f = Some (ESP_ERR_NOT_FINISHED, f') \<and> stage_outcome ru f f'"
proof -
  have be: "\<exists>fam. fl_backend f = Some fam" if "fl_state f \<noteq> LOAD_ASSET"
    using inv that by (auto simp: fl_inv_def)
  show ?thesis
  proof (cases rule: is_stage_cases [OF st])
    case 1
    then show ?thesis using load_asset_outcome [of f ru] by (simp add: run_state_def)
  next
    case 2
    with be pre_program_outcome [OF 2 _ clk] show ?thesis by (auto simp: run_state_def)
  next
    case 3
    with be detect_outcome [OF 3] show ?thesis by (auto simp: run_state_def)
  next
    case 4
    with be erase_outcome [OF 4] show ?thesis by (fastforce simp: run_state_def)
  next
    case 5
    with be program_outcome [OF 5] show ?thesis by (fastforce simp: run_state_def)
  next
    case 6
    with be verify_outcome [OF 6] show ?thesis by (fastforce simp: run_state_def)
  next
    case 7
    with be self_test_outcome [OF 7] show ?thesis by (fastforce simp: run_state_def)
  next
    case 8
    with be post_program_outcome [OF 8 _ clk] show ?thesis by (auto simp: run_state_def)
  next
    case 9
    with be current_test_outcome [OF 9(1) _ clk] show ?thesis by (fastforce simp: run_state_def)
  qed
qed

section \<open>A whole run\<close>

text \<open>Stages that passed one after another, with the delay of one tick after each.\<close>

inductive run_chain :: "'w run_env \<Rightarrow> pg_state list \<Rightarrow> 'w flasher \<Rightarrow> 'w flasher \<Rightarrow> bool"
  for ru :: "'w run_env" where
  run_chain_Nil: "run_chain ru [] f f"
| run_chain_Cons: "stage_passed ru s f f1 \<Longrightarrow> run_chain ru ss (tick ru f1) f2 \<Longrightarrow>
     run_chain ru (s # ss) f f2"

inductive_simps run_chain_simps:
  "run_chain ru [] f f'"
  "run_chain ru (s # ss) f f'"

definition released :: "'w run_env \<Rightarrow> 'w flasher \<Rightarrow> bool" where
  "released ru f \<longleftrightarrow>
     (\<forall>fam. fl_backend f = Some fam \<longrightarrow>
        (\<exists>w. fl_world f = rt_delay (ru_rtos ru) 1 (snd (be_release_transport (ru_backend ru fam) w))))"

fun linked :: "'w run_env \<Rightarrow> pg_state list \<Rightarrow> bool" where
  "linked ru [] = True"
| "linked ru [s] = (next_stage ru s = DONE)"
| "linked ru (s # t # ss) = (next_stage ru s = t \<and> linked ru (t # ss))"

lemma linked_stages: "linked ru (stages ru)" "list_all (is_stage ru) (stages ru)"
  by (auto simp: stages_def after_post_def is_stage_def list_all_iff)

text \<open>The stages of a run follow each other in the order of the enum, so that none is entered twice.\<close>

lemma stages_ascend: "sorted_wrt (<) (stages ru)"
  by (simp add: stages_def less_pg_state_def)

lemma stages_distinct: "distinct (stages ru)"
  using stages_ascend strict_sorted_iff by blast

lemma is_stage_not_final:
  "is_stage ru s \<Longrightarrow> s \<noteq> ERROR \<and> s \<noteq> DONE \<and> s \<noteq> CANCELLED"
  by (auto simp: is_stage_def stages_def split: if_splits)

lemma next_stage_not_error: "is_stage ru s \<Longrightarrow> next_stage ru s \<noteq> ERROR"
  by (erule is_stage_cases) (simp_all add: after_post_def)

lemma released_tick: "released ru (tick ru (release_backend ru f))"
  by (cases "fl_backend f") (auto simp: released_def tick_def release_backend_def)

lemma released_ui: "released ru (tick ru (ui e f)) = released ru (tick ru f)"
  by (simp add: released_def tick_def)

lemmas final_released = on_error_def on_done_def on_cancelled_def released_ui released_tick

lemma run_loop_error:
  assumes "fl_state f = ERROR"
  shows "\<exists>f'. run_loop ru cancel n f = Some (ESP_FAIL, f') \<and> released ru f' \<and>
     fl_failed_state f' = fl_failed_state f"
  using assms
  by (subst run_loop.simps)
    (simp add: handle_states_def check_cancel_def run_state_def final_released)

lemma run_loop_done:
  assumes "fl_state f = DONE"
  shows "\<exists>f'. run_loop ru cancel n f = Some (ESP_OK, f') \<and> released ru f' \<and>
     fl_failed_state f' = fl_failed_state f"
  using assms
  by (subst run_loop.simps)
    (simp add: handle_states_def check_cancel_def run_state_def final_released)

lemma run_loop_cancelled:
  assumes "is_stage ru (fl_state f)" and "cancel n"
  shows "\<exists>f'. run_loop ru cancel n f = Some (ESP_FAIL, f') \<and> released ru f' \<and>
     fl_failed_state f' = fl_state f"
  using assms is_stage_not_final [OF assms(1)]
  by (subst run_loop.simps)
    (simp add: handle_states_def check_cancel_def run_state_def final_released)

lemma run_loop_stage:
  assumes "is_stage ru (fl_state f)" and "fl_inv f" and "clocks_advance ru" and "\<not> cancel n"
  shows "(\<exists>f1. stage_passed ru (fl_state f) f f1 \<and>
        run_loop ru cancel n f = run_loop ru cancel (Suc n) (tick ru f1)) \<or>
     ((\<forall>f1. \<not> stage_passed ru (fl_state f) f f1) \<and>
      (\<exists>f'. run_loop ru cancel n f = Some (ESP_FAIL, f') \<and> released ru f' \<and>
        fl_failed_state f' = fl_state f))"
proof -
  obtain f1 where rs: "run_state ru f = Some (ESP_ERR_NOT_FINISHED, f1)" and out: "stage_outcome ru f f1"
    using run_state_stage [OF assms(1-3)] by blast
  have ne: "fl_state f \<noteq> ERROR" using is_stage_not_final [OF assms(1)] by simp
  have h: "handle_states ru (cancel n) f = Some (ESP_ERR_NOT_FINISHED,
      if fl_state f1 = ERROR then f1\<lparr>fl_failed_state := fl_state f\<rparr> else f1)"
    using rs assms(4) ne by (simp add: handle_states_def check_cancel_def)
  show ?thesis
  proof (cases "stage_passed ru (fl_state f) f f1")
    case True
    then have "fl_state f1 \<noteq> ERROR"
      using next_stage_not_error [OF assms(1)] by (simp add: stage_passed_def)
    with h True show ?thesis by (intro disjI1 exI [of _ f1]) (simp add: run_loop.simps [of ru cancel n f])
  next
    case False
    with out have bad: "fl_state f1 = ERROR" "\<forall>f1. \<not> stage_passed ru (fl_state f) f f1"
      by (auto simp: stage_outcome_def)
    let ?f = "tick ru (f1\<lparr>fl_failed_state := fl_state f\<rparr>)"
    from run_loop_error [of ?f ru cancel "Suc n"] bad(1)
    obtain f' where "run_loop ru cancel (Suc n) ?f = Some (ESP_FAIL, f')" "released ru f'"
        "fl_failed_state f' = fl_state f"
      by auto
    with h bad show ?thesis by (simp add: run_loop.simps [of ru cancel n f])
  qed
qed

text \<open>How a run that is about to enter the first of the stages \<open>todo\<close> ends.\<close>

definition run_ends ::
  "'w run_env \<Rightarrow> (nat \<Rightarrow> bool) \<Rightarrow> nat \<Rightarrow> pg_state list \<Rightarrow> 'w flasher \<Rightarrow> esp_err \<Rightarrow> 'w flasher \<Rightarrow> bool" where
  "run_ends ru cancel n todo f ret f' \<longleftrightarrow>
     (\<exists>before rest fd. todo = before @ rest \<and> run_chain ru before f fd \<and> released ru f' \<and>
        (case rest of
           [] \<Rightarrow> ret = ESP_OK \<and> fl_failed_state f' = DONE
         | s # _ \<Rightarrow> ret = ESP_FAIL \<and> fl_failed_state f' = s \<and>
             (cancel (n + length before) \<or> (\<forall>f1. \<not> stage_passed ru s fd f1))))"

lemma run_ends_failed:
  assumes "run_ends ru cancel n todo f ret f'" and "DONE \<notin> set todo"
  shows "(ret = ESP_OK \<longleftrightarrow> fl_failed_state f' = DONE) \<and> (ret = ESP_OK \<or> ret = ESP_FAIL)"
proof -
  from assms(1) obtain before rest where "todo = before @ rest"
      "case rest of [] \<Rightarrow> ret = ESP_OK \<and> fl_failed_state f' = DONE
        | s # _ \<Rightarrow> ret = ESP_FAIL \<and> fl_failed_state f' = s"
    unfolding run_ends_def by (force split: list.splits)
  with assms(2) show ?thesis by (cases rest) auto
qed

lemma run_ends_Cons:
  assumes "stage_passed ru s f f1" and "run_ends ru cancel (Suc n) todo (tick ru f1) ret f'"
  shows "run_ends ru cancel n (s # todo) f ret f'"
proof -
  from assms(2) obtain before rest fd where r: "todo = before @ rest" "run_chain ru before (tick ru f1) fd"
      "released ru f'"
      "case rest of [] \<Rightarrow> ret = ESP_OK \<and> fl_failed_state f' = DONE
        | s # _ \<Rightarrow> ret = ESP_FAIL \<and> fl_failed_state f' = s \<and>
             (cancel (Suc n + length before) \<or> (\<forall>f1. \<not> stage_passed ru s fd f1))"
    unfolding run_ends_def by blast
  have "run_chain ru (s # before) f fd" using assms(1) r(2) by (rule run_chain_Cons)
  note chain = this
  show ?thesis
    unfolding run_ends_def
    by (rule exI [of _ "s # before"], rule exI [of _ rest], rule exI [of _ fd])
      (use r chain in \<open>simp split: list.splits\<close>)
qed

lemma run_loop_ends:
  assumes "clocks_advance ru" and "linked ru todo" and "list_all (is_stage ru) todo"
    and "fl_state f = (case todo of [] \<Rightarrow> DONE | s # _ \<Rightarrow> s)" and "fl_inv f" and "fl_failed_state f = DONE"
  shows "\<exists>ret f'. run_loop ru cancel n f = Some (ret, f') \<and> run_ends ru cancel n todo f ret f'"
  using assms(2-6)
proof (induction todo arbitrary: n f)
  case Nil
  then show ?case
    using run_loop_done [of f ru cancel n] by (auto simp: run_ends_def intro: run_chain_Nil)
next
  case (Cons s todo)
  then have st: "fl_state f = s" "is_stage ru (fl_state f)" by auto
  have stop: ?case if stopped: "\<exists>f'. run_loop ru cancel n f = Some (ESP_FAIL, f') \<and> released ru f' \<and>
      fl_failed_state f' = fl_state f"
      and why: "cancel n \<or> (\<forall>f1. \<not> stage_passed ru (fl_state f) f f1)"
  proof -
    obtain f' where f': "run_loop ru cancel n f = Some (ESP_FAIL, f')" "released ru f'"
        "fl_failed_state f' = s" using stopped st(1) by auto
    have "run_ends ru cancel n (s # todo) f ESP_FAIL f'"
      unfolding run_ends_def
      by (rule exI [of _ "[]"], rule exI [of _ "s # todo"], rule exI [of _ f])
        (use f' why st(1) in \<open>simp add: run_chain_Nil\<close>)
    with f'(1) show ?thesis by blast
  qed
  show ?case
  proof (cases "cancel n")
    case True
    with run_loop_cancelled [OF st(2), of cancel n] show ?thesis by (intro stop) auto
  next
    case False
    from run_loop_stage [OF st(2) Cons.prems(4) assms(1), of cancel n, OF False] show ?thesis
    proof (elim disjE exE conjE)
      fix f1 assume p: "stage_passed ru (fl_state f) f f1"
        and rec: "run_loop ru cancel n f = run_loop ru cancel (Suc n) (tick ru f1)"
      have "\<exists>ret f'. run_loop ru cancel (Suc n) (tick ru f1) = Some (ret, f') \<and>
          run_ends ru cancel (Suc n) todo (tick ru f1) ret f'"
        by (rule Cons.IH)
          (use Cons.prems p st in \<open>cases todo; auto simp: stage_passed_def fl_inv_def\<close>)+
      with rec p st(1) run_ends_Cons [of ru s f f1 cancel n todo] show ?thesis by auto
    next
      fix f' assume "\<forall>f1. \<not> stage_passed ru (fl_state f) f f1"
        "run_loop ru cancel n f = Some (ESP_FAIL, f')" "released ru f'" "fl_failed_state f' = fl_state f"
      then show ?thesis by (intro stop) auto
    qed
  qed
qed

lemma run_chain_append:
  "run_chain ru (a @ b) f f'' \<longleftrightarrow> (\<exists>f'. run_chain ru a f f' \<and> run_chain ru b f' f'')"
  by (induction a arbitrary: f) (auto simp: run_chain_simps)

lemma run_chain_backend:
  assumes "run_chain ru ss f f'" and "LOAD_ASSET \<notin> set ss"
  shows "fl_backend f' = fl_backend f"
  using assms by (induction rule: run_chain.induct) (auto simp: stage_passed_def Let_def)

lemma run_chain_programmed:
  assumes "run_chain ru (LOAD_ASSET # before @ PROGRAM # VERIFY # after) f f'" and "LOAD_ASSET \<notin> set before"
  shows "verify_images (ru_lib ru) (ru_env ru) (ru_files ru) (ru_assets ru) = ESP_OK \<and>
     (let be = ru_backend ru (cfg_family (config (ru_assets ru))) in
      \<exists>l w n w1 w2. be_program be l w = (ESP_OK, n, w1) \<and>
        be_verify be n (rt_delay (ru_rtos ru) 1 w1) = (ESP_OK, w2))"
proof -
  obtain f1 where load: "stage_passed ru LOAD_ASSET f f1"
      and rest: "run_chain ru (before @ PROGRAM # VERIFY # after) (tick ru f1) f'"
    using assms(1) by (auto simp: run_chain_simps)
  then obtain f2 f3 f4 where mid: "run_chain ru before (tick ru f1) f2"
      and prog: "stage_passed ru PROGRAM f2 f3" and ver: "stage_passed ru VERIFY (tick ru f3) f4"
    by (auto simp: run_chain_append run_chain_simps)
  have be: "fl_backend f2 = Some (cfg_family (config (ru_assets ru)))"
    using load run_chain_backend [OF mid assms(2)] by (simp add: stage_passed_def Let_def)
  show ?thesis
    using load prog ver be by (fastforce simp: stage_passed_def Let_def)
qed

lemma fl_init_start: "fl_state (fl_init ru f) = LOAD_ASSET" "fl_inv (fl_init ru f)"
  "fl_failed_state (fl_init ru f) = DONE"
  by (simp_all add: fl_init_def fl_inv_def)

lemma run_from_init:
  assumes "clocks_advance ru"
  shows "\<exists>ret f'. run_loop ru cancel 0 (fl_init ru f) = Some (ret, f') \<and>
     run_ends ru cancel 0 (stages ru) (fl_init ru f) ret f'"
  by (rule run_loop_ends [OF assms linked_stages])
    (simp_all add: fl_init_start stages_def)

section \<open>Properties\<close>

text \<open>
  Every run ends, whatever the backend answers and whenever a cancel arrives, without
  touching a backend that was not selected. It ends with \<open>ESP_OK\<close> after all stages passed in order,
  with \<open>DONE\<close> as the failed state; or with \<open>ESP_FAIL\<close> naming the first stage that did not pass or
  was about to run when the cancel was seen. Either way the transport has been released last.
\<close>

theorem run_outcome:
  assumes "clocks_advance ru"
  shows "\<exists>ret f'. run_loop ru cancel 0 (fl_init ru f) = Some (ret, f') \<and>
     (\<exists>before rest fd. stages ru = before @ rest \<and> run_chain ru before (fl_init ru f) fd \<and> released ru f' \<and>
        (case rest of
           [] \<Rightarrow> ret = ESP_OK \<and> fl_failed_state f' = DONE
         | s # _ \<Rightarrow> ret = ESP_FAIL \<and> fl_failed_state f' = s \<and>
             (cancel (length before) \<or> (\<forall>f1. \<not> stage_passed ru s fd f1))))"
  using run_from_init [OF assms, of cancel f] unfolding run_ends_def add_0 .

text \<open>
  A run that passes has checked the images against the hashes the job pins, has programmed
  the target of the job's family, and has verified exactly the length that programming reported.
\<close>

theorem passed_run_is_verified:
  assumes "clocks_advance ru" and "run_loop ru cancel 0 (fl_init ru f) = Some (ESP_OK, f')"
  shows "verify_images (ru_lib ru) (ru_env ru) (ru_files ru) (ru_assets ru) = ESP_OK \<and>
     (let be = ru_backend ru (cfg_family (config (ru_assets ru))) in
      \<exists>l w n w1 w2. be_program be l w = (ESP_OK, n, w1) \<and>
        be_verify be n (rt_delay (ru_rtos ru) 1 w1) = (ESP_OK, w2))"
proof -
  from run_from_init [OF assms(1), of cancel f] assms(2)
  have "run_ends ru cancel 0 (stages ru) (fl_init ru f) ESP_OK f'" by simp
  then obtain before rest fd where "stages ru = before @ rest" "run_chain ru before (fl_init ru f) fd"
      "case rest of [] \<Rightarrow> True | _ \<Rightarrow> False"
    unfolding run_ends_def by (force split: list.splits)
  then have "run_chain ru (stages ru) (fl_init ru f) fd" by (cases rest) auto
  with run_chain_programmed [of ru "[PRE_PROGRAM, DETECT, ERASE]"
      "[SELF_TEST, POST_PROGRAM] @ (if ru_sg_rig ru then [SG_CURRENT_TEST] else [])"]
  show ?thesis by (simp add: stages_def)
qed

section \<open>A concrete run\<close>

definition sample_run :: "int run_env" where
  "sample_run = \<lparr>ru_lib = sample_lib, ru_env = sample_asset_env, ru_files = [FIRMWARE_PATH \<mapsto> [8]],
     ru_assets = \<lparr>am_cfg = Some empty_config, am_job = Some sample_job, am_algo_bin = Some [1, 2, 3, 4],
                  am_sha256 = [7], am_live = 2\<rparr>,
     ru_backend = (\<lambda>_. tick_backend), ru_rtos = tick_rtos, ru_sg_rig = False,
     ru_current_test = Some \<circ> Pair ESP_OK\<rparr>"

definition sample_flasher :: "int flasher" where
  "sample_flasher = \<lparr>fl_written_len = 0, fl_backend = None, fl_state = DETECT, fl_failed_state = DONE,
     fl_ui = [], fl_world = 0\<rparr>"

lemma sample_run_clock: "clocks_advance sample_run"
  using tick_clock by (simp add: clocks_advance_def sample_run_def)

lemma sample_run_images:
  "verify_images sample_lib sample_asset_env [FIRMWARE_PATH \<mapsto> [8]] (ru_assets sample_run) = ESP_OK"
  by (simp add: verify_images_def sample_run_def verify_job_images_OK sample_pins verify_image_OK
      hash_file_Inr sample_asset_env_def sample_io_def sample_lib_def)

lemma sample_run_passes:
  "\<exists>f'. run_loop sample_run (\<lambda>_. False) 0 (fl_init sample_run sample_flasher) = Some (ESP_OK, f')"
  using sample_run_images
  by (simp add: run_loop.simps handle_states_def check_cancel_def run_state_def fl_init_def
      release_backend_def sample_flasher_def sample_run_def on_load_asset_def select_backend_def
      config_def empty_config_def on_pre_program_def with_backend_def pre_program_steps_def
      post_program_steps_def non_empty_def sample_job_def tick_backend_def tick_def ui_def
      on_detect_def eval_nat_numeral on_erase_def on_program_def on_verify_def on_self_test_def
      used_tests_def end_self_test_def on_post_program_def after_post_def on_done_def)

theorem run_outcome_witness:
  "\<exists>ret f'. run_loop sample_run (\<lambda>n. n = 3) 0 (fl_init sample_run sample_flasher) = Some (ret, f') \<and>
     released sample_run f'"
  using run_outcome [OF sample_run_clock, of "\<lambda>n. n = 3" sample_flasher] by blast

theorem passed_run_is_verified_witness:
  "verify_images (ru_lib sample_run) (ru_env sample_run) (ru_files sample_run) (ru_assets sample_run) = ESP_OK"
  using passed_run_is_verified [OF sample_run_clock] sample_run_passes by blast

end
