(* ===== verification/Prog_Log.thy ===== *)
theory Prog_Log
  imports Si_Prelude
begin

text \<open>
  \<open>main/prog/prog_log.cpp\<close>: the production log. The entry store (\<open>on9rstore\<close>) and nanopb are not part
  of the sources: \<open>rstore\<close> holds the store's operations over a state of its own, \<open>log_pb\<close> the
  encoders. What the firmware relies on is stated as named hypotheses (\<open>store_ordered\<close>,
  \<open>pb_sizes\<close>) where a property needs it.
\<close>

section \<open>The entry store and the encoders as parameters\<close>

record entry_header =
  eh_entry_id :: u64
  eh_type :: u16
  eh_len :: nat
  eh_uptime_us :: u64

datatype time_source = TIME_SOURCE_SERVER_ESTIMATE

datatype anchor_quality = TIME_ANCHOR_QUALITY_PROVISIONAL

record time_anchor =
  ta_source_mask :: time_source
  ta_source_count :: nat
  ta_quality :: anchor_quality
  ta_utc_us :: u64
  ta_monotonic_us :: u64
  ta_uncertainty_us :: u64

record 's rstore =
  rs_can_append :: "'s \<Rightarrow> nat \<Rightarrow> bool"
  rs_append_entry :: "'s \<Rightarrow> u16 \<Rightarrow> bytes \<Rightarrow> esp_err \<times> 's"
  rs_append_time_anchor :: "'s \<Rightarrow> time_anchor \<Rightarrow> esp_err \<times> 's"
  rs_read_next_entry :: "'s \<Rightarrow> u64 \<Rightarrow> nat \<Rightarrow> esp_err \<times> bytes \<times> entry_header"
  rs_get_entry_utc :: "'s \<Rightarrow> entry_header \<Rightarrow> u64 option"
  rs_set_acked :: "'s \<Rightarrow> u64 \<Rightarrow> esp_err \<times> 's"
  rs_newest_id :: "'s \<Rightarrow> u64"
  rs_acked_id :: "'s \<Rightarrow> u64"
  rs_boot_event_type :: u16
  rs_boot_event_size :: nat
  rs_reset_reason :: "bytes \<Rightarrow> u32"

datatype trigger = TRIGGER_MANUAL | TRIGGER_AUTO_ON_DETECT | TRIGGER_OTHER int

datatype stage = STAGE_NONE | STAGE_LOAD | STAGE_PRE_PROGRAM | STAGE_DETECT | STAGE_ERASE
  | STAGE_PROGRAM | STAGE_VERIFY | STAGE_SELF_TEST | STAGE_POST_PROGRAM | STAGE_CURRENT_TEST

datatype outcome = OUTCOME_NONE | OUTCOME_PASS | OUTCOME_FAIL | OUTCOME_CANCELLED

record run_result =
  res_run_id :: u32
  res_outcome :: outcome
  res_failed_stage :: stage
  res_duration_ms :: u32

record run_record =
  rec_result :: run_result
  rec_trigger :: trigger
  rec_error_code :: esp_err
  rec_job_name :: string
  rec_job_sha256 :: bytes

datatype log_entry_type = LOG_ENTRY_UNKNOWN | LOG_ENTRY_RUN | LOG_ENTRY_BOOT

record log_entry =
  le_id :: u64
  le_type :: log_entry_type
  le_uptime_us :: u64
  le_utc_ms :: u64
  le_record :: bytes

definition log_entry_zero :: log_entry where
  "log_entry_zero = \<lparr>le_id = 0, le_type = LOG_ENTRY_UNKNOWN, le_uptime_us = 0, le_utc_ms = 0,
     le_record = []\<rparr>"

text \<open>
  \<open>pb_encode_run\<close> is \<open>pb_encode\<close> of a run record, \<open>None\<close> when it fails; \<open>pb_entry_size\<close> is
  \<open>pb_get_encoded_size\<close>; \<open>pb_encode_entry\<close> are the bytes of the tag, the length and the message.
\<close>

record log_pb =
  pb_run_size :: nat
  pb_encode_run :: "run_record \<Rightarrow> bytes option"
  pb_encode_boot :: "u32 \<Rightarrow> bytes"
  pb_record_cap :: nat
  pb_entry_size :: "log_entry \<Rightarrow> nat option"
  pb_encode_entry :: "log_entry \<Rightarrow> bytes option"

section \<open>State and operations\<close>

record 's prog_log =
  pl_store :: 's
  pl_time_set :: bool
  pl_write_failed :: bool

definition ENTRY_RUN :: u16 where "ENTRY_RUN = 1"

text \<open>\<open>init\<close>: mounting, allocating and opening the store can fail; \<open>Some\<close> log once it is open.\<close>

definition log_init ::
  "esp_err \<Rightarrow> bool \<Rightarrow> esp_err \<times> 's \<Rightarrow> esp_err \<times> 's prog_log option" where
  "log_init mount_ret alloc_ok store_init =
     (if mount_ret \<noteq> ESP_OK then (mount_ret, None)
      else if \<not> alloc_ok then (ESP_ERR_NO_MEM, None)
      else if fst store_init \<noteq> ESP_OK then (fst store_init, None)
      else (ESP_OK, Some \<lparr>pl_store = snd store_init, pl_time_set = False, pl_write_failed = False\<rparr>))"

definition check_space :: "'s rstore \<Rightarrow> log_pb \<Rightarrow> 's prog_log \<Rightarrow> esp_err" where
  "check_space rs pb l =
     (if pl_write_failed l then ESP_FAIL
      else if rs_can_append rs (pl_store l) (pb_run_size pb) then ESP_OK else ESP_ERR_NO_MEM)"

definition add_run :: "'s rstore \<Rightarrow> log_pb \<Rightarrow> run_record \<Rightarrow> 's prog_log \<Rightarrow> 's prog_log" where
  "add_run rs pb record l =
     (case pb_encode_run pb record of
        None \<Rightarrow> l\<lparr>pl_write_failed := True\<rparr>
      | Some encoded \<Rightarrow>
          (case rs_append_entry rs (pl_store l) ENTRY_RUN encoded of (ret, st) \<Rightarrow>
             if ret \<noteq> ESP_OK then l\<lparr>pl_store := st, pl_write_failed := True\<rparr>
             else l\<lparr>pl_store := st\<rparr>))"

definition set_time :: "'s rstore \<Rightarrow> u64 \<Rightarrow> u64 \<Rightarrow> 's prog_log \<Rightarrow> esp_err \<times> 's prog_log" where
  "set_time rs now_us utc_ms l =
     (if utc_ms = 0 then (ESP_ERR_INVALID_ARG, l)
      else if pl_time_set l then (ESP_OK, l)
      else case rs_append_time_anchor rs (pl_store l)
             \<lparr>ta_source_mask = TIME_SOURCE_SERVER_ESTIMATE, ta_source_count = 1,
              ta_quality = TIME_ANCHOR_QUALITY_PROVISIONAL, ta_utc_us = utc_ms * 1000, ta_monotonic_us = now_us,
              ta_uncertainty_us = 1000000\<rparr> of (ret, st) \<Rightarrow>
        (ret, l\<lparr>pl_store := st, pl_time_set := (ret = ESP_OK)\<rparr>))"

definition convert_boot_record :: "'s rstore \<Rightarrow> log_pb \<Rightarrow> log_entry \<Rightarrow> log_entry" where
  "convert_boot_record rs pb entry =
     (if length (le_record entry) < rs_boot_event_size rs
      then entry\<lparr>le_type := LOG_ENTRY_UNKNOWN, le_record := []\<rparr>
      else entry\<lparr>le_record := pb_encode_boot pb
                   (rs_reset_reason rs (take (rs_boot_event_size rs) (le_record entry)))\<rparr>)"

definition read_entry ::
  "'s rstore \<Rightarrow> log_pb \<Rightarrow> 's prog_log \<Rightarrow> u64 \<Rightarrow> esp_err + log_entry" where
  "read_entry rs pb l after_id =
     (case rs_read_next_entry rs (pl_store l) (after_id + 1) (pb_record_cap pb) of (ret, buf, header) \<Rightarrow>
        let readable_header =
              (ret = ESP_ERR_INVALID_SIZE \<or> ret = ESP_ERR_INVALID_CRC) \<and> eh_entry_id header \<noteq> 0
        in if ret \<noteq> ESP_OK \<and> \<not> readable_header then Inl ret
           else
             let entry = log_entry_zero\<lparr>le_id := eh_entry_id header,
                   le_uptime_us := eh_uptime_us header,
                   le_record := (if ret = ESP_OK then take (eh_len header) buf else [])\<rparr>;
                 entry = (if ret = ESP_OK \<and> eh_type header = ENTRY_RUN
                          then entry\<lparr>le_type := LOG_ENTRY_RUN\<rparr>
                          else if ret = ESP_OK \<and> eh_type header = rs_boot_event_type rs
                          then convert_boot_record rs pb (entry\<lparr>le_type := LOG_ENTRY_BOOT\<rparr>)
                          else entry\<lparr>le_type := LOG_ENTRY_UNKNOWN, le_record := []\<rparr>)
             in Inr (case rs_get_entry_utc rs (pl_store l) header of
                       None \<Rightarrow> entry
                     | Some utc_us \<Rightarrow> entry\<lparr>le_utc_ms := utc_us div 1000\<rparr>))"

text \<open>
  The output stream: the bytes written so far and the size of its buffer. nanopb never writes more
  than \<open>max_size\<close> bytes, so \<open>max_size - bytes_written\<close> does not wrap.
\<close>

record ostream =
  os_bytes :: bytes
  os_max :: nat

definition os_write :: "bytes \<Rightarrow> ostream \<Rightarrow> ostream option" where
  "os_write b out =
     (if length (os_bytes out) + length b > os_max out then None
      else Some (out\<lparr>os_bytes := os_bytes out @ b\<rparr>))"

definition entry_overhead :: nat where "entry_overhead = 1 + 2"

text \<open>\<open>None\<close> is a loop that never ends.\<close>

partial_function (option) log_read ::
  "'s rstore \<Rightarrow> log_pb \<Rightarrow> 's prog_log \<Rightarrow> u64 \<Rightarrow> ostream \<Rightarrow> (esp_err \<times> ostream) option" where
  "log_read rs pb l after_id out =
     (case read_entry rs pb l after_id of
        Inl ret \<Rightarrow>
          if ret = ESP_ERR_NOT_FOUND then Some (ESP_OK, out)
          else Some (if length (os_bytes out) > 0 then ESP_OK else ret, out)
      | Inr entry \<Rightarrow>
          (case pb_entry_size pb entry of
             None \<Rightarrow> Some (ESP_OK, out)
           | Some entry_len \<Rightarrow>
               if entry_len + entry_overhead > os_max out - length (os_bytes out) then Some (ESP_OK, out)
               else case Option.bind (pb_encode_entry pb entry) (\<lambda>b. os_write b out) of
                   None \<Rightarrow> Some (ESP_FAIL, out)
                 | Some out' \<Rightarrow> log_read rs pb l (le_id entry) out'))"

definition log_ack :: "'s rstore \<Rightarrow> u64 \<Rightarrow> 's prog_log \<Rightarrow> esp_err \<times> 's prog_log" where
  "log_ack rs up_to_id l =
     (case rs_set_acked rs (pl_store l) up_to_id of (ret, st) \<Rightarrow> (ret, l\<lparr>pl_store := st\<rparr>))"

record log_info =
  li_newest_id :: u64
  li_acked_id :: u64
  li_full :: bool

definition get_info :: "'s rstore \<Rightarrow> log_pb \<Rightarrow> 's prog_log \<Rightarrow> log_info" where
  "get_info rs pb l = \<lparr>li_newest_id = rs_newest_id rs (pl_store l),
     li_acked_id = rs_acked_id rs (pl_store l), li_full = (check_space rs pb l \<noteq> ESP_OK)\<rparr>"

section \<open>What the log relies on\<close>

text \<open>Asked for the entry at or after an id, the store answers with an id that is not smaller.\<close>

definition store_ordered :: "'s rstore \<Rightarrow> bool" where
  "store_ordered rs \<longleftrightarrow>
     (\<forall>st i n r buf h. rs_read_next_entry rs st i n = (r, buf, h) \<longrightarrow>
        (r = ESP_OK \<or> eh_entry_id h \<noteq> 0) \<longrightarrow> i \<le> eh_entry_id h \<and> eh_entry_id h < - 1)"

text \<open>
  An encoded entry is not empty, and takes at most its message size, one byte of tag and two of
  length.
\<close>

definition pb_sizes :: "log_pb \<Rightarrow> bool" where
  "pb_sizes pb \<longleftrightarrow>
     (\<forall>e b. pb_encode_entry pb e = Some b \<longrightarrow>
        b \<noteq> [] \<and> (\<forall>n. pb_entry_size pb e = Some n \<longrightarrow> length b \<le> n + entry_overhead))"

text \<open>The entries a response carries: each is the one the store gives after the previous.\<close>

fun read_chain :: "'s rstore \<Rightarrow> log_pb \<Rightarrow> 's prog_log \<Rightarrow> u64 \<Rightarrow> log_entry list \<Rightarrow> bool" where
  "read_chain rs pb l after_id [] = True"
| "read_chain rs pb l after_id (e # es) =
     (read_entry rs pb l after_id = Inr e \<and> read_chain rs pb l (le_id e) es)"

fun encode_all :: "log_pb \<Rightarrow> log_entry list \<Rightarrow> bytes" where
  "encode_all pb [] = []"
| "encode_all pb (e # es) =
     (case pb_encode_entry pb e of None \<Rightarrow> [] | Some b \<Rightarrow> b) @ encode_all pb es"

text \<open>Why a response ends where it does: the log is exhausted, unreadable there, or the entry is too big.\<close>

definition read_stops ::
  "'s rstore \<Rightarrow> log_pb \<Rightarrow> 's prog_log \<Rightarrow> u64 \<Rightarrow> nat \<Rightarrow> bool" where
  "read_stops rs pb l after_id room =
     (case read_entry rs pb l after_id of
        Inl _ \<Rightarrow> True
      | Inr e \<Rightarrow> pb_encode_entry pb e = None \<or>
          (case pb_entry_size pb e of None \<Rightarrow> True | Some n \<Rightarrow> n + entry_overhead > room))"

lemma read_entry_id:
  assumes "store_ordered rs" and "read_entry rs pb l after_id = Inr e" and "after_id < - 1"
  shows "after_id < le_id e \<and> le_id e < - 1"
proof -
  obtain r buf h where rd: "rs_read_next_entry rs (pl_store l) (after_id + 1) (pb_record_cap pb) =
      (r, buf, h)" by (metis surj_pair)
  with assms(2) have ok: "r = ESP_OK \<or> eh_entry_id h \<noteq> 0" and id: "le_id e = eh_entry_id h"
    by (auto simp: read_entry_def Let_def convert_boot_record_def split: if_splits option.splits)
  from assms(1) rd ok have "after_id + 1 \<le> eh_entry_id h" "eh_entry_id h < - 1"
    unfolding store_ordered_def by blast+
  moreover have "after_id < after_id + 1"
    using assms(3) by (rule u64_less_Suc)
  ultimately show ?thesis using id by simp
qed

lemma read_chain_ids:
  assumes "store_ordered rs" and "read_chain rs pb l after_id es" and "after_id < - 1"
  shows "sorted_wrt (<) (after_id # map le_id es)"
  using assms(2,3)
proof (induction es arbitrary: after_id)
  case (Cons e es)
  then have "after_id < le_id e" "le_id e < - 1"
    using read_entry_id [OF assms(1), of pb l after_id e] by auto
  with Cons.IH [of "le_id e"] Cons.prems show ?case by auto
qed simp

lemma log_read_returns:
  assumes "pb_sizes pb" and "length (os_bytes out) \<le> os_max out"
  shows "\<exists>r es out'. log_read rs pb l after_id out = Some (r, out') \<and>
     read_chain rs pb l after_id es \<and> os_max out' = os_max out \<and>
     os_bytes out' = os_bytes out @ encode_all pb es \<and> length (os_bytes out') \<le> os_max out \<and>
     read_stops rs pb l (last (after_id # map le_id es)) (os_max out - length (os_bytes out'))"
  using assms(2)
proof (induction "os_max out - length (os_bytes out)" arbitrary: out after_id rule: less_induct)
  case less
  have here: ?case if "\<exists>r. log_read rs pb l after_id out = Some (r, out)"
      "read_stops rs pb l after_id (os_max out - length (os_bytes out))"
    using that less.prems by (auto intro!: exI [of _ "[]"])
  show ?case
  proof (cases "read_entry rs pb l after_id")
    case (Inl r)
    then show ?thesis by (intro here) (auto simp: log_read.simps read_stops_def)
  next
    case (Inr e)
    show ?thesis
    proof (cases "read_stops rs pb l after_id (os_max out - length (os_bytes out))")
      case True
      then have "\<exists>r. log_read rs pb l after_id out = Some (r, out)"
        using Inr by (auto simp: log_read.simps read_stops_def split: option.splits)
      then show ?thesis using True by (rule here)
    next
      case False
      with Inr obtain b n where b: "pb_encode_entry pb e = Some b" "pb_entry_size pb e = Some n"
          "n + entry_overhead \<le> os_max out - length (os_bytes out)"
        by (auto simp: read_stops_def split: option.splits)
      with assms(1) have len: "0 < length b" "length b \<le> n + entry_overhead"
        by (auto simp: pb_sizes_def)
      let ?out = "out\<lparr>os_bytes := os_bytes out @ b\<rparr>"
      have rec: "log_read rs pb l after_id out = log_read rs pb l (le_id e) ?out"
        using Inr b len less.prems by (subst log_read.simps) (auto simp: os_write_def)
      have "\<exists>r es out'. log_read rs pb l (le_id e) ?out = Some (r, out') \<and>
         read_chain rs pb l (le_id e) es \<and> os_max out' = os_max ?out \<and>
         os_bytes out' = os_bytes ?out @ encode_all pb es \<and> length (os_bytes out') \<le> os_max ?out \<and>
         read_stops rs pb l (last (le_id e # map le_id es)) (os_max ?out - length (os_bytes out'))"
      proof (rule less.hyps)
        show "os_max ?out - length (os_bytes ?out) < os_max out - length (os_bytes out)"
          using b(3) len less.prems by (simp, linarith)
        show "length (os_bytes ?out) \<le> os_max ?out" using b(3) len less.prems by simp
      qed
      then obtain r es out' where ih: "log_read rs pb l (le_id e) ?out = Some (r, out')"
          "read_chain rs pb l (le_id e) es" "os_max out' = os_max out"
          "os_bytes out' = (os_bytes out @ b) @ encode_all pb es" "length (os_bytes out') \<le> os_max out"
          "read_stops rs pb l (last (le_id e # map le_id es)) (os_max out - length (os_bytes out'))"
        by auto
      with rec Inr b(1) show ?thesis
        by (intro exI [of _ r] exI [of _ "e # es"] exI [of _ out']) simp
    qed
  qed
qed

section \<open>Sequences of calls\<close>

datatype log_op = Log_add run_record | Log_ack u64 | Log_time u64 u64

fun log_step :: "'s rstore \<Rightarrow> log_pb \<Rightarrow> log_op \<Rightarrow> 's prog_log \<Rightarrow> 's prog_log" where
  "log_step rs pb (Log_add r) l = add_run rs pb r l"
| "log_step rs pb (Log_ack i) l = snd (log_ack rs i l)"
| "log_step rs pb (Log_time now utc) l = snd (set_time rs now utc l)"

lemma log_step_failed: "pl_write_failed l \<Longrightarrow> pl_write_failed (log_step rs pb op l)"
  by (cases op)
    (auto simp: add_run_def log_ack_def set_time_def split: option.splits prod.splits)

lemma log_run_failed: "pl_write_failed l \<Longrightarrow> pl_write_failed (fold (log_step rs pb) ops l)"
  by (induction ops arbitrary: l) (simp_all add: log_step_failed)

text \<open>Whether the store took a run's record.\<close>

definition run_written :: "'s rstore \<Rightarrow> log_pb \<Rightarrow> run_record \<Rightarrow> 's prog_log \<Rightarrow> bool" where
  "run_written rs pb record l =
     (case pb_encode_run pb record of
        None \<Rightarrow> False
      | Some encoded \<Rightarrow> fst (rs_append_entry rs (pl_store l) ENTRY_RUN encoded) = ESP_OK)"

lemma add_run_failed:
  "pl_write_failed (add_run rs pb record l) \<longleftrightarrow> pl_write_failed l \<or> \<not> run_written rs pb record l"
  by (auto simp: add_run_def run_written_def split: option.splits prod.splits)

section \<open>Properties\<close>


text \<open>
  C24: After a run could not be written, no further run is admitted: \<open>check_space\<close> answers
  \<open>ESP_FAIL\<close> whatever is recorded, acknowledged or set afterwards.
\<close>

theorem failed_write_blocks_runs:
  assumes "\<not> run_written rs pb record l"
  shows "check_space rs pb (fold (log_step rs pb) ops (add_run rs pb record l)) = ESP_FAIL"
  using log_run_failed [of "add_run rs pb record l" rs pb ops] assms
  by (simp add: add_run_failed check_space_def)

section \<open>A concrete store\<close>

text \<open>A store that keeps its entries in a list, newest last, and holds at most two.\<close>

type_synonym list_store = "(u64 \<times> u16 \<times> bytes) list"

definition list_rstore :: "list_store rstore" where
  "list_rstore = \<lparr>
     rs_can_append = (\<lambda>st _. length st < 2),
     rs_append_entry = (\<lambda>st ty b. if length st < 2 then (ESP_OK, st @ [(of_nat (length st) + 1, ty, b)])
                                    else (ESP_ERR_NO_MEM, st)),
     rs_append_time_anchor = (\<lambda>st _. (ESP_OK, st)),
     rs_read_next_entry = (\<lambda>st i n.
        case find (\<lambda>(k, _, _). i \<le> k \<and> k < - 1) st of
          None \<Rightarrow> (ESP_ERR_NOT_FOUND, [], \<lparr>eh_entry_id = 0, eh_type = 0, eh_len = 0, eh_uptime_us = 0\<rparr>)
        | Some (k, ty, b) \<Rightarrow>
            (ESP_OK, b, \<lparr>eh_entry_id = k, eh_type = ty, eh_len = length b, eh_uptime_us = 0\<rparr>)),
     rs_get_entry_utc = (\<lambda>_ _. None),
     rs_set_acked = (\<lambda>st _. (ESP_OK, st)),
     rs_newest_id = (\<lambda>st. of_nat (length st)),
     rs_acked_id = (\<lambda>_. 0),
     rs_boot_event_type = 2, rs_boot_event_size = 4, rs_reset_reason = (\<lambda>_. 0)\<rparr>"

definition byte_pb :: log_pb where
  "byte_pb = \<lparr>pb_run_size = 1, pb_encode_run = (\<lambda>r. Some [ucast (res_run_id (rec_result r))]),
     pb_encode_boot = (\<lambda>_. []), pb_record_cap = 8,
     pb_entry_size = (\<lambda>e. Some (length (le_record e))),
     pb_encode_entry = (\<lambda>e. Some (10 # of_nat (length (le_record e)) # le_record e))\<rparr>"

definition two_runs :: "list_store prog_log" where
  "two_runs = \<lparr>pl_store = [(1, ENTRY_RUN, [7]), (2, ENTRY_RUN, [8])], pl_time_set = False,
     pl_write_failed = False\<rparr>"

lemma list_rstore_ordered: "store_ordered list_rstore"
  by (auto simp: store_ordered_def list_rstore_def split: option.splits dest: find_Some_first)

lemma byte_pb_sizes: "pb_sizes byte_pb"
  by (auto simp: pb_sizes_def byte_pb_def entry_overhead_def)


definition some_record :: run_record where
  "some_record = \<lparr>rec_result = \<lparr>res_run_id = 3, res_outcome = OUTCOME_PASS,
     res_failed_stage = STAGE_NONE, res_duration_ms = 0\<rparr>, rec_trigger = TRIGGER_MANUAL,
     rec_error_code = ESP_OK, rec_job_name = [], rec_job_sha256 = []\<rparr>"

theorem failed_write_blocks_runs_witness:
  "check_space list_rstore byte_pb (fold (log_step list_rstore byte_pb) [Log_ack 2]
     (add_run list_rstore byte_pb some_record two_runs)) = ESP_FAIL"
  by (rule failed_write_blocks_runs)
    (simp add: run_written_def list_rstore_def byte_pb_def two_runs_def)

end
