(* ===== verification/Job_Controller.thy ===== *)
theory Job_Controller
  imports Offline_Flasher Prog_Log
begin

text \<open>
  \<open>main/prog/job_controller.cpp\<close>: when the active job runs, and the result of the last run. The
  controller's fields are \<open>job_ctrl\<close>; \<open>sys\<close> puts the components it calls beside it. Each section
  between \<open>lock()\<close> and \<open>unlock()\<close> is one definition, so that the interleaving of the two tasks can be
  taken at exactly these points. \<open>nvs_env\<close> are the answers of the NVS library.
\<close>

section \<open>State\<close>

record job_ctrl =
  jc_trigger :: trigger
  jc_running :: bool
  jc_current_trigger :: trigger
  jc_last_run_id :: u32
  jc_cancel_flag :: bool
  jc_last_result :: run_result

definition run_result_zero :: run_result where
  "run_result_zero = \<lparr>res_run_id = 0, res_outcome = OUTCOME_NONE, res_failed_stage = STAGE_NONE,
     res_duration_ms = 0\<rparr>"

definition ctrl_boot :: job_ctrl where
  "ctrl_boot = \<lparr>jc_trigger = TRIGGER_MANUAL, jc_running = False, jc_current_trigger = TRIGGER_MANUAL,
     jc_last_run_id = 0, jc_cancel_flag = False, jc_last_result = run_result_zero\<rparr>"

record nvs_env =
  nv_open_ro :: esp_err
  nv_get :: esp_err
  nv_open_rw :: esp_err
  nv_set :: esp_err
  nv_commit :: esp_err
  nv_early_write :: bool

text \<open>Libraries and generated constants; \<open>trigger_code\<close> is the enum value stored in NVS.\<close>

record 's sys_lib =
  sl_lib :: lib_params
  sl_rstore :: "'s rstore"
  sl_pb :: log_pb
  sl_trigger_code :: "trigger \<Rightarrow> u8"
  sl_name_cap :: nat

record 's sys =
  sy_ctrl :: job_ctrl
  sy_assets :: fw_assets
  sy_store :: asset_store
  sy_files :: fs
  sy_log :: "'s prog_log"
  sy_nvs :: "u8 option"
  sy_run_bit :: bool

definition ERR_RUNNING :: esp_err where "ERR_RUNNING = ESP_ERR_NOT_FINISHED"

section \<open>Operations\<close>

definition jc_init ::
  "'s sys_lib \<Rightarrow> nvs_env \<Rightarrow> bool \<Rightarrow> u8 option \<Rightarrow> job_ctrl \<Rightarrow> esp_err \<times> job_ctrl" where
  "jc_init sl nv mutex_ok nvs c =
     (if \<not> mutex_ok then (ESP_ERR_NO_MEM, c)
      else if nv_open_ro nv = ESP_OK \<and> nv_get nv = ESP_OK \<and>
              nvs = Some (sl_trigger_code sl TRIGGER_AUTO_ON_DETECT)
      then (ESP_OK, c\<lparr>jc_trigger := TRIGGER_AUTO_ON_DETECT\<rparr>)
      else (ESP_OK, c))"

definition save_trigger ::
  "'s sys_lib \<Rightarrow> nvs_env \<Rightarrow> trigger \<Rightarrow> u8 option \<Rightarrow> esp_err \<times> u8 option" where
  "save_trigger sl nv new_trigger nvs =
     (if nv_open_rw nv \<noteq> ESP_OK then (nv_open_rw nv, nvs)
      else if nv_set nv \<noteq> ESP_OK then (nv_set nv, nvs)
      else if nv_commit nv \<noteq> ESP_OK
      then (nv_commit nv, if nv_early_write nv then Some (sl_trigger_code sl new_trigger) else nvs)
      else (ESP_OK, Some (sl_trigger_code sl new_trigger)))"

definition set_job ::
  "'s sys_lib \<Rightarrow> asset_env \<Rightarrow> nvs_env \<Rightarrow> bytes \<Rightarrow> trigger \<Rightarrow> 's sys \<Rightarrow> esp_err \<times> 's sys" where
  "set_job sl env nv sha256 new_trigger s =
     (if new_trigger \<noteq> TRIGGER_MANUAL \<and> new_trigger \<noteq> TRIGGER_AUTO_ON_DETECT
      then (ESP_ERR_INVALID_ARG, s)
      else if jc_running (sy_ctrl s) then (ERR_RUNNING, s)
      else case activate_staged (sl_lib sl) env sha256 (sy_assets s, sy_files s) of (ret, a, files) \<Rightarrow>
        let s = s\<lparr>sy_assets := a, sy_files := files\<rparr> in
        if ret \<noteq> ESP_OK then (ret, s)
        else case save_trigger sl nv new_trigger (sy_nvs s) of (ret, nvs) \<Rightarrow>
          let s = s\<lparr>sy_nvs := nvs\<rparr> in
          if ret = ESP_OK then (ret, s\<lparr>sy_ctrl := (sy_ctrl s)\<lparr>jc_trigger := new_trigger\<rparr>\<rparr>)
          else (ret, s))"

definition commit_asset :: "'s sys_lib \<Rightarrow> io_env \<Rightarrow> 's sys \<Rightarrow> esp_err \<times> 's sys" where
  "commit_asset sl env s =
     (if jc_running (sy_ctrl s) then (ERR_RUNNING, s)
      else case commit_upload env (lib_sha (sl_lib sl)) (sy_store s, sy_files s) of (ret, st, files) \<Rightarrow>
        (ret, s\<lparr>sy_store := st, sy_files := files\<rparr>))"

definition start_run_locked :: "trigger \<Rightarrow> job_ctrl \<Rightarrow> job_ctrl" where
  "start_run_locked run_trigger c =
     c\<lparr>jc_running := True, jc_current_trigger := run_trigger,
       jc_last_run_id := jc_last_run_id c + 1, jc_cancel_flag := False\<rparr>"

text \<open>
  \<open>request_run\<close>: the locked part decides and claims the run; the event bit is set after the lock
  has been released.
\<close>

definition request_run_locked :: "'s sys_lib \<Rightarrow> 's sys \<Rightarrow> (esp_err + u32) \<times> 's sys" where
  "request_run_locked sl s =
     (let ret = (if jc_running (sy_ctrl s) then ERR_RUNNING
                 else if am_job (sy_assets s) = None then ESP_ERR_NOT_FOUND
                 else check_space (sl_rstore sl) (sl_pb sl) (sy_log s))
      in if ret = ESP_OK
         then let c = start_run_locked TRIGGER_MANUAL (sy_ctrl s)
              in (Inr (jc_last_run_id c), s\<lparr>sy_ctrl := c\<rparr>)
         else (Inl ret, s))"

definition request_run :: "'s sys_lib \<Rightarrow> 's sys \<Rightarrow> (esp_err + u32) \<times> 's sys" where
  "request_run sl s =
     (case request_run_locked sl s of
        (Inl e, s) \<Rightarrow> (Inl e, s)
      | (Inr run_id, s) \<Rightarrow> (Inr run_id, s\<lparr>sy_run_bit := True\<rparr>))"

definition begin_auto_run :: "'s sys_lib \<Rightarrow> 's sys \<Rightarrow> bool \<times> 's sys" where
  "begin_auto_run sl s =
     (if \<not> jc_running (sy_ctrl s) \<and> jc_trigger (sy_ctrl s) = TRIGGER_AUTO_ON_DETECT \<and>
         am_job (sy_assets s) \<noteq> None \<and> check_space (sl_rstore sl) (sl_pb sl) (sy_log s) = ESP_OK
      then (True, s\<lparr>sy_ctrl := start_run_locked TRIGGER_AUTO_ON_DETECT (sy_ctrl s)\<rparr>)
      else (False, s))"

definition cancel_run :: "u32 \<Rightarrow> job_ctrl \<Rightarrow> job_ctrl" where
  "cancel_run run_id c =
     (if jc_running c \<and> (run_id = 0 \<or> run_id = jc_last_run_id c)
      then c\<lparr>jc_cancel_flag := True\<rparr> else c)"

fun to_stage :: "pg_state \<Rightarrow> stage" where
  "to_stage LOAD_ASSET = STAGE_LOAD"
| "to_stage PRE_PROGRAM = STAGE_PRE_PROGRAM"
| "to_stage DETECT = STAGE_DETECT"
| "to_stage ERASE = STAGE_ERASE"
| "to_stage PROGRAM = STAGE_PROGRAM"
| "to_stage VERIFY = STAGE_VERIFY"
| "to_stage SELF_TEST = STAGE_SELF_TEST"
| "to_stage POST_PROGRAM = STAGE_POST_PROGRAM"
| "to_stage SG_CURRENT_TEST = STAGE_CURRENT_TEST"
| "to_stage s = STAGE_NONE"

text \<open>The three parts of \<open>finish_run\<close>: the result under the lock, the record, the release.\<close>

definition finish_result :: "esp_err \<Rightarrow> pg_state \<Rightarrow> u32 \<Rightarrow> job_ctrl \<Rightarrow> job_ctrl" where
  "finish_result ret failed_state duration_ms c =
     c\<lparr>jc_last_result := \<lparr>res_run_id = jc_last_run_id c,
         res_outcome = (if ret = ESP_OK then OUTCOME_PASS
                        else if jc_cancel_flag c then OUTCOME_CANCELLED else OUTCOME_FAIL),
         res_failed_stage = (if ret = ESP_OK then STAGE_NONE else to_stage failed_state),
         res_duration_ms = duration_ms\<rparr>\<rparr>"

definition run_record_of :: "'s sys_lib \<Rightarrow> esp_err \<Rightarrow> 's sys \<Rightarrow> run_record" where
  "run_record_of sl ret s = \<lparr>rec_result = jc_last_result (sy_ctrl s),
     rec_trigger = jc_current_trigger (sy_ctrl s), rec_error_code = ret,
     rec_job_name = strlcpy (job_name (sy_assets s)) (sl_name_cap sl),
     rec_job_sha256 = am_sha256 (sy_assets s)\<rparr>"

definition record_run :: "'s sys_lib \<Rightarrow> esp_err \<Rightarrow> 's sys \<Rightarrow> 's sys" where
  "record_run sl ret s =
     s\<lparr>sy_log := add_run (sl_rstore sl) (sl_pb sl) (run_record_of sl ret s) (sy_log s)\<rparr>"

definition finish_clear :: "job_ctrl \<Rightarrow> job_ctrl" where
  "finish_clear c = c\<lparr>jc_running := False, jc_cancel_flag := False\<rparr>"

definition finish_run ::
  "'s sys_lib \<Rightarrow> esp_err \<Rightarrow> pg_state \<Rightarrow> u32 \<Rightarrow> 's sys \<Rightarrow> 's sys" where
  "finish_run sl ret failed_state duration_ms s =
     (let s = s\<lparr>sy_ctrl := finish_result ret failed_state duration_ms (sy_ctrl s)\<rparr>;
          s = record_run sl ret s
      in s\<lparr>sy_ctrl := finish_clear (sy_ctrl s)\<rparr>)"

record job_status =
  js_has_job :: bool
  js_name :: string
  js_sha256 :: bytes
  js_trigger :: trigger
  js_running :: bool
  js_current_run_id :: u32
  js_last_result :: run_result

definition get_status :: "'s sys_lib \<Rightarrow> 's sys \<Rightarrow> job_status" where
  "get_status sl s =
     (let has_job = am_job (sy_assets s) \<noteq> None; c = sy_ctrl s in
      \<lparr>js_has_job = has_job,
       js_name = (if has_job then strlcpy (job_name (sy_assets s)) (sl_name_cap sl) else []),
       js_sha256 = (if has_job then am_sha256 (sy_assets s) else []),
       js_trigger = jc_trigger c, js_running = jc_running c,
       js_current_run_id = (if jc_running c then jc_last_run_id c else 0),
       js_last_result = jc_last_result c\<rparr>)"

section \<open>Lemmas\<close>

lemma check_space_cases: "check_space rs pb l \<in> {ESP_OK, ESP_FAIL, ESP_ERR_NO_MEM}"
  by (simp add: check_space_def)

lemma set_job_running:
  "jc_running (sy_ctrl s) \<Longrightarrow> snd (set_job sl env nv sha256 t s) = s"
  by (simp add: set_job_def)

lemma set_job_ctrl:
  "sy_ctrl (snd (set_job sl env nv sha256 t s)) = sy_ctrl s \<or>
   (\<exists>t'. sy_ctrl (snd (set_job sl env nv sha256 t s)) = (sy_ctrl s)\<lparr>jc_trigger := t'\<rparr>)"
  by (auto simp: set_job_def Let_def split: prod.splits)

lemma commit_asset_running: "jc_running (sy_ctrl s) \<Longrightarrow> snd (commit_asset sl env s) = s"
  by (simp add: commit_asset_def)

lemma set_job_OK:
  assumes "set_job sl env nv sha256 t s = (ESP_OK, s')"
  shows "(t = TRIGGER_MANUAL \<or> t = TRIGGER_AUTO_ON_DETECT) \<and> \<not> jc_running (sy_ctrl s) \<and>
     fst (activate_staged (sl_lib sl) env sha256 (sy_assets s, sy_files s)) = ESP_OK \<and>
     (sy_assets s', sy_files s') = snd (activate_staged (sl_lib sl) env sha256 (sy_assets s, sy_files s)) \<and>
     sy_nvs s' = Some (sl_trigger_code sl t) \<and> jc_trigger (sy_ctrl s') = t"
  using assms
  by (auto simp: set_job_def save_trigger_def ERR_RUNNING_def Let_def split: if_splits prod.splits)

lemma activate_staged_OK_sha:
  assumes "activate_staged lib env sha256 (a, files) = (ESP_OK, (a', files'))"
  shows "am_sha256 a' = sha256 \<and> am_job a' \<noteq> None"
  by (cases rule: activate_staged_cases [of a sha256 lib env files])
    (use assms in \<open>auto simp: publish_def\<close>)

section \<open>Properties\<close>

text \<open>
  A \<open>JOB_SET\<close> that succeeds leaves the requested job active with the requested trigger, and
  the trigger comes back from NVS at the next boot when NVS can be read.
\<close>

theorem set_job_trigger_persists:
  assumes "set_job sl env nv sha256 t s = (ESP_OK, s')"
    and "sl_trigger_code sl TRIGGER_MANUAL \<noteq> sl_trigger_code sl TRIGGER_AUTO_ON_DETECT"
    and "nv_open_ro nv' = ESP_OK" and "nv_get nv' = ESP_OK"
  shows "am_job (sy_assets s') \<noteq> None \<and> am_sha256 (sy_assets s') = sha256 \<and>
     jc_trigger (sy_ctrl s') = t \<and> jc_init sl nv' True (sy_nvs s') ctrl_boot = (ESP_OK, ctrl_boot\<lparr>jc_trigger := t\<rparr>)"
proof -
  note ok = set_job_OK [OF assms(1)]
  obtain a files where act: "activate_staged (sl_lib sl) env sha256 (sy_assets s, sy_files s) =
      (ESP_OK, (a, files))" using ok by (metis prod.collapse)
  from activate_staged_OK_sha [OF act] ok act assms(2-4) show ?thesis
    by (auto simp: jc_init_def ctrl_boot_def)
qed

text \<open>
  What the host reads back is consistent: a run is only admitted when no run is in progress,
  a job is active and the log has room; it gets the next run id, which the status then reports,
  and an older cancel request cannot stop it.
\<close>

theorem request_run_admission:
  "(case request_run sl s of
      (Inr run_id, s') \<Rightarrow> \<not> jc_running (sy_ctrl s) \<and> am_job (sy_assets s) \<noteq> None \<and>
        check_space (sl_rstore sl) (sl_pb sl) (sy_log s) = ESP_OK \<and>
        run_id = jc_last_run_id (sy_ctrl s) + 1 \<and> sy_run_bit s' \<and>
        js_running (get_status sl s') \<and> js_current_run_id (get_status sl s') = run_id \<and>
        \<not> jc_cancel_flag (sy_ctrl s')
    | (Inl e, s') \<Rightarrow> s' = s \<and>
        e = (if jc_running (sy_ctrl s) then ERR_RUNNING
             else if am_job (sy_assets s) = None then ESP_ERR_NOT_FOUND
             else check_space (sl_rstore sl) (sl_pb sl) (sy_log s)) \<and> e \<noteq> ESP_OK)"
  by (auto simp: request_run_def request_run_locked_def Let_def ERR_RUNNING_def get_status_def
      start_run_locked_def split: sum.splits prod.splits if_splits)

section \<open>A concrete system\<close>

definition sample_sys_lib :: "list_store sys_lib" where
  "sample_sys_lib = \<lparr>sl_lib = sample_lib, sl_rstore = list_rstore, sl_pb = byte_pb,
     sl_trigger_code = (\<lambda>t. if t = TRIGGER_AUTO_ON_DETECT then 1 else 0), sl_name_cap = 32\<rparr>"

definition nvs_works :: nvs_env where
  "nvs_works = \<lparr>nv_open_ro = ESP_OK, nv_get = ESP_OK, nv_open_rw = ESP_OK, nv_set = ESP_OK,
     nv_commit = ESP_OK, nv_early_write = False\<rparr>"

definition sample_sys :: "list_store sys" where
  "sample_sys = \<lparr>sy_ctrl = ctrl_boot, sy_assets = boot_assets, sy_store = empty_store,
     sy_files = sample_files,
     sy_log = \<lparr>pl_store = [], pl_time_set = False, pl_write_failed = False\<rparr>,
     sy_nvs = None, sy_run_bit = False\<rparr>"

theorem set_job_trigger_persists_witness:
  "\<exists>s'. set_job sample_sys_lib sample_asset_env nvs_works [7] TRIGGER_AUTO_ON_DETECT sample_sys = (ESP_OK, s') \<and>
     am_sha256 (sy_assets s') = [7] \<and> jc_trigger (sy_ctrl s') = TRIGGER_AUTO_ON_DETECT"
proof -
  obtain s' where s': "set_job sample_sys_lib sample_asset_env nvs_works [7] TRIGGER_AUTO_ON_DETECT
      sample_sys = (ESP_OK, s')"
    using sample_activation
    by (auto simp: set_job_def sample_sys_lib_def sample_sys_def ctrl_boot_def save_trigger_def
        nvs_works_def)
  with set_job_trigger_persists [OF s', of nvs_works] show ?thesis
    by (simp add: sample_sys_lib_def nvs_works_def)
qed

end
