(* ===== verification/Bootstrap_Fsm.thy ===== *)
theory Bootstrap_Fsm
  imports Job_Controller
begin

text \<open>
  \<open>main/bootstrap_fsm.cpp\<close>: start-up, the detection pins, the programming task, and the way the
  programming task, the SIDP service task and the timer task interleave around the job controller.
  Answers of ESP-IDF calls are parameters (\<open>boot_env\<close>); pins, power-management locks and event
  bits are fields.
\<close>

section \<open>State\<close>

datatype pin = DET_IO_PIN | PLUG_DET_PIN

record ('s, 'w) fsm =
  bf_sys :: "'s sys"
  bf_flasher :: "'w flasher"
  bf_connected :: bool
  bf_last_det_state :: bool
  bf_usb_powered :: bool
  bf_run_lock :: nat
  bf_usb_lock :: nat
  bf_intr :: "pin \<Rightarrow> bool"
  bf_wake_high :: "pin \<Rightarrow> bool"
  bf_timer :: bool
  bf_ui :: "ui_event list"

text \<open>The build's plug-detect option (\<open>PLUG_DET_PIN != GPIO_NUM_NC\<close>) and the answers of the libraries.\<close>

record 's boot_env =
  bo_has_plug :: bool
  bo_display :: esp_err
  bo_composer :: esp_err
  bo_led :: esp_err
  bo_evt_group :: bool
  bo_timer :: bool
  bo_pm_run :: esp_err
  bo_pm_usb :: esp_err
  bo_pm_acquire :: esp_err
  bo_gpio_config :: esp_err
  bo_isr_det :: esp_err
  bo_isr_plug :: esp_err
  bo_gpio_wakeup :: esp_err
  bo_det_level :: bool
  bo_plug_level :: bool
  bo_nvs_init :: esp_err
  bo_nvs_erase :: esp_err
  bo_nvs_init2 :: esp_err
  bo_mount :: esp_err
  bo_log_mount :: esp_err
  bo_log_alloc :: bool
  bo_log_store :: "esp_err \<times> 's"
  bo_dir_entries :: "string list"
  bo_assets :: asset_env
  bo_nvs :: nvs_env
  bo_mutex :: bool
  bo_tinyusb :: esp_err
  bo_sidp :: esp_err
  bo_task :: bool

definition ESP_ERR_NVS_NO_FREE_PAGES :: esp_err where
  "ESP_ERR_NVS_NO_FREE_PAGES = ESP_ERR_OTHER 0x110d"

definition ESP_ERR_NVS_NEW_VERSION_FOUND :: esp_err where
  "ESP_ERR_NVS_NEW_VERSION_FOUND = ESP_ERR_OTHER 0x1110"

section \<open>Pins and power\<close>

definition arm_io_pin :: "pin \<Rightarrow> bool \<Rightarrow> ('s, 'w) fsm \<Rightarrow> ('s, 'w) fsm" where
  "arm_io_pin p level b =
     b\<lparr>bf_wake_high := (bf_wake_high b)(p := \<not> level), bf_intr := (bf_intr b)(p := True)\<rparr>"

definition update_target_detect :: "bool \<Rightarrow> ('s, 'w) fsm \<Rightarrow> ('s, 'w) fsm" where
  "update_target_detect state b =
     (let b = (if state \<noteq> bf_last_det_state b
               then b\<lparr>bf_last_det_state := state, bf_connected := \<not> state\<rparr> else b)
      in arm_io_pin DET_IO_PIN state b)"

definition update_usb_power :: "bool \<Rightarrow> ('s, 'w) fsm \<Rightarrow> ('s, 'w) fsm" where
  "update_usb_power powered b =
     (let b = (if powered \<noteq> bf_usb_powered b
               then b\<lparr>bf_usb_powered := powered,
                      bf_usb_lock := (if powered then bf_usb_lock b + 1 else bf_usb_lock b - 1)\<rparr>
               else b)
      in arm_io_pin PLUG_DET_PIN powered b)"

text \<open>
  \<open>started\<close> is the answer of \<open>xTimerStartFromISR\<close>, which fails when the queue of timer commands is full and then leaves the
  timer as it was. The code does not look at it.
\<close>

definition io_isr_handler :: "bool \<Rightarrow> bool \<Rightarrow> ('s, 'w) fsm \<Rightarrow> ('s, 'w) fsm" where
  "io_isr_handler has_plug started b =
     (let b = b\<lparr>bf_intr := (bf_intr b)(DET_IO_PIN := False)\<rparr>;
          b = (if has_plug then b\<lparr>bf_intr := (bf_intr b)(PLUG_DET_PIN := False)\<rparr> else b)
      in if started then b\<lparr>bf_timer := True\<rparr> else b)"

text \<open>The one-shot debounce timer has expired; the levels are what the pins read now.\<close>

definition io_debounce_handler :: "bool \<Rightarrow> bool \<Rightarrow> bool \<Rightarrow> ('s, 'w) fsm \<Rightarrow> ('s, 'w) fsm" where
  "io_debounce_handler has_plug det plug b =
     (let b = update_target_detect det (b\<lparr>bf_timer := False\<rparr>)
      in if has_plug then update_usb_power plug b else b)"

section \<open>Start-up\<close>

definition setup_pm_locks :: "'s boot_env \<Rightarrow> ('s, 'w) fsm \<Rightarrow> esp_err \<times> ('s, 'w) fsm" where
  "setup_pm_locks bo b =
     (let ret = elvis (bo_pm_run bo) (bo_pm_usb bo)
      in if ret = ESP_OK \<and> \<not> bo_has_plug bo
         then (bo_pm_acquire bo, if bo_pm_acquire bo = ESP_OK then b\<lparr>bf_usb_lock := bf_usb_lock b + 1\<rparr> else b)
         else (ret, b))"

definition setup_io_pins :: "'s boot_env \<Rightarrow> ('s, 'w) fsm \<Rightarrow> esp_err \<times> ('s, 'w) fsm" where
  "setup_io_pins bo b =
     (let ret = elvis (bo_gpio_config bo) (bo_isr_det bo);
          ret = (if bo_has_plug bo then elvis ret (bo_isr_plug bo) else ret);
          ret = elvis ret (bo_gpio_wakeup bo)
      in if ret \<noteq> ESP_OK then (ret, b)
         else
           let b = arm_io_pin DET_IO_PIN (bo_det_level bo) (b\<lparr>bf_last_det_state := bo_det_level bo\<rparr>)
           in (ESP_OK, if bo_has_plug bo then update_usb_power (bo_plug_level bo) b else b))"

definition setup_storage :: "'s boot_env \<Rightarrow> esp_err" where
  "setup_storage bo =
     (let ret = bo_nvs_init bo;
          ret = (if ret = ESP_ERR_NVS_NO_FREE_PAGES \<or> ret = ESP_ERR_NVS_NEW_VERSION_FOUND
                 then elvis (bo_nvs_erase bo) (bo_nvs_init2 bo) else ret)
      in if ret \<noteq> ESP_OK then ret else bo_mount bo)"

definition setup_usb :: "'s boot_env \<Rightarrow> esp_err" where
  "setup_usb bo = (if bo_tinyusb bo \<noteq> ESP_OK then bo_tinyusb bo else bo_sidp bo)"

text \<open>\<open>nvs_flash_erase\<close> drops the stored trigger.\<close>

definition nvs_after_setup :: "'s boot_env \<Rightarrow> u8 option \<Rightarrow> u8 option" where
  "nvs_after_setup bo nvs =
     (if (bo_nvs_init bo = ESP_ERR_NVS_NO_FREE_PAGES \<or> bo_nvs_init bo = ESP_ERR_NVS_NEW_VERSION_FOUND) \<and>
         bo_nvs_erase bo = ESP_OK then None else nvs)"

definition fsm_init ::
  "'s sys_lib \<Rightarrow> 's boot_env \<Rightarrow> ('s, 'w) fsm \<Rightarrow> esp_err \<times> ('s, 'w) fsm" where
  "fsm_init sl bo b =
     (let ret = elvis (elvis (bo_display bo) (bo_composer bo)) (bo_led bo) in
      if ret \<noteq> ESP_OK then (ret, b)
      else if \<not> bo_evt_group bo then (ESP_FAIL, b)
      else if \<not> bo_timer bo then (ESP_FAIL, b)
      else check (and_then (setup_pm_locks bo b) (setup_io_pins bo)) Pair (\<lambda>b.
        if setup_storage bo \<noteq> ESP_OK
        then (setup_storage bo,
              b\<lparr>bf_ui := bf_ui b @ [Ui_error ''ERROR'' ''Storage partition error\<newline>Please try factory reset'']\<rparr>)
        else case log_init (bo_log_mount bo) (bo_log_alloc bo) (bo_log_store bo) of
            (ret, None) \<Rightarrow>
              (ret, b\<lparr>bf_ui := bf_ui b @ [Ui_error ''ERROR'' ''Log partition error\<newline>Please reflash firmware'']\<rparr>)
          | (_, Some log) \<Rightarrow>
              let nvs = nvs_after_setup bo (sy_nvs (bf_sys b));
                  files = remove_stale_uploads (ae_io (bo_assets bo)) (bo_dir_entries bo) (sy_files (bf_sys b));
                  a = snd (am_init (sl_lib sl) (bo_assets bo) files (sy_assets (bf_sys b)));
                  (ret, c) = jc_init sl (bo_nvs bo) (bo_mutex bo) nvs (sy_ctrl (bf_sys b));
                  b = b\<lparr>bf_sys := (bf_sys b)\<lparr>sy_log := log, sy_files := files, sy_assets := a,
                          sy_ctrl := c, sy_nvs := nvs\<rparr>\<rparr>;
                  ret = elvis ret (setup_usb bo)
              in if ret \<noteq> ESP_OK then (ret, b)
                 else if \<not> bo_task bo then (ESP_FAIL, b)
                 else (ESP_OK, if \<not> bf_last_det_state b then b\<lparr>bf_connected := True\<rparr> else b)))"

section \<open>The programming task\<close>

definition show_auto_run_refused :: "'s sys_lib \<Rightarrow> ('s, 'w) fsm \<Rightarrow> ('s, 'w) fsm" where
  "show_auto_run_refused sl b =
     (let log_ret = check_space (sl_rstore sl) (sl_pb sl) (sy_log (bf_sys b)) in
      if log_ret = ESP_ERR_NO_MEM
      then b\<lparr>bf_ui := bf_ui b @ [Ui_error ''LOG FULL'' ''Connect to the host\<newline>to collect the log'']\<rparr>
      else if log_ret \<noteq> ESP_OK
      then b\<lparr>bf_ui := bf_ui b @ [Ui_error ''LOG ERROR'' ''Restart the device'']\<rparr>
      else b)"

text \<open>
  \<open>run_job\<close>. \<open>run\<close> gives the backends and the RTOS; the job and its files are those of the system,
  which do not change while a run is in progress (shown below). \<open>cancel\<close> are the values of the
  cancel flag the run reads.
\<close>

definition run_env_of :: "'w run_env \<Rightarrow> 's sys_lib \<Rightarrow> 's sys \<Rightarrow> 'w run_env" where
  "run_env_of run sl s =
     run\<lparr>ru_lib := sl_lib sl, ru_files := sy_files s, ru_assets := sy_assets s\<rparr>"

definition run_job ::
  "'s sys_lib \<Rightarrow> 'w run_env \<Rightarrow> (nat \<Rightarrow> bool) \<Rightarrow> ('s, 'w) fsm \<Rightarrow> ('s, 'w) fsm option" where
  "run_job sl run cancel b =
     (let ru = run_env_of run sl (bf_sys b);
          start_us = rt_now (ru_rtos ru) (fl_world (bf_flasher b));
          b = b\<lparr>bf_run_lock := bf_run_lock b + 1\<rparr>
      in map_option (\<lambda>(ret, f).
           let b = b\<lparr>bf_flasher := f, bf_run_lock := bf_run_lock b - 1\<rparr>;
               duration_ms = of_int ((rt_now (ru_rtos ru) (fl_world f) - start_us) div 1000)
           in b\<lparr>bf_sys := finish_run sl ret (fl_failed_state f) duration_ms (bf_sys b)\<rparr>)
         (run_loop ru cancel 0 (fl_init ru (bf_flasher b))))"

text \<open>One turn of the task once \<open>xEventGroupWaitBits\<close> has returned; the bits are cleared.\<close>

definition run_fsm_task ::
  "'s sys_lib \<Rightarrow> 'w run_env \<Rightarrow> (nat \<Rightarrow> bool) \<Rightarrow> ('s, 'w) fsm \<Rightarrow> ('s, 'w) fsm option" where
  "run_fsm_task sl run cancel b =
     (let run_request = sy_run_bit (bf_sys b);
          b = b\<lparr>bf_connected := False, bf_sys := (bf_sys b)\<lparr>sy_run_bit := False\<rparr>\<rparr>
      in if run_request then run_job sl run cancel b
         else case begin_auto_run sl (bf_sys b) of (started, s) \<Rightarrow>
           if \<not> started then Some (show_auto_run_refused sl (b\<lparr>bf_sys := s\<rparr>))
           else run_job sl run cancel (b\<lparr>bf_sys := s\<rparr>))"

section \<open>Pins stay armed and locks balanced\<close>

text \<open>
  \<open>armed\<close>: either the debounce timer is going to look at the pins, or every pin in use has its interrupt enabled for the
  level opposite to the one last seen, so that no change can be missed. \<open>deaf\<close>: no timer is pending and no pin can
  interrupt.
\<close>

definition armed :: "bool \<Rightarrow> ('s, 'w) fsm \<Rightarrow> bool" where
  "armed has_plug b \<longleftrightarrow>
     bf_timer b \<or>
     (bf_intr b DET_IO_PIN \<and> bf_wake_high b DET_IO_PIN = (\<not> bf_last_det_state b) \<and>
      (has_plug \<longrightarrow> bf_intr b PLUG_DET_PIN \<and> bf_wake_high b PLUG_DET_PIN = (\<not> bf_usb_powered b)))"

definition deaf :: "bool \<Rightarrow> ('s, 'w) fsm \<Rightarrow> bool" where
  "deaf has_plug b \<longleftrightarrow> \<not> bf_timer b \<and> \<not> bf_intr b DET_IO_PIN \<and> (has_plug \<longrightarrow> \<not> bf_intr b PLUG_DET_PIN)"

text \<open>
  The USB lock is held exactly on USB power, or always when there is no plug-detect pin. A connect edge is only pending
  while the target is plugged in.
\<close>

definition io_balanced :: "bool \<Rightarrow> ('s, 'w) fsm \<Rightarrow> bool" where
  "io_balanced has_plug b \<longleftrightarrow>
     bf_usb_lock b = (if has_plug then (if bf_usb_powered b then 1 else 0) else 1) \<and>
     (bf_connected b \<longrightarrow> \<not> bf_last_det_state b)"

definition io_inv :: "bool \<Rightarrow> ('s, 'w) fsm \<Rightarrow> bool" where
  "io_inv has_plug b \<longleftrightarrow> armed has_plug b \<and> io_balanced has_plug b"

text \<open>
  What can happen to the pins: an interrupt of a pin that is enabled, with the answer of the timer service; the timeout of
  a pending timer, with the levels it reads; the programming task picking up a connect edge.
\<close>

datatype io_event = Io_isr bool | Io_debounce bool bool | Io_wait

fun io_step :: "bool \<Rightarrow> io_event \<Rightarrow> ('s, 'w) fsm \<Rightarrow> ('s, 'w) fsm" where
  "io_step has_plug (Io_isr started) b = io_isr_handler has_plug started b"
| "io_step has_plug (Io_debounce det plug) b = io_debounce_handler has_plug det plug b"
| "io_step has_plug Io_wait b = b\<lparr>bf_connected := False\<rparr>"

fun io_possible :: "bool \<Rightarrow> io_event \<Rightarrow> ('s, 'w) fsm \<Rightarrow> bool" where
  "io_possible has_plug (Io_isr started) b \<longleftrightarrow> bf_intr b DET_IO_PIN \<or> (has_plug \<and> bf_intr b PLUG_DET_PIN)"
| "io_possible has_plug (Io_debounce det plug) b \<longleftrightarrow> bf_timer b"
| "io_possible has_plug Io_wait b \<longleftrightarrow> True"

inductive io_run :: "bool \<Rightarrow> io_event list \<Rightarrow> ('s, 'w) fsm \<Rightarrow> ('s, 'w) fsm \<Rightarrow> bool" for has_plug :: bool where
  io_run_Nil: "io_run has_plug [] b b"
| io_run_Cons: "io_possible has_plug e b \<Longrightarrow> io_run has_plug es (io_step has_plug e b) b' \<Longrightarrow> io_run has_plug (e # es) b b'"

inductive_simps io_run_simps:
  "io_run has_plug [] b b'"
  "io_run has_plug (e # es) b b'"

lemmas io_defs = io_inv_def armed_def deaf_def io_balanced_def io_isr_handler_def io_debounce_handler_def
  update_target_detect_def update_usb_power_def arm_io_pin_def Let_def

lemma io_step_balanced: "io_balanced has_plug b \<Longrightarrow> io_balanced has_plug (io_step has_plug e b)"
  by (cases e) (auto simp: io_defs)

text \<open>The pins stay armed under every event but an interrupt whose timer does not start.\<close>

lemma io_step_armed:
  "armed has_plug b \<Longrightarrow> e \<noteq> Io_isr False \<Longrightarrow> armed has_plug (io_step has_plug e b)"
  by (cases e) (auto simp: io_defs)

lemma lost_start: "armed has_plug (io_isr_handler has_plug False b) \<longleftrightarrow> bf_timer b"
  "\<not> bf_timer b \<Longrightarrow> deaf has_plug (io_isr_handler has_plug False b)"
  by (auto simp: io_defs)

lemma deaf_step: "deaf has_plug b \<Longrightarrow> io_possible has_plug e b \<Longrightarrow> e = Io_wait \<and> deaf has_plug (io_step has_plug e b)"
  by (cases e) (auto simp: io_defs)

text \<open>A device that has lost the start of its timer never looks at its pins again.\<close>

lemma deaf_forever: "io_run has_plug es b b' \<Longrightarrow> deaf has_plug b \<Longrightarrow> set es \<subseteq> {Io_wait} \<and> deaf has_plug b'"
  by (induction rule: io_run.induct) (auto dest: deaf_step)

lemma armed_not_deaf: "armed has_plug b \<Longrightarrow> \<not> deaf has_plug b"
  by (auto simp: armed_def deaf_def)

lemma io_run_inv:
  assumes "io_run has_plug es b b'" and "io_balanced has_plug b" and "armed has_plug b \<or> deaf has_plug b"
  shows "io_balanced has_plug b' \<and> (armed has_plug b' \<or> deaf has_plug b') \<and>
     (Io_isr False \<notin> set es \<and> armed has_plug b \<longrightarrow> armed has_plug b')"
  using assms
proof (induction rule: io_run.induct)
  case (io_run_Cons e b es b')
  have "armed has_plug (io_step has_plug e b) \<or> deaf has_plug (io_step has_plug e b)"
    using io_run_Cons.prems(2) io_step_armed [of has_plug b e] lost_start [where b = b and has_plug = has_plug] deaf_step io_run_Cons.hyps(1)
    by (cases "e = Io_isr False") auto
  with io_run_Cons io_step_balanced [OF io_run_Cons.prems(1)] io_step_armed [of has_plug b e] show ?case by auto
qed auto

definition fresh :: "('s, 'w) fsm \<Rightarrow> bool" where
  "fresh b \<longleftrightarrow> bf_usb_lock b = 0 \<and> \<not> bf_usb_powered b \<and> \<not> bf_connected b \<and> \<not> bf_timer b"

lemma setup_io_inv:
  assumes "fresh b" and "and_then (setup_pm_locks bo b) (setup_io_pins bo) = (ESP_OK, b')"
  shows "io_inv (bo_has_plug bo) b' \<and> \<not> bf_connected b'"
proof -
  from assms(2) obtain b1 where pm: "setup_pm_locks bo b = (ESP_OK, b1)"
      and io: "setup_io_pins bo b1 = (ESP_OK, b')" by (auto simp: and_then_OK)
  from pm assms(1) have b1: "bf_usb_lock b1 = (if bo_has_plug bo then 0 else 1)" "\<not> bf_usb_powered b1"
      "\<not> bf_connected b1"
    by (auto simp: setup_pm_locks_def fresh_def Let_def split: if_splits)
  from io b1 show ?thesis
    by (auto simp: setup_io_pins_def io_defs split: if_splits)
qed

lemma io_inv_sys: "io_inv has_plug (b\<lparr>bf_sys := s\<rparr>) = io_inv has_plug b"
  by (simp add: io_inv_def armed_def io_balanced_def)

lemma io_inv_connect:
  "io_inv has_plug b \<Longrightarrow> \<not> bf_last_det_state b \<Longrightarrow> io_inv has_plug (b\<lparr>bf_connected := True\<rparr>)"
  by (simp add: io_inv_def armed_def io_balanced_def)

lemma fsm_init_OK:
  assumes "fsm_init sl bo b = (ESP_OK, b')"
  shows "\<exists>b1 s. and_then (setup_pm_locks bo b) (setup_io_pins bo) = (ESP_OK, b1) \<and>
     b' = (if \<not> bf_last_det_state b1 then b1\<lparr>bf_sys := s, bf_connected := True\<rparr> else b1\<lparr>bf_sys := s\<rparr>)"
proof -
  obtain r b1 where p: "and_then (setup_pm_locks bo b) (setup_io_pins bo) = (r, b1)" by fastforce
  have r: "r = ESP_OK"
    using assms p by (simp add: fsm_init_def Let_def check_def split: if_split_asm)
  have st: "setup_storage bo = ESP_OK"
    using assms p r by (simp add: fsm_init_def Let_def split: if_split_asm)
  obtain e l where log: "log_init (bo_log_mount bo) (bo_log_alloc bo) (bo_log_store bo) = (e, l)" by fastforce
  have "l \<noteq> None"
    using assms p r st log
    by (auto simp: fsm_init_def Let_def log_init_def split: if_split_asm)
  then obtain log' where l: "l = Some log'" by blast
  obtain e' c where jc: "jc_init sl (bo_nvs bo) (bo_mutex bo) (nvs_after_setup bo (sy_nvs (bf_sys b1)))
      (sy_ctrl (bf_sys b1)) = (e', c)" by fastforce
  show ?thesis
    using assms p r st log l jc
    by (simp add: fsm_init_def Let_def split: if_split_asm) (rule exI, erule sym)+
qed

lemma fsm_init_inv:
  assumes "fresh b" and "fsm_init sl bo b = (ESP_OK, b')"
  shows "io_inv (bo_has_plug bo) b'"
proof -
  from fsm_init_OK [OF assms(2)] obtain b1 s where
    s: "and_then (setup_pm_locks bo b) (setup_io_pins bo) = (ESP_OK, b1)"
    and b': "b' = (if \<not> bf_last_det_state b1 then b1\<lparr>bf_sys := s, bf_connected := True\<rparr> else b1\<lparr>bf_sys := s\<rparr>)"
    by blast
  from setup_io_inv [OF assms(1) s] have "io_inv (bo_has_plug bo) b1" by simp
  then show ?thesis unfolding b' by (simp add: io_inv_sys io_inv_connect)
qed

section \<open>Interleaving of the tasks\<close>

text \<open>
  The points at which the tasks can be interrupted by each other: the locked sections of the job
  controller, setting an event bit, and the end of a run. \<open>cs_signal\<close> is the service task between
  claiming a run and setting its bit; \<open>cs_runs\<close> are the records handed to the log so far.
\<close>

datatype prog_pc = P_waiting | P_woken | P_running | P_recording esp_err | P_clearing

record 's conc =
  cs_sys :: "'s sys"
  cs_connected :: bool
  cs_signal :: bool
  cs_prog :: prog_pc
  cs_runs :: "run_record list"

datatype service_op =
    Sv_set_job asset_env nvs_env bytes trigger
  | Sv_commit io_env
  | Sv_begin io_env string u32 bytes
  | Sv_write io_env u32 bytes
  | Sv_cancel u32
  | Sv_ack u64
  | Sv_time u64 u64

definition on_store :: "(store_state \<Rightarrow> store_state) \<Rightarrow> 's sys \<Rightarrow> 's sys" where
  "on_store f s = (case f (sy_store s, sy_files s) of (st, files) \<Rightarrow> s\<lparr>sy_store := st, sy_files := files\<rparr>)"

fun service_step :: "'s sys_lib \<Rightarrow> service_op \<Rightarrow> 's sys \<Rightarrow> 's sys" where
  "service_step sl (Sv_set_job env nv sha256 t) s = snd (set_job sl env nv sha256 t s)"
| "service_step sl (Sv_commit env) s = snd (commit_asset sl env s)"
| "service_step sl (Sv_begin env name sz sha256) s =
     on_store (\<lambda>st. snd (begin_upload env (lib_sha (sl_lib sl)) name sz sha256 st)) s"
| "service_step sl (Sv_write env offset data) s = on_store (\<lambda>st. snd (write_upload env offset data st)) s"
| "service_step sl (Sv_cancel run_id) s = s\<lparr>sy_ctrl := cancel_run run_id (sy_ctrl s)\<rparr>"
| "service_step sl (Sv_ack i) s = s\<lparr>sy_log := snd (log_ack (sl_rstore sl) i (sy_log s))\<rparr>"
| "service_step sl (Sv_time now utc) s = s\<lparr>sy_log := snd (set_time (sl_rstore sl) now utc (sy_log s))\<rparr>"

inductive cstep :: "'s sys_lib \<Rightarrow> 's conc \<Rightarrow> 's conc \<Rightarrow> bool" for sl :: "'s sys_lib" where
  cs_service: "\<not> cs_signal c \<Longrightarrow> cstep sl c (c\<lparr>cs_sys := service_step sl op (cs_sys c)\<rparr>)"
| cs_request: "\<not> cs_signal c \<Longrightarrow> request_run_locked sl (cs_sys c) = (Inr run_id, s') \<Longrightarrow>
     cstep sl c (c\<lparr>cs_sys := s', cs_signal := True\<rparr>)"
| cs_set_bit: "cs_signal c \<Longrightarrow>
     cstep sl c (c\<lparr>cs_sys := (cs_sys c)\<lparr>sy_run_bit := True\<rparr>, cs_signal := False\<rparr>)"
| cs_target: "cstep sl c (c\<lparr>cs_connected := b\<rparr>)"
| cs_wake_run: "cs_prog c = P_waiting \<Longrightarrow> sy_run_bit (cs_sys c) \<Longrightarrow>
     cstep sl c (c\<lparr>cs_sys := (cs_sys c)\<lparr>sy_run_bit := False\<rparr>, cs_connected := False, cs_prog := P_running\<rparr>)"
| cs_wake_connect: "cs_prog c = P_waiting \<Longrightarrow> \<not> sy_run_bit (cs_sys c) \<Longrightarrow> cs_connected c \<Longrightarrow>
     cstep sl c (c\<lparr>cs_connected := False, cs_prog := P_woken\<rparr>)"
| cs_claim: "cs_prog c = P_woken \<Longrightarrow> begin_auto_run sl (cs_sys c) = (started, s') \<Longrightarrow>
     cstep sl c (c\<lparr>cs_sys := s', cs_prog := (if started then P_running else P_waiting)\<rparr>)"
| cs_end: "cs_prog c = P_running \<Longrightarrow>
     cstep sl c (c\<lparr>cs_sys := (cs_sys c)\<lparr>sy_ctrl := finish_result ret failed dur (sy_ctrl (cs_sys c))\<rparr>,
                   cs_prog := P_recording ret\<rparr>)"
| cs_record: "cs_prog c = P_recording ret \<Longrightarrow>
     cstep sl c (c\<lparr>cs_sys := record_run sl ret (cs_sys c), cs_prog := P_clearing,
                   cs_runs := cs_runs c @ [run_record_of sl ret (cs_sys c)]\<rparr>)"
| cs_clear: "cs_prog c = P_clearing \<Longrightarrow>
     cstep sl c (c\<lparr>cs_sys := (cs_sys c)\<lparr>sy_ctrl := finish_clear (sy_ctrl (cs_sys c))\<rparr>, cs_prog := P_waiting\<rparr>)"

text \<open>After start-up: nothing is running, no run has been given an id, no bit is pending.\<close>

definition conc_start :: "'s conc \<Rightarrow> bool" where
  "conc_start c \<longleftrightarrow> \<not> jc_running (sy_ctrl (cs_sys c)) \<and> jc_last_run_id (sy_ctrl (cs_sys c)) = 0 \<and>
     \<not> sy_run_bit (cs_sys c) \<and> \<not> cs_signal c \<and> cs_prog c = P_waiting \<and> cs_runs c = [] \<and>
     upload_inv (sy_store (cs_sys c), sy_files (cs_sys c))"

inductive reachable :: "'s sys_lib \<Rightarrow> 's conc \<Rightarrow> 's conc \<Rightarrow> bool" for sl :: "'s sys_lib" and c0 :: "'s conc" where
  reach_start: "reachable sl c0 c0"
| reach_step: "reachable sl c0 c \<Longrightarrow> cstep sl c c' \<Longrightarrow> reachable sl c0 c'"

text \<open>
  Whenever a run is in progress exactly one task is responsible for it: the service task about to
  set the bit, the bit itself, or the programming task. Records carry the ids 1, 2, 3, and so on.
\<close>

definition in_run :: "prog_pc \<Rightarrow> bool" where
  "in_run pc \<longleftrightarrow> pc \<noteq> P_waiting \<and> pc \<noteq> P_woken"

definition claims :: "'s conc \<Rightarrow> nat" where
  "claims c = (if cs_signal c then 1 else 0) + (if sy_run_bit (cs_sys c) then 1 else 0) +
     (if in_run (cs_prog c) then 1 else 0)"

definition run_ids :: "run_record list \<Rightarrow> u32 list" where
  "run_ids rs = map (\<lambda>r. res_run_id (rec_result r)) rs"

definition conc_inv :: "'s conc \<Rightarrow> bool" where
  "conc_inv c \<longleftrightarrow>
     claims c = (if jc_running (sy_ctrl (cs_sys c)) then 1 else 0) \<and>
     jc_last_run_id (sy_ctrl (cs_sys c)) = of_nat (length (cs_runs c) +
       (if jc_running (sy_ctrl (cs_sys c)) \<and> cs_prog c \<noteq> P_clearing then 1 else 0)) \<and>
     (\<forall>ret. cs_prog c = P_recording ret \<longrightarrow>
        res_run_id (jc_last_result (sy_ctrl (cs_sys c))) = jc_last_run_id (sy_ctrl (cs_sys c))) \<and>
     run_ids (cs_runs c) = map of_nat [1..<Suc (length (cs_runs c))] \<and>
     upload_inv (sy_store (cs_sys c), sy_files (cs_sys c))"

lemma service_step_ctrl:
  "jc_running (sy_ctrl (service_step sl op s)) = jc_running (sy_ctrl s)"
  "jc_last_run_id (sy_ctrl (service_step sl op s)) = jc_last_run_id (sy_ctrl s)"
  "jc_last_result (sy_ctrl (service_step sl op s)) = jc_last_result (sy_ctrl s)"
  "sy_run_bit (service_step sl op s) = sy_run_bit s"
  by (cases op; auto simp: set_job_def commit_asset_def on_store_def cancel_run_def Let_def split: prod.splits)+

lemma set_job_upload_inv:
  assumes "upload_inv (sy_store s, sy_files s)"
  shows "upload_inv (sy_store (snd (set_job sl env nv sha256 t s)), sy_files (snd (set_job sl env nv sha256 t s)))"
proof -
  obtain r a files where act: "activate_staged (sl_lib sl) env sha256 (sy_assets s, sy_files s) = (r, (a, files))"
    by (metis surj_pair)
  have "files (part_path n) = sy_files s (part_path n)" for n
    using activate_staged_frame [of "part_path n" "sl_lib sl" env sha256 "sy_assets s" "sy_files s"] act by simp
  then have "upload_inv (sy_store s, files)" using assms by (blast intro: upload_inv_frame)
  with assms act show ?thesis by (auto simp: set_job_def Let_def split: prod.splits)
qed

lemma service_step_upload_inv:
  assumes "upload_inv (sy_store s, sy_files s)"
  shows "upload_inv (sy_store (service_step sl op s), sy_files (service_step sl op s))"
proof (cases op)
  case (Sv_set_job env nv sha256 t)
  with set_job_upload_inv [OF assms] show ?thesis by simp
next
  case (Sv_commit env)
  with commit_upload_inv [OF assms, of env "lib_sha (sl_lib sl)"] assms show ?thesis
    by (auto simp: commit_asset_def split: prod.splits)
next
  case (Sv_begin env name sz sha256)
  with begin_upload_inv [OF assms, of env "lib_sha (sl_lib sl)" name sz sha256] show ?thesis
    by (auto simp: on_store_def split: prod.splits)
next
  case (Sv_write env offset data)
  with write_upload_inv [OF assms, of env offset data] show ?thesis
    by (auto simp: on_store_def split: prod.splits)
qed (use assms in simp_all)

lemma conc_inv_start: "conc_start c \<Longrightarrow> conc_inv c"
  by (auto simp: conc_start_def conc_inv_def claims_def in_run_def run_ids_def)

lemma request_run_locked_Inr:
  assumes "request_run_locked sl s = (Inr run_id, s')"
  shows "\<not> jc_running (sy_ctrl s) \<and> am_job (sy_assets s) \<noteq> None \<and>
     check_space (sl_rstore sl) (sl_pb sl) (sy_log s) = ESP_OK \<and>
     s' = s\<lparr>sy_ctrl := start_run_locked TRIGGER_MANUAL (sy_ctrl s)\<rparr>"
  using assms by (auto simp: request_run_locked_def Let_def ERR_RUNNING_def split: if_splits)

lemma begin_auto_run_cases:
  assumes "begin_auto_run sl s = (started, s')"
  shows "if started then \<not> jc_running (sy_ctrl s) \<and> am_job (sy_assets s) \<noteq> None \<and>
       check_space (sl_rstore sl) (sl_pb sl) (sy_log s) = ESP_OK \<and>
       s' = s\<lparr>sy_ctrl := start_run_locked TRIGGER_AUTO_ON_DETECT (sy_ctrl s)\<rparr>
     else s' = s"
  using assms by (auto simp: begin_auto_run_def split: if_splits)

lemmas conc_defs = conc_inv_def claims_def in_run_def

lemma conc_inv_step:
  assumes "cstep sl c c'" and "conc_inv c"
  shows "conc_inv c'"
  using assms
proof (induction rule: cstep.induct)
  case (cs_service c op)
  then show ?case by (simp add: conc_defs service_step_ctrl service_step_upload_inv)
next
  case (cs_request c run_id s')
  with request_run_locked_Inr [OF cs_request(2)] show ?case
    by (auto simp: conc_defs start_run_locked_def split: if_splits)
next
  case (cs_claim c started s')
  note auto = begin_auto_run_cases [OF cs_claim(2)]
  show ?case
  proof (cases started)
    case True
    with auto have s': "s' = (cs_sys c)\<lparr>sy_ctrl := start_run_locked TRIGGER_AUTO_ON_DETECT (sy_ctrl (cs_sys c))\<rparr>"
        and idle: "\<not> jc_running (sy_ctrl (cs_sys c))" by simp_all
    from cs_claim(3,1) idle show ?thesis
      unfolding s' by (simp add: conc_defs start_run_locked_def True split: if_split_asm)
  next
    case False
    with auto have s': "s' = cs_sys c" by simp
    from cs_claim(3,1) show ?thesis unfolding s' by (simp add: conc_defs False)
  qed
next
  case (cs_end c ret failed dur)
  then show ?case by (auto simp: conc_defs finish_result_def split: if_splits)
next
  case (cs_record c ret)
  then show ?case
    by (auto simp: conc_defs record_run_def run_ids_def run_record_of_def split: if_splits)
next
  case (cs_clear c)
  then show ?case by (auto simp: conc_defs finish_clear_def split: if_splits)
qed (auto simp: conc_defs split: if_splits)

lemma conc_inv_reachable: "reachable sl c0 c \<Longrightarrow> conc_start c0 \<Longrightarrow> conc_inv c"
  by (induction rule: reachable.induct) (auto intro: conc_inv_start conc_inv_step)

definition not_part :: "path \<Rightarrow> bool" where
  "not_part p \<longleftrightarrow> (\<forall>name. is_valid_name name \<longrightarrow> p \<noteq> part_path name)"

lemma service_step_running:
  assumes "jc_running (sy_ctrl s)" and "upload_inv (sy_store s, sy_files s)"
  shows "sy_assets (service_step sl op s) = sy_assets s \<and>
     jc_trigger (sy_ctrl (service_step sl op s)) = jc_trigger (sy_ctrl s) \<and>
     (not_part p \<longrightarrow> sy_files (service_step sl op s) p = sy_files s p)"
proof (cases op)
  case (Sv_begin env name sz sha256)
  with begin_upload_frame [OF assms(2), of p env "lib_sha (sl_lib sl)" name sz sha256] show ?thesis
    by (auto simp: on_store_def not_part_def split: prod.splits)
next
  case (Sv_write env offset data)
  with write_upload_frame [OF assms(2), of p env offset data] show ?thesis
    by (auto simp: on_store_def not_part_def split: prod.splits)
qed (use assms in \<open>simp_all add: set_job_running commit_asset_running cancel_run_def\<close>)

lemma cstep_running_frame:
  assumes "cstep sl c c'" and "jc_running (sy_ctrl (cs_sys c))"
    and "upload_inv (sy_store (cs_sys c), sy_files (cs_sys c))"
  shows "sy_assets (cs_sys c') = sy_assets (cs_sys c) \<and>
     (not_part p \<longrightarrow> sy_files (cs_sys c') p = sy_files (cs_sys c) p)"
  using assms
proof (induction rule: cstep.induct)
  case (cs_service c op)
  then show ?case using service_step_running [of "cs_sys c" sl op p] by simp
next
  case (cs_request c run_id s')
  then show ?case using request_run_locked_Inr [OF cs_request(2)] by simp
next
  case (cs_claim c started s')
  then show ?case using begin_auto_run_cases [OF cs_claim(2)] by (simp split: if_split_asm)
qed (simp_all add: record_run_def)

text \<open>A claimed run can always be brought to its end by steps of the tasks responsible for it.\<close>

lemma reach_first:
  assumes "cstep sl c c1" and "reachable sl c1 c'" shows "reachable sl c c'"
  using assms(2)
  by (induction rule: reachable.induct) (use assms(1) in \<open>auto intro: reachable.intros\<close>)

definition completable :: "'s sys_lib \<Rightarrow> nat \<Rightarrow> 's conc \<Rightarrow> bool" where
  "completable sl n c \<longleftrightarrow>
     (\<exists>c'. reachable sl c c' \<and> \<not> jc_running (sy_ctrl (cs_sys c')) \<and> length (cs_runs c') = n)"

lemma completable_step: "cstep sl c c1 \<Longrightarrow> completable sl n c1 \<Longrightarrow> completable sl n c"
  unfolding completable_def using reach_first by blast

lemma completable_clearing:
  assumes "cs_prog c = P_clearing" and "n = length (cs_runs c)" shows "completable sl n c"
  by (rule completable_step [OF cs_clear [OF assms(1)]])
    (use assms(2) in \<open>auto simp: completable_def finish_clear_def intro!: exI reach_start\<close>)

lemma completable_recording:
  assumes "cs_prog c = P_recording ret" and "n = Suc (length (cs_runs c))" shows "completable sl n c"
  by (rule completable_step [OF cs_record [OF assms(1)]], rule completable_clearing)
    (simp_all add: assms(2))

lemma completable_running:
  assumes "cs_prog c = P_running" and "n = Suc (length (cs_runs c))" shows "completable sl n c"
  by (rule completable_step [OF cs_end [OF assms(1), of sl ESP_OK DONE 0]], rule completable_recording)
    (simp_all add: assms(2))

lemma completable_waiting:
  assumes "cs_prog c = P_waiting" and "sy_run_bit (cs_sys c)" and "n = Suc (length (cs_runs c))"
  shows "completable sl n c"
  by (rule completable_step [OF cs_wake_run [OF assms(1,2)]], rule completable_running)
    (simp_all add: assms(3))

lemma completable_woken:
  assumes "cs_prog c = P_woken" and "sy_run_bit (cs_sys c)" and "jc_running (sy_ctrl (cs_sys c))"
    and "n = Suc (length (cs_runs c))"
  shows "completable sl n c"
proof -
  have refused: "begin_auto_run sl (cs_sys c) = (False, cs_sys c)"
    using assms(3) by (simp add: begin_auto_run_def)
  show ?thesis
    by (rule completable_step [OF cs_claim [OF assms(1) refused]], rule completable_waiting)
      (simp_all add: assms(2,4))
qed

lemma completable_bit:
  assumes "\<not> in_run (cs_prog c)" and "sy_run_bit (cs_sys c)" and "jc_running (sy_ctrl (cs_sys c))"
  shows "completable sl (Suc (length (cs_runs c))) c"
  using assms
  by (cases "cs_prog c") (auto simp: in_run_def intro: completable_waiting completable_woken)

lemma completable_inv:
  assumes inv: "conc_inv c" and run: "jc_running (sy_ctrl (cs_sys c))"
  shows "completable sl (length (cs_runs c) + (if cs_prog c = P_clearing then 0 else 1)) c"
proof (cases "in_run (cs_prog c)")
  case True
  then show ?thesis
    by (cases "cs_prog c")
      (auto simp: in_run_def intro: completable_clearing completable_recording completable_running)
next
  case False
  then have nc: "cs_prog c \<noteq> P_clearing" by (auto simp: in_run_def)
  show ?thesis
  proof (cases "cs_signal c")
    case True
    let ?c = "c\<lparr>cs_sys := (cs_sys c)\<lparr>sy_run_bit := True\<rparr>, cs_signal := False\<rparr>"
    from completable_bit [of ?c sl] False run have "completable sl (Suc (length (cs_runs c))) ?c" by simp
    with completable_step [OF cs_set_bit [OF True, of sl]] nc show ?thesis by simp
  next
    case no: False
    with inv run False have "sy_run_bit (cs_sys c)"
      by (auto simp: conc_inv_def claims_def split: if_split_asm)
    with completable_bit [OF False _ run] nc show ?thesis by simp
  qed
qed

lemma clocks_advance_env: "clocks_advance (run_env_of run sl s) = clocks_advance run"
  by (simp add: clocks_advance_def run_env_of_def)

text \<open>
  A run of the programming task always ends: the power lock taken for it is given back, no run
  is in progress and no cancel request is left over, and the run has been recorded, as passed
  exactly when no stage failed.
\<close>

lemma run_job_finishes:
  assumes "clocks_advance run"
  shows "\<exists>b'. run_job sl run cancel b = Some b' \<and> bf_run_lock b' = bf_run_lock b \<and>
     \<not> jc_running (sy_ctrl (bf_sys b')) \<and> \<not> jc_cancel_flag (sy_ctrl (bf_sys b')) \<and>
     (\<exists>ret failed dur. bf_sys b' = finish_run sl ret failed dur (bf_sys b) \<and> (ret = ESP_OK \<longleftrightarrow> failed = DONE))"
proof -
  let ?ru = "run_env_of run sl (bf_sys b)"
  obtain ret f' where r: "run_loop ?ru cancel 0 (fl_init ?ru (bf_flasher b)) = Some (ret, f')"
      and e: "run_ends ?ru cancel 0 (stages ?ru) (fl_init ?ru (bf_flasher b)) ret f'"
    using run_from_init [of ?ru cancel "bf_flasher b"] assms by (auto simp: clocks_advance_env)
  have "DONE \<notin> set (stages ?ru)" by (simp add: stages_def)
  from run_ends_failed [OF e this] r show ?thesis
    by (auto simp: run_job_def Let_def finish_run_def finish_clear_def record_run_def)
qed

section \<open>Properties\<close>

text \<open>
  C34: After a successful start-up and any possible sequence of pin interrupts, debounce timeouts and picked-up connect
  edges, the USB lock is held exactly on USB power (always, without a plug-detect pin), and a connect edge is pending
  only while the target is plugged in. The pins are armed for the next change or the timer is pending, with one
  exception: an interrupt masks the pins whether or not the timer could be started, so that a start that fails while no
  timer is pending leaves the pins deaf, and whatever happens afterwards they stay so.
\<close>

theorem pins_armed_and_lock_balanced:
  assumes "fresh b" and "fsm_init sl bo b = (ESP_OK, b')" and "io_run (bo_has_plug bo) es b' c"
  shows "io_balanced (bo_has_plug bo) c \<and>
     (Io_isr False \<notin> set es \<longrightarrow> armed (bo_has_plug bo) c) \<and>
     (armed (bo_has_plug bo) c \<or> (deaf (bo_has_plug bo) c \<and> (\<forall>es' d. io_run (bo_has_plug bo) es' c d \<longrightarrow> deaf (bo_has_plug bo) d)))"
  using io_run_inv [OF assms(3)] fsm_init_inv [OF assms(1,2)] deaf_forever by (auto simp: io_inv_def)


text \<open>
  C10: While a run is in progress, no step of any task changes the active job, its configuration
  or any file other than the \<open>.part\<close> file of an upload; so the programming task may read them
  without a lock.
\<close>

theorem job_stable_during_run:
  assumes "conc_start c0" and "reachable sl c0 c" and "cstep sl c c'"
    and "jc_running (sy_ctrl (cs_sys c))" and "\<forall>name. is_valid_name name \<longrightarrow> p \<noteq> part_path name"
  shows "sy_assets (cs_sys c') = sy_assets (cs_sys c) \<and> sy_files (cs_sys c') p = sy_files (cs_sys c) p"
  using cstep_running_frame [OF assms(3,4), of p] conc_inv_reachable [OF assms(2,1)] assms(5)
  by (simp add: conc_inv_def not_part_def)

text \<open>
  Once a run has been claimed, whatever the tasks have done so far, it can still be brought to
  its end: no run in progress, and exactly one more record in the log than before (none more if
  only the release of the claim is left).
\<close>

theorem claimed_run_completable:
  assumes "conc_start c0" and "reachable sl c0 c" and "jc_running (sy_ctrl (cs_sys c))"
  shows "\<exists>c'. reachable sl c c' \<and> \<not> jc_running (sy_ctrl (cs_sys c')) \<and>
     length (cs_runs c') = length (cs_runs c) + (if cs_prog c = P_clearing then 0 else 1)"
  using completable_inv [OF conc_inv_reachable [OF assms(2,1)] assms(3)] unfolding completable_def .

section \<open>A concrete device\<close>

definition sample_boot :: "list_store boot_env" where
  "sample_boot = \<lparr>bo_has_plug = True, bo_display = ESP_OK, bo_composer = ESP_OK, bo_led = ESP_OK,
     bo_evt_group = True, bo_timer = True, bo_pm_run = ESP_OK, bo_pm_usb = ESP_OK, bo_pm_acquire = ESP_OK,
     bo_gpio_config = ESP_OK, bo_isr_det = ESP_OK, bo_isr_plug = ESP_OK, bo_gpio_wakeup = ESP_OK,
     bo_det_level = False, bo_plug_level = True, bo_nvs_init = ESP_OK, bo_nvs_erase = ESP_OK,
     bo_nvs_init2 = ESP_OK, bo_mount = ESP_OK, bo_log_mount = ESP_OK, bo_log_alloc = True,
     bo_log_store = (ESP_OK, []), bo_dir_entries = [''job.pb''], bo_assets = sample_asset_env,
     bo_nvs = nvs_works, bo_mutex = True, bo_tinyusb = ESP_OK, bo_sidp = ESP_OK, bo_task = True\<rparr>"

definition sample_fsm :: "(list_store, int) fsm" where
  "sample_fsm = \<lparr>bf_sys = sample_sys, bf_flasher = sample_flasher, bf_connected = False,
     bf_last_det_state = False, bf_usb_powered = False, bf_run_lock = 0, bf_usb_lock = 0,
     bf_intr = (\<lambda>_. False), bf_wake_high = (\<lambda>_. False), bf_timer = False, bf_ui = []\<rparr>"

lemma sample_fsm_boots: "\<exists>b. fsm_init sample_sys_lib sample_boot sample_fsm = (ESP_OK, b)"
  by (simp add: fsm_init_def sample_boot_def Let_def setup_pm_locks_def setup_io_pins_def setup_storage_def
      setup_usb_def log_init_def jc_init_def ESP_ERR_NVS_NO_FREE_PAGES_def ESP_ERR_NVS_NEW_VERSION_FOUND_def)

text \<open>A target is plugged in: an interrupt, its timeout, and an interrupt whose timer does not start.\<close>

lemma sample_io_run:
  assumes "fsm_init sample_sys_lib sample_boot sample_fsm = (ESP_OK, b)"
  shows "\<exists>c. io_run True [Io_isr True, Io_debounce True False, Io_isr False] b c \<and> deaf True c"
proof -
  have "armed True b" using fsm_init_inv [OF _ assms] by (simp add: fresh_def sample_fsm_def io_inv_def sample_boot_def)
  moreover have "\<not> bf_timer b"
    using fsm_init_OK [OF assms]
    by (auto simp: setup_pm_locks_def setup_io_pins_def sample_boot_def sample_fsm_def io_defs check_def and_then_def split: if_splits)
  ultimately have "bf_intr b DET_IO_PIN" by (simp add: armed_def)
  then show ?thesis by (simp add: io_run_simps) (simp add: io_defs)
qed

theorem pins_armed_and_lock_balanced_witness:
  "\<exists>b c. fsm_init sample_sys_lib sample_boot sample_fsm = (ESP_OK, b) \<and>
     io_run True [Io_isr True, Io_debounce True False, Io_isr False] b c \<and> io_balanced True c \<and> \<not> armed True c"
proof -
  obtain b where b: "fsm_init sample_sys_lib sample_boot sample_fsm = (ESP_OK, b)"
    using sample_fsm_boots by blast
  obtain c where c: "io_run True [Io_isr True, Io_debounce True False, Io_isr False] b c" "deaf True c"
    using sample_io_run [OF b] by blast
  have "fresh sample_fsm" "bo_has_plug sample_boot" by (simp_all add: fresh_def sample_fsm_def sample_boot_def)
  with pins_armed_and_lock_balanced [OF _ b, of "[Io_isr True, Io_debounce True False, Io_isr False]" c] c(1)
  have "io_balanced True c" by simp
  with b c armed_not_deaf show ?thesis by blast
qed

text \<open>A system with an active job, and the same system after the host has requested a run.\<close>

definition idle_conc :: "list_store conc" where
  "idle_conc = \<lparr>cs_sys = sample_sys\<lparr>sy_assets := sample_active\<rparr>, cs_connected = False, cs_signal = False,
     cs_prog = P_waiting, cs_runs = []\<rparr>"

definition claimed_conc :: "list_store conc" where
  "claimed_conc = idle_conc\<lparr>cs_sys := snd (request_run_locked sample_sys_lib (cs_sys idle_conc)),
     cs_signal := True\<rparr>"

lemma idle_conc_start: "conc_start idle_conc"
  by (simp add: conc_start_def idle_conc_def sample_sys_def ctrl_boot_def upload_inv_empty)

lemma sample_active_job: "am_job sample_active = Some sample_job"
  using am_init_works [OF _ sample_job_of _ sample_works, of "[JOB_PATH \<mapsto> [7], FIRMWARE_PATH \<mapsto> [8]]" "[7]" boot_assets]
  by (simp add: sample_active_def images_match_def sample_pins sample_paths sample_lib_def publish_def)

lemma claimed_step: "cstep sample_sys_lib idle_conc claimed_conc" "jc_running (sy_ctrl (cs_sys claimed_conc))"
proof -
  have r: "request_run_locked sample_sys_lib (cs_sys idle_conc) =
      (Inr 1, (cs_sys idle_conc)\<lparr>sy_ctrl := start_run_locked TRIGGER_MANUAL ctrl_boot\<rparr>)"
    using sample_active_job
    by (simp add: request_run_locked_def idle_conc_def sample_sys_def ctrl_boot_def sample_sys_lib_def
        check_space_def list_rstore_def start_run_locked_def)
  show "cstep sample_sys_lib idle_conc claimed_conc"
    unfolding claimed_conc_def using cs_request [OF _ r] r by (simp add: idle_conc_def)
  show "jc_running (sy_ctrl (cs_sys claimed_conc))"
    using r by (simp add: claimed_conc_def start_run_locked_def)
qed

lemma claimed_reachable: "reachable sample_sys_lib idle_conc claimed_conc"
  using reach_step [OF reach_start claimed_step(1)] .


theorem job_stable_during_run_witness:
  "\<exists>c'. cstep sample_sys_lib claimed_conc c' \<and>
     sy_assets (cs_sys c') = sy_assets (cs_sys claimed_conc) \<and>
     sy_files (cs_sys c') FIRMWARE_PATH = sy_files (cs_sys claimed_conc) FIRMWARE_PATH"
proof -
  have step: "cstep sample_sys_lib claimed_conc (claimed_conc\<lparr>cs_connected := True\<rparr>)" by (rule cs_target)
  have "FIRMWARE_PATH = data_path ''firmware.bin''" "is_valid_name ''firmware.bin''"
    by (simp_all add: FIRMWARE_PATH_def data_path_def DIR_PREFIX_def is_valid_name_def MAX_NAME_LEN_def
        Let_def has_suffix_def ends_with_def PART_SUFFIX_def allowed_char_def)
  then have "\<forall>name. is_valid_name name \<longrightarrow> FIRMWARE_PATH \<noteq> part_path name"
    by (metis part_path_not_data_path(1))
  from job_stable_during_run [OF idle_conc_start claimed_reachable step claimed_step(2) this] step
  show ?thesis by blast
qed

theorem claimed_run_completable_witness:
  "\<exists>c'. reachable sample_sys_lib claimed_conc c' \<and> \<not> jc_running (sy_ctrl (cs_sys c')) \<and> length (cs_runs c') = 1"
  using claimed_run_completable [OF idle_conc_start claimed_reachable claimed_step(2)]
  by (simp add: claimed_conc_def idle_conc_def)

end
