(* ===== verification/Sidp_Service.thy ===== *)
theory Sidp_Service
  imports Bootstrap_Fsm
begin

unbundle bit_operations_syntax

text \<open>
  \<open>main/comm/sidp_service.cpp\<close>: the management service on the USB port. It receives frames, calls the
  asset store, the job controller or the production log, and answers. The SIDP definitions, the
  transport and the protobuf messages come from \<open>sidp_client\<close>, which is not part of the sources:
  \<open>sidp_lib\<close> holds the layout of the headers, the opcodes and the codecs, \<open>link\<close> the transport's
  operations over a state of its own. The system behind the service is \<open>sys\<close> of \<open>Job_Controller\<close>, so
  that the service can be compared with the service task of \<open>Bootstrap_Fsm\<close>.
\<close>

section \<open>The protocol library as parameters\<close>

datatype status = STATUS_OK | STATUS_ERROR | STATUS_UNSUPPORTED | STATUS_INVALID_ARGUMENT | STATUS_BUSY
  | STATUS_LOG_FULL

datatype opcode = OP_DEVICE_INFO | OP_SET_TIME | OP_ASSET_BEGIN | OP_ASSET_WRITE | OP_ASSET_COMMIT
  | OP_JOB_SET | OP_JOB_GET | OP_JOB_RUN_ONCE | OP_JOB_CANCEL | OP_LOG_READ | OP_LOG_ACK

datatype msg_kind = KIND_REQUEST | KIND_RESPONSE | KIND_NEITHER u8

record msg_header =
  mh_version :: u8
  mh_kind :: msg_kind
  mh_opcode :: u16
  mh_request_id :: u32

record device_info =
  di_serial :: string
  di_firmware_version :: string
  di_storage_total_kb :: u64
  di_storage_free_kb :: u64
  di_log :: log_info

text \<open>
  \<open>lb_read_header\<close> reads the fields of a header, \<open>lb_write_header\<close> overwrites them in the bytes of one;
  \<open>lb_set_crc\<close> is \<open>set_message_crc\<close>. A decoder gives \<open>None\<close> for bytes it rejects, an encoder for a
  message it cannot encode. \<open>lb_opcode\<close> is the number of an opcode.
\<close>

record sidp_lib =
  lb_PROTOCOL_VERSION :: u8
  lb_header_size :: nat
  lb_prefix_size :: nat
  lb_asset_write_size :: nat
  lb_opcode :: "opcode \<Rightarrow> u16"
  lb_read_header :: "bytes \<Rightarrow> msg_header"
  lb_write_header :: "msg_header \<Rightarrow> bytes \<Rightarrow> bytes"
  lb_prefix :: "status \<Rightarrow> bytes"
  lb_set_crc :: "bytes \<Rightarrow> bool \<times> bytes"
  lb_serial_cap :: nat
  lb_version_cap :: nat
  lb_dec_set_time :: "bytes \<Rightarrow> u64 option"
  lb_dec_asset_begin :: "bytes \<Rightarrow> (string \<times> u32 \<times> bytes) option"
  lb_dec_job_set :: "bytes \<Rightarrow> (bytes \<times> trigger) option"
  lb_dec_job_cancel :: "bytes \<Rightarrow> u32 option"
  lb_dec_log_read :: "bytes \<Rightarrow> u64 option"
  lb_dec_log_ack :: "bytes \<Rightarrow> u64 option"
  lb_enc_device_info :: "device_info \<Rightarrow> bytes option"
  lb_enc_asset_begin :: "bool \<times> u32 \<Rightarrow> bytes option"
  lb_enc_job_status :: "job_status \<Rightarrow> bytes option"
  lb_enc_run_once :: "u32 \<Rightarrow> bytes option"

record 't link =
  ln_begin_session :: "'t \<Rightarrow> esp_err \<times> 't"
  ln_close_session :: "'t \<Rightarrow> 't"
  ln_needs_disconnect :: "'t \<Rightarrow> bool \<times> 't"
  ln_start_read :: "'t \<Rightarrow> (esp_err \<times> bytes) \<times> 't"
  ln_end_read :: "bytes \<Rightarrow> 't \<Rightarrow> 't"
  ln_write_message :: "bytes \<Rightarrow> 't \<Rightarrow> esp_err \<times> 't"

text \<open>What the rest of the device answers while a request is served.\<close>

record svc_env =
  se_io :: io_env
  se_assets :: asset_env
  se_nvs :: nvs_env
  se_now_us :: u64
  se_fat_info :: "(u64 \<times> u64) option"
  se_app_version :: string

text \<open>
  The service: of \<open>tx_buf\<close> only the header survives from one response to the next, the rest of a
  response is written before it is sent.
\<close>

record ('s, 't) service =
  sv_serial :: string
  sv_tx_header :: bytes
  sv_sys :: "'s sys"
  sv_link :: 't

definition TX_BUF_SIZE :: nat where "TX_BUF_SIZE = 1024"

definition ERR_LOG_FULL :: esp_err where "ERR_LOG_FULL = ESP_ERR_NO_MEM"

section \<open>Decoding, encoding and status codes\<close>

text \<open>\<open>encode\<close> fails when nanopb does or when the message does not fit into the rest of the buffer.\<close>

definition encode :: "bytes option \<Rightarrow> ostream \<Rightarrow> status \<times> ostream" where
  "encode msg out =
     (case Option.bind msg (\<lambda>b. os_write b out) of
        None \<Rightarrow> (STATUS_ERROR, out)
      | Some out \<Rightarrow> (STATUS_OK, out))"

definition to_status :: "esp_err \<Rightarrow> status" where
  "to_status ret =
     (if ret = ESP_OK then STATUS_OK
      else if ret = ERR_RUNNING then STATUS_BUSY
      else if ret \<in> {ESP_ERR_INVALID_ARG, ESP_ERR_INVALID_SIZE, ESP_ERR_INVALID_CRC, ESP_ERR_NOT_ALLOWED,
                     ESP_ERR_NOT_FOUND} then STATUS_INVALID_ARGUMENT
      else if ret = ESP_ERR_NOT_SUPPORTED then STATUS_UNSUPPORTED
      else STATUS_ERROR)"

section \<open>Operations\<close>

text \<open>Every operation answers a status, the output stream and the system.\<close>

type_synonym 's answer = "status \<times> ostream \<times> 's sys"

definition op_device_info ::
  "sidp_lib \<Rightarrow> 's sys_lib \<Rightarrow> svc_env \<Rightarrow> string \<Rightarrow> ostream \<Rightarrow> 's sys \<Rightarrow> 's answer" where
  "op_device_info lb sl se serial out s =
     (let kb = (case se_fat_info se of None \<Rightarrow> (0, 0) | Some (total_bytes, free_bytes) \<Rightarrow>
                  (total_bytes div 1024, free_bytes div 1024));
          info = \<lparr>di_serial = strlcpy serial (lb_serial_cap lb),
                  di_firmware_version = strlcpy (se_app_version se) (lb_version_cap lb),
                  di_storage_total_kb = fst kb, di_storage_free_kb = snd kb,
                  di_log = get_info (sl_rstore sl) (sl_pb sl) (sy_log s)\<rparr>
      in case encode (lb_enc_device_info lb info) out of (st, out) \<Rightarrow> (st, out, s))"

definition op_set_time ::
  "sidp_lib \<Rightarrow> 's sys_lib \<Rightarrow> svc_env \<Rightarrow> bytes \<Rightarrow> ostream \<Rightarrow> 's sys \<Rightarrow> 's answer" where
  "op_set_time lb sl se payload out s =
     (case lb_dec_set_time lb payload of
        None \<Rightarrow> (STATUS_INVALID_ARGUMENT, out, s)
      | Some utc_ms \<Rightarrow>
          (case set_time (sl_rstore sl) (se_now_us se) utc_ms (sy_log s) of (ret, l) \<Rightarrow>
             (to_status ret, out, s\<lparr>sy_log := l\<rparr>)))"

definition op_asset_begin ::
  "sidp_lib \<Rightarrow> 's sys_lib \<Rightarrow> svc_env \<Rightarrow> bytes \<Rightarrow> ostream \<Rightarrow> 's sys \<Rightarrow> 's answer" where
  "op_asset_begin lb sl se payload out s =
     (case lb_dec_asset_begin lb payload of
        None \<Rightarrow> (STATUS_INVALID_ARGUMENT, out, s)
      | Some (name, len, sha256) \<Rightarrow>
          (case begin_upload (se_io se) (lib_sha (sl_lib sl)) name len sha256 (sy_store s, sy_files s) of
             (r, st, files) \<Rightarrow>
               let s = s\<lparr>sy_store := st, sy_files := files\<rparr> in
               (case r of
                  Inl ret \<Rightarrow> (to_status ret, out, s)
                | Inr response \<Rightarrow>
                    (case encode (lb_enc_asset_begin lb response) out of (st, out) \<Rightarrow> (st, out, s)))))"

text \<open>
  \<open>memcpy\<close> of a 32-bit integer, in the byte order of the chip, and \<open>subspan\<close>. Both are undefined on bytes that are too
  short: \<open>None\<close> is a read past the end.
\<close>

definition le32 :: "bytes \<Rightarrow> u32 option" where
  "le32 b = (if length b < 4 then None else Some (of_nat (foldr (\<lambda>x n. unat x + 256 * n) (take 4 b) 0)))"

definition subspan :: "nat \<Rightarrow> bytes \<Rightarrow> bytes option" where
  "subspan n b = (if length b < n then None else Some (drop n b))"

text \<open>The answer is \<open>None\<close> where the code would read past the payload.\<close>

definition op_asset_write ::
  "sidp_lib \<Rightarrow> svc_env \<Rightarrow> bytes \<Rightarrow> ostream \<Rightarrow> 's sys \<Rightarrow> 's answer option" where
  "op_asset_write lb se payload out s =
     (if length payload \<le> lb_asset_write_size lb then Some (STATUS_INVALID_ARGUMENT, out, s)
      else case (le32 payload, subspan (lb_asset_write_size lb) payload) of
          (Some offset, Some data) \<Rightarrow>
            (case write_upload (se_io se) offset data (sy_store s, sy_files s) of
               (ret, st, files) \<Rightarrow> Some (to_status ret, out, s\<lparr>sy_store := st, sy_files := files\<rparr>))
        | _ \<Rightarrow> None)"

definition op_asset_commit :: "'s sys_lib \<Rightarrow> svc_env \<Rightarrow> ostream \<Rightarrow> 's sys \<Rightarrow> 's answer" where
  "op_asset_commit sl se out s =
     (case commit_asset sl (se_io se) s of (ret, s) \<Rightarrow> (to_status ret, out, s))"

definition op_job_set ::
  "sidp_lib \<Rightarrow> 's sys_lib \<Rightarrow> svc_env \<Rightarrow> bytes \<Rightarrow> ostream \<Rightarrow> 's sys \<Rightarrow> 's answer" where
  "op_job_set lb sl se payload out s =
     (case lb_dec_job_set lb payload of
        None \<Rightarrow> (STATUS_INVALID_ARGUMENT, out, s)
      | Some (sha256, new_trigger) \<Rightarrow>
          (case set_job sl (se_assets se) (se_nvs se) sha256 new_trigger s of (ret, s) \<Rightarrow>
             (to_status ret, out, s)))"

definition op_job_get :: "sidp_lib \<Rightarrow> 's sys_lib \<Rightarrow> ostream \<Rightarrow> 's sys \<Rightarrow> 's answer" where
  "op_job_get lb sl out s =
     (case encode (lb_enc_job_status lb (get_status sl s)) out of (st, out) \<Rightarrow> (st, out, s))"

definition op_job_run_once :: "sidp_lib \<Rightarrow> 's sys_lib \<Rightarrow> ostream \<Rightarrow> 's sys \<Rightarrow> 's answer" where
  "op_job_run_once lb sl out s =
     (case request_run sl s of
        (Inl ret, s) \<Rightarrow> (if ret = ERR_LOG_FULL then STATUS_LOG_FULL else to_status ret, out, s)
      | (Inr run_id, s) \<Rightarrow>
          (case encode (lb_enc_run_once lb run_id) out of (st, out) \<Rightarrow> (st, out, s)))"

definition op_job_cancel :: "sidp_lib \<Rightarrow> bytes \<Rightarrow> ostream \<Rightarrow> 's sys \<Rightarrow> 's answer" where
  "op_job_cancel lb payload out s =
     (case lb_dec_job_cancel lb payload of
        None \<Rightarrow> (STATUS_INVALID_ARGUMENT, out, s)
      | Some run_id \<Rightarrow> (STATUS_OK, out, s\<lparr>sy_ctrl := cancel_run run_id (sy_ctrl s)\<rparr>))"

text \<open>\<open>None\<close> is a read of the log that does not return.\<close>

definition op_log_read ::
  "sidp_lib \<Rightarrow> 's sys_lib \<Rightarrow> bytes \<Rightarrow> ostream \<Rightarrow> 's sys \<Rightarrow> 's answer option" where
  "op_log_read lb sl payload out s =
     (case lb_dec_log_read lb payload of
        None \<Rightarrow> Some (STATUS_INVALID_ARGUMENT, out, s)
      | Some after_id \<Rightarrow>
          map_option (\<lambda>(ret, out). (to_status ret, out, s))
            (log_read (sl_rstore sl) (sl_pb sl) (sy_log s) after_id out))"

definition op_log_ack :: "sidp_lib \<Rightarrow> 's sys_lib \<Rightarrow> bytes \<Rightarrow> ostream \<Rightarrow> 's sys \<Rightarrow> 's answer" where
  "op_log_ack lb sl payload out s =
     (case lb_dec_log_ack lb payload of
        None \<Rightarrow> (STATUS_INVALID_ARGUMENT, out, s)
      | Some up_to_id \<Rightarrow>
          (case log_ack (sl_rstore sl) up_to_id (sy_log s) of (ret, l) \<Rightarrow>
             (to_status ret, out, s\<lparr>sy_log := l\<rparr>)))"

section \<open>Serving requests\<close>

definition dispatch ::
  "sidp_lib \<Rightarrow> 's sys_lib \<Rightarrow> svc_env \<Rightarrow> string \<Rightarrow> u16 \<Rightarrow> bytes \<Rightarrow> ostream \<Rightarrow> 's sys \<Rightarrow> 's answer option" where
  "dispatch lb sl se serial opcode payload out s =
     (if opcode = lb_opcode lb OP_DEVICE_INFO then Some (op_device_info lb sl se serial out s)
      else if opcode = lb_opcode lb OP_SET_TIME then Some (op_set_time lb sl se payload out s)
      else if opcode = lb_opcode lb OP_ASSET_BEGIN then Some (op_asset_begin lb sl se payload out s)
      else if opcode = lb_opcode lb OP_ASSET_WRITE then op_asset_write lb se payload out s
      else if opcode = lb_opcode lb OP_ASSET_COMMIT then Some (op_asset_commit sl se out s)
      else if opcode = lb_opcode lb OP_JOB_SET then Some (op_job_set lb sl se payload out s)
      else if opcode = lb_opcode lb OP_JOB_GET then Some (op_job_get lb sl out s)
      else if opcode = lb_opcode lb OP_JOB_RUN_ONCE then Some (op_job_run_once lb sl out s)
      else if opcode = lb_opcode lb OP_JOB_CANCEL then Some (op_job_cancel lb payload out s)
      else if opcode = lb_opcode lb OP_LOG_READ then op_log_read lb sl payload out s
      else if opcode = lb_opcode lb OP_LOG_ACK then Some (op_log_ack lb sl payload out s)
      else Some (STATUS_UNSUPPORTED, out, s))"

definition prefix_len :: "sidp_lib \<Rightarrow> nat" where
  "prefix_len lb = lb_header_size lb + lb_prefix_size lb"

definition response_bytes :: "sidp_lib \<Rightarrow> msg_header \<Rightarrow> status \<Rightarrow> bytes \<Rightarrow> bytes \<Rightarrow> bytes" where
  "response_bytes lb request st payload tx_header =
     lb_write_header lb \<lparr>mh_version = lb_PROTOCOL_VERSION lb, mh_kind = KIND_RESPONSE,
         mh_opcode = mh_opcode request, mh_request_id = mh_request_id request\<rparr> tx_header @ lb_prefix lb st @ payload"

definition send_response ::
  "sidp_lib \<Rightarrow> 't link \<Rightarrow> msg_header \<Rightarrow> status \<Rightarrow> bytes \<Rightarrow> ('s, 't) service \<Rightarrow> ('s, 't) service" where
  "send_response lb ln request st payload v =
     (case lb_set_crc lb (response_bytes lb request st payload (sv_tx_header v)) of (crc_ok, response) \<Rightarrow>
        let v = v\<lparr>sv_tx_header := take (lb_header_size lb) response\<rparr>
        in if crc_ok then v\<lparr>sv_link := snd (ln_write_message ln response (sv_link v))\<rparr> else v)"

text \<open>\<open>None\<close>: a request that is never answered, or a read past the end of the frame or its payload.\<close>

definition handle_frame ::
  "sidp_lib \<Rightarrow> 't link \<Rightarrow> 's sys_lib \<Rightarrow> svc_env \<Rightarrow> bytes \<Rightarrow> ('s, 't) service \<Rightarrow> ('s, 't) service option" where
  "handle_frame lb ln sl se frame v =
     (case subspan (lb_header_size lb) frame of None \<Rightarrow> None | Some payload \<Rightarrow>
        let header = lb_read_header lb frame in
        if mh_version header \<noteq> lb_PROTOCOL_VERSION lb
        then Some (v\<lparr>sv_link := ln_close_session ln (sv_link v)\<rparr>)
        else if mh_kind header \<noteq> KIND_REQUEST \<or> mh_request_id header = 0 then Some v
        else
          let out = \<lparr>os_bytes = [], os_max = TX_BUF_SIZE - prefix_len lb\<rparr> in
          map_option (\<lambda>(st, out, s).
              send_response lb ln header st (if st = STATUS_OK then os_bytes out else []) (v\<lparr>sv_sys := s\<rparr>))
            (dispatch lb sl se (sv_serial v) (mh_opcode header) payload out (sv_sys v)))"

text \<open>
  The loop over one connection. \<open>env n\<close> is what the device answers during the \<open>n\<close>th turn; \<open>None\<close> is a
  connection that never ends, or a frame that was read past its end.
\<close>

partial_function (option) serve_connection ::
  "sidp_lib \<Rightarrow> 't link \<Rightarrow> 's sys_lib \<Rightarrow> (nat \<Rightarrow> svc_env) \<Rightarrow> nat \<Rightarrow> ('s, 't) service \<Rightarrow> ('s, 't) service option" where
  "serve_connection lb ln sl env n v =
     (case ln_needs_disconnect ln (sv_link v) of (stop, t) \<Rightarrow>
        if stop then Some (v\<lparr>sv_link := t\<rparr>)
        else case ln_start_read ln t of ((ret, frame), t) \<Rightarrow>
          let v = v\<lparr>sv_link := t\<rparr> in
          if ret = ESP_ERR_TIMEOUT then serve_connection lb ln sl env (Suc n) v
          else if ret \<noteq> ESP_OK then Some v
          else case handle_frame lb ln sl (env n) frame v of
              None \<Rightarrow> None
            | Some v \<Rightarrow> serve_connection lb ln sl env (Suc n) (v\<lparr>sv_link := ln_end_read ln frame (sv_link v)\<rparr>))"

text \<open>One turn of \<open>task_handler\<close>: a connection is accepted and served to its end, or not.\<close>

definition task_turn ::
  "sidp_lib \<Rightarrow> 't link \<Rightarrow> 's sys_lib \<Rightarrow> (nat \<Rightarrow> svc_env) \<Rightarrow> ('s, 't) service \<Rightarrow> ('s, 't) service option" where
  "task_turn lb ln sl env v =
     (case ln_begin_session ln (sv_link v) of (ret, t) \<Rightarrow>
        let v = v\<lparr>sv_link := t\<rparr> in
        if ret \<noteq> ESP_OK then Some v
        else map_option (\<lambda>v. v\<lparr>sv_link := ln_close_session ln (sv_link v)\<rparr>) (serve_connection lb ln sl env 0 v))"

text \<open>\<open>init\<close>: the buffer, the transport and the task.\<close>

definition svc_init ::
  "bool \<Rightarrow> esp_err \<Rightarrow> bool \<Rightarrow> string \<Rightarrow> ('s, 't) service \<Rightarrow> esp_err \<times> ('s, 't) service" where
  "svc_init malloc_ok transport_init task_ok serial v =
     (let v = v\<lparr>sv_serial := serial\<rparr> in
      if \<not> malloc_ok then (ESP_ERR_NO_MEM, v)
      else if transport_init \<noteq> ESP_OK then (transport_init, v)
      else if \<not> task_ok then (ESP_ERR_NO_MEM, v)
      else (ESP_OK, v))"

section \<open>Every request is answered once\<close>

text \<open>
  The layout the code relies on: the structures have their fixed sizes, both fit into the buffer, the head of a write
  request holds its 32-bit offset, the fields written to the header of a response are read back from it, and the checksum
  is stored in place, over none of these fields and nothing behind the header.
\<close>

definition sidp_layout :: "sidp_lib \<Rightarrow> bool" where
  "sidp_layout lb \<longleftrightarrow> prefix_len lb \<le> TX_BUF_SIZE \<and>
     (\<forall>h b. length (lb_write_header lb h b) = length b) \<and>
     (\<forall>st. length (lb_prefix lb st) = lb_prefix_size lb) \<and> 4 \<le> lb_asset_write_size lb \<and>
     (\<forall>h b rest. length b = lb_header_size lb \<and> mh_kind h = KIND_RESPONSE \<longrightarrow>
        lb_read_header lb (lb_write_header lb h b @ rest) = h) \<and>
     (\<forall>r. length (snd (lb_set_crc lb r)) = length r \<and> lb_read_header lb (snd (lb_set_crc lb r)) = lb_read_header lb r \<and>
        drop (lb_header_size lb) (snd (lb_set_crc lb r)) = drop (lb_header_size lb) r)"

definition fits :: "ostream \<Rightarrow> bool" where
  "fits out \<longleftrightarrow> length (os_bytes out) \<le> os_max out"

lemma encode_fits:
  "fits out \<Longrightarrow> fits (snd (encode msg out)) \<and> os_max (snd (encode msg out)) = os_max out"
  by (auto simp: encode_def fits_def os_write_def split: option.splits if_splits bind_splits)

text \<open>An answer to a request: what it may do to the output.\<close>

definition answers :: "ostream \<Rightarrow> 's answer \<Rightarrow> bool" where
  "answers out r \<longleftrightarrow> fits (fst (snd r)) \<and> os_max (fst (snd r)) = os_max out"

lemma op_answers:
  assumes "fits out"
  shows "answers out (op_device_info lb sl se serial out s)" "answers out (op_set_time lb sl se payload out s)"
    "answers out (op_asset_begin lb sl se payload out s)"
    "answers out (op_asset_commit sl se out s)" "answers out (op_job_set lb sl se payload out s)"
    "answers out (op_job_get lb sl out s)" "answers out (op_job_run_once lb sl out s)"
    "answers out (op_job_cancel lb payload out s)" "answers out (op_log_ack lb sl payload out s)"
  using assms encode_fits [OF assms]
  by (simp_all add: answers_def op_device_info_def op_set_time_def op_asset_begin_def
      op_asset_commit_def op_job_set_def op_job_get_def op_job_run_once_def op_job_cancel_def op_log_ack_def
      Let_def case_prod_unfold split: option.split sum.split)

definition answered :: "ostream \<Rightarrow> 's answer option \<Rightarrow> bool" where
  "answered out r = (case r of None \<Rightarrow> False | Some r \<Rightarrow> answers out r)"

lemma answered_Some [simp]: "answered out (Some r) = answers out r"
  by (simp add: answered_def)

lemma op_log_read_answers:
  assumes "fits out" "pb_sizes (sl_pb sl)"
  shows "answered out (op_log_read lb sl payload out s)"
proof (cases "lb_dec_log_read lb payload")
  case None
  with assms(1) show ?thesis by (simp add: op_log_read_def answers_def)
next
  case (Some after_id)
  with log_read_returns [OF assms(2), of out "sl_rstore sl" "sy_log s" after_id] assms(1) show ?thesis
    by (auto simp: op_log_read_def answers_def fits_def)
qed

lemma op_asset_write_answers:
  "fits out \<Longrightarrow> 4 \<le> lb_asset_write_size lb \<Longrightarrow> answered out (op_asset_write lb se payload out s)"
  by (simp add: op_asset_write_def le32_def subspan_def answers_def case_prod_unfold)

lemma dispatch_answers:
  assumes "fits out" "pb_sizes (sl_pb sl)" "4 \<le> lb_asset_write_size lb"
  shows "answered out (dispatch lb sl se serial op payload out s)"
  using assms(1)
  by (simp add: dispatch_def op_answers [OF assms(1)] op_log_read_answers [OF assms(1,2)] op_asset_write_answers [OF assms(1,3)])
    (simp add: answers_def)

text \<open>
  What the host takes for the answer to the request with header \<open>request\<close>: a message of the protocol version that fits the
  buffer, is marked as a response, repeats opcode and id of the request, and holds status and payload.
\<close>

definition answer_to :: "sidp_lib \<Rightarrow> msg_header \<Rightarrow> status \<Rightarrow> bytes \<Rightarrow> bytes \<Rightarrow> bool" where
  "answer_to lb request st payload m \<longleftrightarrow>
     length m \<le> TX_BUF_SIZE \<and> mh_version (lb_read_header lb m) = lb_PROTOCOL_VERSION lb \<and>
     mh_kind (lb_read_header lb m) = KIND_RESPONSE \<and> mh_opcode (lb_read_header lb m) = mh_opcode request \<and>
     mh_request_id (lb_read_header lb m) = mh_request_id request \<and>
     drop (lb_header_size lb) m = lb_prefix lb st @ payload"

lemma send_response_once:
  assumes "sidp_layout lb" and "length (sv_tx_header v) = lb_header_size lb"
    and "length payload \<le> TX_BUF_SIZE - prefix_len lb" and "v' = send_response lb ln request st payload v"
  shows "(\<exists>raw crc_ok m. lb_set_crc lb raw = (crc_ok, m) \<and> answer_to lb request st payload m \<and>
      sv_link v' = (if crc_ok then snd (ln_write_message ln m (sv_link v)) else sv_link v)) \<and>
    length (sv_tx_header v') = lb_header_size lb \<and> sv_sys v' = sv_sys v"
proof -
  let ?raw = "response_bytes lb request st payload (sv_tx_header v)"
  obtain crc_ok m where m: "lb_set_crc lb ?raw = (crc_ok, m)" by fastforce
  with assms(1) have keep: "length m = length ?raw" "lb_read_header lb m = lb_read_header lb ?raw"
      "drop (lb_header_size lb) m = drop (lb_header_size lb) ?raw"
    unfolding sidp_layout_def by (metis snd_conv)+
  have "prefix_len lb \<le> TX_BUF_SIZE" using assms(1) by (simp add: sidp_layout_def)
  with assms(3) have "prefix_len lb + length payload \<le> TX_BUF_SIZE" by linarith
  then have "answer_to lb request st payload m"
    using assms(1,2) by (simp add: answer_to_def keep) (simp add: response_bytes_def sidp_layout_def prefix_len_def)
  moreover have "lb_header_size lb \<le> length m"
    using assms(1,2) keep(1) by (simp add: response_bytes_def sidp_layout_def)
  moreover have "v' = (let v = v\<lparr>sv_tx_header := take (lb_header_size lb) m\<rparr>
      in if crc_ok then v\<lparr>sv_link := snd (ln_write_message ln m (sv_link v))\<rparr> else v)"
    by (simp add: assms(4) send_response_def m)
  ultimately show ?thesis using m by (intro conjI exI [of _ ?raw] exI [of _ crc_ok] exI [of _ m]) (simp_all add: Let_def)
qed

lemma handle_request:
  assumes "sidp_layout lb" "pb_sizes (sl_pb sl)" "lb_header_size lb \<le> length frame" and "header = lb_read_header lb frame"
    and "mh_version header = lb_PROTOCOL_VERSION lb" "mh_kind header = KIND_REQUEST" "mh_request_id header \<noteq> 0"
  shows "\<exists>st out s. handle_frame lb ln sl se frame v =
      Some (send_response lb ln header st (if st = STATUS_OK then os_bytes out else []) (v\<lparr>sv_sys := s\<rparr>)) \<and>
    dispatch lb sl se (sv_serial v) (mh_opcode header) (drop (lb_header_size lb) frame)
      \<lparr>os_bytes = [], os_max = TX_BUF_SIZE - prefix_len lb\<rparr> (sv_sys v) = Some (st, out, s) \<and>
    length (os_bytes out) \<le> TX_BUF_SIZE - prefix_len lb"
proof -
  let ?out = "\<lparr>os_bytes = [], os_max = TX_BUF_SIZE - prefix_len lb\<rparr>"
  let ?d = "dispatch lb sl se (sv_serial v) (mh_opcode header) (drop (lb_header_size lb) frame) ?out (sv_sys v)"
  have "answered ?out ?d"
    by (rule dispatch_answers [OF _ assms(2)]) (use assms(1) in \<open>simp_all add: fits_def sidp_layout_def\<close>)
  then obtain st out s where d: "?d = Some (st, out, s)" "answers ?out (st, out, s)"
    by (cases ?d) (auto simp: answered_def)
  then have "length (os_bytes out) \<le> TX_BUF_SIZE - prefix_len lb" by (simp add: answers_def fits_def)
  moreover have "handle_frame lb ln sl se frame v =
      Some (send_response lb ln header st (if st = STATUS_OK then os_bytes out else []) (v\<lparr>sv_sys := s\<rparr>))"
    using assms(3-) d(1) by (simp add: handle_frame_def subspan_def)
  ultimately show ?thesis using d(1) by blast
qed

text \<open>
  C12: A request of the supported version, in a frame that holds at least a header, is served and answered with one message that the host can match to it: the
  header, as it is read back, repeats the opcode and the id of the request and marks a response of the protocol version;
  behind it come the status of the operation and, if that is \<open>STATUS_OK\<close> and only then, the bytes the operation has
  put out; all of it fits the buffer. Whatever the payload of the request, serving it returns and reads nothing past
  its end. The one case without an answer is a checksum that cannot be set: then nothing is written.
\<close>

theorem request_answered_once:
  assumes "sidp_layout lb" "pb_sizes (sl_pb sl)" and "length (sv_tx_header v) = lb_header_size lb"
    and "lb_header_size lb \<le> length frame" and "header = lb_read_header lb frame"
    and "mh_version header = lb_PROTOCOL_VERSION lb" "mh_kind header = KIND_REQUEST" "mh_request_id header \<noteq> 0"
  shows "\<exists>v' st out. handle_frame lb ln sl se frame v = Some v' \<and>
     dispatch lb sl se (sv_serial v) (mh_opcode header) (drop (lb_header_size lb) frame)
       \<lparr>os_bytes = [], os_max = TX_BUF_SIZE - prefix_len lb\<rparr> (sv_sys v) = Some (st, out, sv_sys v') \<and>
     (\<exists>raw crc_ok m. lb_set_crc lb raw = (crc_ok, m) \<and>
        answer_to lb header st (if st = STATUS_OK then os_bytes out else []) m \<and>
        sv_link v' = (if crc_ok then snd (ln_write_message ln m (sv_link v)) else sv_link v)) \<and>
     length (sv_tx_header v') = lb_header_size lb"
proof -
  obtain st s and out :: ostream where h: "handle_frame lb ln sl se frame v =
      Some (send_response lb ln header st (if st = STATUS_OK then os_bytes out else []) (v\<lparr>sv_sys := s\<rparr>))"
    and d: "dispatch lb sl se (sv_serial v) (mh_opcode header) (drop (lb_header_size lb) frame)
       \<lparr>os_bytes = [], os_max = TX_BUF_SIZE - prefix_len lb\<rparr> (sv_sys v) = Some (st, out, s)"
    and len: "length (os_bytes out) \<le> TX_BUF_SIZE - prefix_len lb"
    using handle_request [OF assms(1,2,4-), of ln se v] by blast
  let ?p = "if st = STATUS_OK then os_bytes out else []" let ?v = "v\<lparr>sv_sys := s\<rparr>"
  have "length (sv_tx_header ?v) = lb_header_size lb" "length ?p \<le> TX_BUF_SIZE - prefix_len lb"
    using assms(3) len by simp_all
  note r = conjunct2 [OF send_response_once [OF assms(1) this refl, where request = header and st = st and ln = ln]]
    conjunct1 [OF send_response_once [OF assms(1) this refl, where request = header and st = st and ln = ln]]
  show ?thesis
    by (rule exI [of _ "send_response lb ln header st ?p ?v"], rule exI [of _ st], rule exI [of _ out], intro conjI h)
      (use d r(2) r(1) in \<open>simp_all cong: if_cong split del: if_split\<close>)
qed

text \<open>
  while a run is in progress, a request to commit an asset, to start a run or to set a job with a
  known trigger is answered with \<open>STATUS_BUSY\<close> and changes nothing.
\<close>

theorem busy_during_run:
  assumes "inj (lb_opcode lb)" and "jc_running (sy_ctrl s)"
  shows "dispatch lb sl se serial (lb_opcode lb OP_ASSET_COMMIT) payload out s = Some (STATUS_BUSY, out, s) \<and>
    dispatch lb sl se serial (lb_opcode lb OP_JOB_RUN_ONCE) payload out s = Some (STATUS_BUSY, out, s) \<and>
    (\<forall>sha256 t. lb_dec_job_set lb payload = Some (sha256, t) \<and> (t = TRIGGER_MANUAL \<or> t = TRIGGER_AUTO_ON_DETECT) \<longrightarrow>
       dispatch lb sl se serial (lb_opcode lb OP_JOB_SET) payload out s = Some (STATUS_BUSY, out, s))"
  using assms(2)
  by (auto simp: dispatch_def inj_eq [OF assms(1)] op_asset_commit_def commit_asset_def op_job_run_once_def
      request_run_def request_run_locked_def Let_def ERR_RUNNING_def ERR_LOG_FULL_def to_status_def op_job_set_def set_job_def)

section \<open>The service is the service task of the interleaving\<close>

text \<open>
  A request changes the system by one step of the service task, or by claiming a run and setting its
  bit, or not at all.
\<close>

definition served :: "'s sys_lib \<Rightarrow> 's sys \<Rightarrow> 's sys \<Rightarrow> bool" where
  "served sl s s' \<longleftrightarrow> s' = s \<or> (\<exists>op. s' = service_step sl op s) \<or> (\<exists>run_id. request_run sl s = (Inr run_id, s'))"

lemma served_ops:
  "served sl s (snd (snd (op_device_info lb sl se serial out s)))" "served sl s (snd (snd (op_set_time lb sl se payload out s)))"
  "served sl s (snd (snd (op_asset_commit sl se out s)))" "served sl s (snd (snd (op_job_set lb sl se payload out s)))"
  "served sl s (snd (snd (op_job_get lb sl out s)))" "served sl s (snd (snd (op_job_cancel lb payload out s)))"
  "served sl s (snd (snd (op_log_ack lb sl payload out s)))"
proof -
  show "served sl s (snd (snd (op_device_info lb sl se serial out s)))" "served sl s (snd (snd (op_job_get lb sl out s)))"
    by (simp_all add: served_def op_device_info_def op_job_get_def Let_def case_prod_unfold)
  show "served sl s (snd (snd (op_set_time lb sl se payload out s)))"
    by (cases "lb_dec_set_time lb payload")
      (auto simp: served_def op_set_time_def case_prod_unfold intro: exI [of _ "Sv_time (se_now_us se) _"])
  show "served sl s (snd (snd (op_asset_commit sl se out s)))"
    by (auto simp: served_def op_asset_commit_def case_prod_unfold intro!: exI [of _ "Sv_commit (se_io se)"])
  show "served sl s (snd (snd (op_job_set lb sl se payload out s)))"
    by (cases "lb_dec_job_set lb payload")
      (auto simp: served_def op_job_set_def case_prod_unfold intro: exI [of _ "Sv_set_job (se_assets se) (se_nvs se) _ _"])
  show "served sl s (snd (snd (op_job_cancel lb payload out s)))"
    by (cases "lb_dec_job_cancel lb payload")
      (auto simp: served_def op_job_cancel_def intro: exI [of _ "Sv_cancel _"])
  show "served sl s (snd (snd (op_log_ack lb sl payload out s)))"
    by (cases "lb_dec_log_ack lb payload")
      (auto simp: served_def op_log_ack_def case_prod_unfold intro: exI [of _ "Sv_ack _"])
qed

lemma served_begin: "served sl s (snd (snd (op_asset_begin lb sl se payload out s)))"
proof (cases "lb_dec_asset_begin lb payload")
  case (Some r)
  then show ?thesis
    by (cases r) (auto simp: served_def op_asset_begin_def Let_def case_prod_unfold on_store_def split: sum.split
        intro!: exI [of _ "Sv_begin (se_io se) (fst r) (fst (snd r)) (snd (snd r))"])
qed (simp add: served_def op_asset_begin_def)

lemma served_run: "served sl s (snd (snd (op_job_run_once lb sl out s)))"
proof (cases "request_run sl s")
  case (Pair r s1)
  moreover from Pair have "s1 = s" if "r = Inl e" for e
    using that by (auto simp: request_run_def request_run_locked_def Let_def split: if_splits sum.splits)
  ultimately show ?thesis
    by (cases r) (auto simp: served_def op_job_run_once_def case_prod_unfold)
qed

lemma served_log_read: "pred_option (\<lambda>r. served sl s (snd (snd r))) (op_log_read lb sl payload out s)"
  by (auto simp: served_def op_log_read_def option.pred_set split: option.split)

lemma served_asset_write: "pred_option (\<lambda>r. served sl s (snd (snd r))) (op_asset_write lb se payload out s)"
proof (cases "le32 payload")
  case (Some offset)
  then show ?thesis
    by (auto simp: served_def op_asset_write_def subspan_def case_prod_unfold on_store_def option.pred_set
        intro!: exI [of _ "Sv_write (se_io se) offset (drop (lb_asset_write_size lb) payload)"])
qed (simp add: served_def op_asset_write_def)

lemma dispatch_served:
  assumes "dispatch lb sl se serial op payload out s = Some (st, out', s')"
  shows "served sl s s'"
proof -
  have "served sl s s" by (simp add: served_def)
  then have "pred_option (\<lambda>r. served sl s (snd (snd r))) (dispatch lb sl se serial op payload out s)"
    unfolding dispatch_def by (simp add: served_ops served_begin served_run served_log_read served_asset_write)
  with assms show ?thesis by simp
qed

lemma served_reachable:
  assumes "served sl (cs_sys c) s'" "reachable sl c0 c" "\<not> cs_signal c"
  shows "reachable sl c0 (c\<lparr>cs_sys := s'\<rparr>)"
  using assms(1) unfolding served_def
proof (elim disjE exE)
  assume "s' = cs_sys c"
  with assms(2) show ?thesis by simp
next
  fix op assume "s' = service_step sl op (cs_sys c)"
  with reach_step [OF assms(2) cs_service [OF assms(3)]] show ?thesis by simp
next
  fix i assume "request_run sl (cs_sys c) = (Inr i, s')"
  then obtain s1 where r: "request_run_locked sl (cs_sys c) = (Inr i, s1)" "s' = s1\<lparr>sy_run_bit := True\<rparr>"
    by (auto simp: request_run_def split: sum.splits prod.splits)
  have "c\<lparr>cs_sys := s', cs_signal := False\<rparr> = c\<lparr>cs_sys := s'\<rparr>" using assms(3) by (cases c) simp
  with reach_step [OF reach_step [OF assms(2) cs_request [OF assms(3) r(1)]] cs_set_bit] r(2)
  show ?thesis by simp
qed

text \<open>
  What the service needs of a connection. The transport hands over no frame that is shorter than a header, which the code
  does not check, and the peer leaves at some time: \<open>left t\<close> bounds the number of reads until it does.
\<close>

definition connection_ends :: "sidp_lib \<Rightarrow> 't link \<Rightarrow> ('t \<Rightarrow> nat) \<Rightarrow> bool" where
  "connection_ends lb ln left \<longleftrightarrow>
     (\<forall>t. \<not> fst (ln_needs_disconnect ln t) \<longrightarrow> left (snd (ln_start_read ln (snd (ln_needs_disconnect ln t)))) < left t) \<and>
     (\<forall>t. fst (fst (ln_start_read ln t)) = ESP_OK \<longrightarrow> lb_header_size lb \<le> length (snd (fst (ln_start_read ln t)))) \<and>
     (\<forall>f t. left (ln_end_read ln f t) \<le> left t) \<and> (\<forall>t. left (ln_close_session ln t) \<le> left t) \<and>
     (\<forall>m t. left (snd (ln_write_message ln m t)) \<le> left t)"

definition svc_inv :: "sidp_lib \<Rightarrow> 's sys_lib \<Rightarrow> 's conc \<Rightarrow> 's conc \<Rightarrow> ('s, 't) service \<Rightarrow> bool" where
  "svc_inv lb sl c0 c v \<longleftrightarrow> reachable sl c0 (c\<lparr>cs_sys := sv_sys v\<rparr>) \<and> length (sv_tx_header v) = lb_header_size lb"

lemma handle_frame_inv:
  assumes "sidp_layout lb" "pb_sizes (sl_pb sl)" "connection_ends lb ln left" and "\<not> cs_signal c"
    and "svc_inv lb sl c0 c v" "lb_header_size lb \<le> length frame"
  shows "\<exists>v'. handle_frame lb ln sl se frame v = Some v' \<and> svc_inv lb sl c0 c v' \<and> left (sv_link v') \<le> left (sv_link v)"
proof -
  let ?h = "lb_read_header lb frame"
  show ?thesis
  proof (cases "mh_version ?h = lb_PROTOCOL_VERSION lb \<and> mh_kind ?h = KIND_REQUEST \<and> mh_request_id ?h \<noteq> 0")
    case False
    with assms(3,5,6) show ?thesis
      by (auto simp: handle_frame_def subspan_def Let_def svc_inv_def connection_ends_def)
  next
    case True
    then obtain st out s where h: "handle_frame lb ln sl se frame v =
        Some (send_response lb ln ?h st (if st = STATUS_OK then os_bytes out else []) (v\<lparr>sv_sys := s\<rparr>))"
      and d: "dispatch lb sl se (sv_serial v) (mh_opcode ?h) (drop (lb_header_size lb) frame)
        \<lparr>os_bytes = [], os_max = TX_BUF_SIZE - prefix_len lb\<rparr> (sv_sys v) = Some (st, out, s)"
      and len: "length (os_bytes out) \<le> TX_BUF_SIZE - prefix_len lb"
      using handle_request [OF assms(1,2,6) refl, of ln se v] by blast
    let ?p = "if st = STATUS_OK then os_bytes out else []" let ?v = "v\<lparr>sv_sys := s\<rparr>"
    have "length (sv_tx_header ?v) = lb_header_size lb" "length ?p \<le> TX_BUF_SIZE - prefix_len lb"
      using assms(5) len by (simp_all add: svc_inv_def)
    note r = send_response_once [OF assms(1) this refl, where request = ?h and st = st and ln = ln]
    have "reachable sl c0 ((c\<lparr>cs_sys := sv_sys v\<rparr>)\<lparr>cs_sys := s\<rparr>)"
      by (rule served_reachable) (use dispatch_served [OF d] assms(4,5) in \<open>simp_all add: svc_inv_def\<close>)
    with h r assms(3,5) show ?thesis
      by (auto simp: svc_inv_def connection_ends_def)
  qed
qed

text \<open>
  C11: A connection whose peer leaves at some time, and on which the transport delivers frames that hold at least a
  header, is served to its end, whatever the payloads of the frames, empty ones included: every
  operation returns, and none reads past the payload it is given, which would have no result here. The system is then in
  a state that the interleaved tasks can reach, so what holds there holds for every sequence of requests.
\<close>

theorem serve_connection_refines:
  assumes "sidp_layout lb" "pb_sizes (sl_pb sl)" "connection_ends lb ln left" and "\<not> cs_signal c"
    and "svc_inv lb sl c0 c v"
  shows "\<exists>v'. serve_connection lb ln sl env n v = Some v' \<and> reachable sl c0 (c\<lparr>cs_sys := sv_sys v'\<rparr>)"
proof -
  have "\<exists>v'. serve_connection lb ln sl env n v = Some v' \<and> svc_inv lb sl c0 c v'"
    using assms(5)
  proof (induction "left (sv_link v)" arbitrary: n v rule: less_induct)
    case less
    let ?nd = "ln_needs_disconnect ln (sv_link v)" let ?rd = "ln_start_read ln (snd ?nd)"
    let ?v = "v\<lparr>sv_link := snd ?rd\<rparr>"
    have keep: "svc_inv lb sl c0 c (u\<lparr>sv_link := t\<rparr>) = svc_inv lb sl c0 c u" for u :: "('a, 'b) service" and t
      by (simp add: svc_inv_def)
    show ?case
    proof (cases "fst ?nd \<or> fst (fst ?rd) \<noteq> ESP_OK \<and> fst (fst ?rd) \<noteq> ESP_ERR_TIMEOUT")
      case True
      with less.prems show ?thesis by (subst serve_connection.simps) (auto simp: keep case_prod_unfold Let_def)
    next
      case False
      with assms(3) have dec: "left (snd ?rd) < left (sv_link v)" by (simp add: connection_ends_def)
      have inv: "svc_inv lb sl c0 c ?v" using less.prems by (simp add: keep)
      show ?thesis
      proof (cases "fst (fst ?rd) = ESP_OK")
        case True
        with assms(3) have "lb_header_size lb \<le> length (snd (fst ?rd))" by (simp add: connection_ends_def)
        from handle_frame_inv [OF assms(1-4) inv this, of "env n"] obtain v1 where
            v1: "handle_frame lb ln sl (env n) (snd (fst ?rd)) ?v = Some v1" "svc_inv lb sl c0 c v1"
              "left (sv_link v1) \<le> left (snd ?rd)" by auto
        let ?v1 = "v1\<lparr>sv_link := ln_end_read ln (snd (fst ?rd)) (sv_link v1)\<rparr>"
        have "left (ln_end_read ln (snd (fst ?rd)) (sv_link v1)) \<le> left (sv_link v1)"
          using assms(3) by (simp add: connection_ends_def)
        with v1(3) dec have "left (sv_link ?v1) < left (sv_link v)" by simp
        moreover have "svc_inv lb sl c0 c ?v1" using v1(2) by (simp add: keep)
        ultimately have "\<exists>v'. serve_connection lb ln sl env (Suc n) ?v1 = Some v' \<and> svc_inv lb sl c0 c v'"
          by (rule less.hyps)
        with False True v1(1) show ?thesis by (subst serve_connection.simps) (simp add: case_prod_unfold Let_def)
      next
        case to: False
        with less.hyps [of ?v "Suc n"] dec inv False show ?thesis
          by (subst serve_connection.simps) (simp add: case_prod_unfold Let_def)
      qed
    qed
  qed
  then show ?thesis by (auto simp: svc_inv_def)
qed

section \<open>A concrete peer\<close>

text \<open>Headers of eight bytes, a peer that sends a list of frames and leaves, and what was sent to it.\<close>

fun sample_opcode :: "opcode \<Rightarrow> u16" where
  "sample_opcode OP_DEVICE_INFO = 1" | "sample_opcode OP_SET_TIME = 2" | "sample_opcode OP_ASSET_BEGIN = 3"
| "sample_opcode OP_ASSET_WRITE = 4" | "sample_opcode OP_ASSET_COMMIT = 5" | "sample_opcode OP_JOB_SET = 6"
| "sample_opcode OP_JOB_GET = 7" | "sample_opcode OP_JOB_RUN_ONCE = 8" | "sample_opcode OP_JOB_CANCEL = 9"
| "sample_opcode OP_LOG_READ = 10" | "sample_opcode OP_LOG_ACK = 11"

definition put16 :: "u16 \<Rightarrow> bytes" where
  "put16 w = [ucast (drop_bit 8 w), ucast w]"

definition get16 :: "bytes \<Rightarrow> u16" where
  "get16 b = push_bit 8 (ucast (b ! 0)) OR ucast (b ! 1)"

definition put32 :: "u32 \<Rightarrow> bytes" where
  "put32 w = put16 (ucast (drop_bit 16 w)) @ put16 (ucast w)"

definition get32 :: "bytes \<Rightarrow> u32" where
  "get32 b = push_bit 16 (ucast (get16 (take 2 b))) OR ucast (get16 (drop 2 b))"

lemma put_get [simp]: "get16 (put16 w) = w" "get32 (put32 x) = x" "length (put16 w) = 2" "length (put32 x) = 4"
proof -
  show g: "get16 (put16 w) = w" for w
    by (rule bit_word_eqI) (auto simp: get16_def put16_def bit_simps)
  show "get32 (put32 x) = x"
  proof -
    have "take 2 (put16 a @ b) = put16 a" "drop 2 (put16 a @ b) = b" for a b by (simp_all add: put16_def)
    then show ?thesis by (simp add: get32_def put32_def g) (rule bit_word_eqI, auto simp: bit_simps)
  qed
qed (simp_all add: put16_def put32_def)

definition sample_sidp :: sidp_lib where
  "sample_sidp = \<lparr>lb_PROTOCOL_VERSION = 1, lb_header_size = 8, lb_prefix_size = 1, lb_asset_write_size = 4,
     lb_opcode = sample_opcode,
     lb_read_header = (\<lambda>b. \<lparr>mh_version = b ! 0, mh_kind = (if b ! 1 = 1 then KIND_REQUEST else if b ! 1 = 2 then KIND_RESPONSE else KIND_NEITHER (b ! 1)),
        mh_opcode = get16 (take 2 (drop 2 b)), mh_request_id = get32 (take 4 (drop 4 b))\<rparr>),
     lb_write_header = (\<lambda>h b. if length b = 8
        then [mh_version h, 2] @ put16 (mh_opcode h) @ put32 (mh_request_id h) else b),
     lb_prefix = (\<lambda>st. [if st = STATUS_OK then 0 else 1]),
     lb_set_crc = Pair True, lb_serial_cap = 16, lb_version_cap = 16,
     lb_dec_set_time = (\<lambda>_. None), lb_dec_asset_begin = (\<lambda>_. None),
     lb_dec_job_set = (\<lambda>b. Some (b, TRIGGER_MANUAL)), lb_dec_job_cancel = (\<lambda>_. Some 0),
     lb_dec_log_read = (\<lambda>_. Some 0), lb_dec_log_ack = (\<lambda>_. None), lb_enc_device_info = (\<lambda>_. None),
     lb_enc_asset_begin = (\<lambda>_. None), lb_enc_job_status = (\<lambda>_. Some [42]), lb_enc_run_once = (\<lambda>i. Some [ucast i])\<rparr>"

definition sample_link :: "(bytes list \<times> bytes list) link" where
  "sample_link = \<lparr>ln_begin_session = Pair ESP_OK, ln_close_session = id,
     ln_needs_disconnect = (\<lambda>t. (fst t = [], t)),
     ln_start_read = (\<lambda>t. case fst t of
          [] \<Rightarrow> ((ESP_FAIL, []), t)
        | f # fs \<Rightarrow> ((if length f < 8 then ESP_FAIL else ESP_OK, f), (fs, snd t))),
     ln_end_read = (\<lambda>_ t. t), ln_write_message = (\<lambda>m t. (ESP_OK, (fst t, snd t @ [m])))\<rparr>"

definition sample_svc_env :: svc_env where
  "sample_svc_env = \<lparr>se_io = sample_io, se_assets = sample_asset_env, se_nvs = nvs_works, se_now_us = 0,
     se_fat_info = None, se_app_version = ''1.0''\<rparr>"

definition sample_service :: "bytes list \<Rightarrow> (list_store, bytes list \<times> bytes list) service" where
  "sample_service frames = \<lparr>sv_serial = ''A1'', sv_tx_header = replicate 8 0, sv_sys = cs_sys idle_conc,
     sv_link = (frames, [])\<rparr>"

lemma sample_sidp_layout: "sidp_layout sample_sidp"
  by (simp add: sidp_layout_def sample_sidp_def prefix_len_def TX_BUF_SIZE_def)

lemma get_small: "get16 [0, 7] = 7" "get32 [0, 0, 0, 9] = 9"
  by (simp_all add: get32_def get16_def)

lemma sample_sidp_inj: "inj (lb_opcode sample_sidp)"
proof (rule injI)
  fix x y assume "lb_opcode sample_sidp x = lb_opcode sample_sidp y"
  then have "sample_opcode x = sample_opcode y" by (simp add: sample_sidp_def)
  then show "x = y" by (cases x; cases y) simp_all
qed

lemma sample_connection_ends: "connection_ends sample_sidp sample_link (length \<circ> fst)"
  by (auto simp: connection_ends_def sample_sidp_def sample_link_def split: list.split if_splits)

lemma sample_sys_pb: "pb_sizes (sl_pb sample_sys_lib)"
  by (simp add: sample_sys_lib_def byte_pb_sizes)

definition job_get :: bytes where "job_get = [1, 1, 0, 7, 0, 0, 0, 9]"

theorem request_answered_once_witness:
  "\<exists>v' m st payload. handle_frame sample_sidp sample_link sample_sys_lib sample_svc_env job_get (sample_service []) = Some v' \<and>
     snd (sv_link v') = [m] \<and> answer_to sample_sidp (lb_read_header sample_sidp job_get) st payload m \<and>
     mh_opcode (lb_read_header sample_sidp m) = 7 \<and> mh_request_id (lb_read_header sample_sidp m) = 9"
proof -
  have h: "mh_opcode (lb_read_header sample_sidp job_get) = 7" "mh_request_id (lb_read_header sample_sidp job_get) = 9"
    by (simp_all add: sample_sidp_def job_get_def get_small)
  have "length (sv_tx_header (sample_service [])) = lb_header_size sample_sidp"
      "lb_header_size sample_sidp \<le> length job_get"
      "mh_version (lb_read_header sample_sidp job_get) = lb_PROTOCOL_VERSION sample_sidp"
      "mh_kind (lb_read_header sample_sidp job_get) = KIND_REQUEST"
      "mh_request_id (lb_read_header sample_sidp job_get) \<noteq> 0"
    by (simp_all add: sample_service_def h) (simp_all add: sample_sidp_def job_get_def)
  from request_answered_once [OF sample_sidp_layout sample_sys_pb this(1,2) refl this(3-5), of sample_link sample_svc_env]
  obtain v' st payload raw crc_ok m where
      v': "handle_frame sample_sidp sample_link sample_sys_lib sample_svc_env job_get (sample_service []) = Some v'"
      and m: "lb_set_crc sample_sidp raw = (crc_ok, m)" "answer_to sample_sidp (lb_read_header sample_sidp job_get) st payload m"
      and l: "sv_link v' = (if crc_ok then snd (ln_write_message sample_link m (sv_link (sample_service [])))
         else sv_link (sample_service []))"
    by blast
  from m(1) have "crc_ok" by (simp add: sample_sidp_def)
  with l have "snd (sv_link v') = [m]" by (simp add: sample_link_def sample_service_def)
  with v' m(2) h show ?thesis
    by (intro exI [of _ v'] exI [of _ m] exI [of _ st] exI [of _ payload]) (simp add: answer_to_def)
qed

theorem busy_during_run_witness:
  "dispatch sample_sidp sample_sys_lib sample_svc_env [] 8 [] \<lparr>os_bytes = [], os_max = 9\<rparr> (cs_sys claimed_conc) =
     Some (STATUS_BUSY, \<lparr>os_bytes = [], os_max = 9\<rparr>, cs_sys claimed_conc)"
  using busy_during_run [OF sample_sidp_inj claimed_step(2), of sample_sys_lib sample_svc_env]
  by (simp add: sample_sidp_def)

theorem serve_connection_refines_witness:
  "\<exists>v'. serve_connection sample_sidp sample_link sample_sys_lib (\<lambda>_. sample_svc_env) 0
       (sample_service [job_get, [1, 1, 0, 4, 0, 0, 0, 10, 1, 2], [1, 2]]) = Some v' \<and>
     reachable sample_sys_lib idle_conc (idle_conc\<lparr>cs_sys := sv_sys v'\<rparr>)"
proof (rule serve_connection_refines [OF sample_sidp_layout sample_sys_pb sample_connection_ends])
  show "\<not> cs_signal idle_conc" by (simp add: idle_conc_def)
  show "svc_inv sample_sidp sample_sys_lib idle_conc idle_conc (sample_service [job_get, [1, 1, 0, 4, 0, 0, 0, 10, 1, 2], [1, 2]])"
    by (simp add: svc_inv_def sample_service_def sample_sidp_def reach_start)
qed

end
