(* ===== verification/Swd_Prog.thy ===== *)
theory Swd_Prog
  imports Target_Config
begin

text \<open>
  \<open>main/prog/swd_prog.cpp\<close>: programming an ARM target through a flash algorithm in its RAM.

  The SWD host library, the target and the C library are outside the sources. They are one oracle
  \<open>hw\<close>, which answers a call given the whole history of calls, so every theorem holds for any
  hardware behaviour. The history is the field \<open>sw_log\<close>, oldest call first. What a working flash
  algorithm does with these calls is defined further down (\<open>target_step\<close>).
  \<open>sw_fault\<close> is set where the code writes through a null pointer or divides by a page size of 0 (a CPU
  exception); nothing that follows is claimed of the code.
\<close>

section \<open>Hardware calls\<close>

datatype hw_call =
    Swd_off
  | Swd_init u32
  | Swd_trigger_nrst
  | Swd_init_debug u32
  | Swd_halt_target
  | Swd_wait_until_halted
  | Swd_write_word u32 u32
  | Swd_read_word u32
  | Swd_write_memory u32 bytes
  | Swd_read_memory u32 nat
  | Syscall_exec u32 u32 u32 u32 u32
  | Syscall_async u32 u32 u32 u32 u32
  | Syscall_wait
  | Task_delay nat
  | Esp_random
  | Led_color nat nat nat
  | Fopen path
  | Fread nat
  | Dma_malloc u32

text \<open>
  \<open>hr_err\<close> is the return code (for \<open>Fopen\<close>, \<open>Fread\<close> and \<open>Dma_malloc\<close>: \<open>ESP_OK\<close> when the call worked),
  \<open>hr_val\<close> a returned word, \<open>hr_data\<close> the bytes read.
\<close>

record hw_resp =
  hr_err :: esp_err
  hr_val :: u32
  hr_data :: bytes

type_synonym hw = "hw_call list \<Rightarrow> hw_resp"

datatype swd_state = UNKNOWN | INITIALISED | FLASH_ALG_LOADED | FLASH_ALG_INITED
  | FLASH_ALG_RUNNING | FLASH_ALG_UNINITED

datatype init_mode = MODE_ERASE | MODE_PROGRAM | MODE_VERIFY

definition mode_val :: "init_mode \<Rightarrow> u32" where
  "mode_val m = (case m of MODE_ERASE \<Rightarrow> 1 | MODE_PROGRAM \<Rightarrow> 2 | MODE_VERIFY \<Rightarrow> 3)"

record swd =
  sw_state :: swd_state
  sw_breakpoint :: u32
  sw_static_base :: u32
  sw_stack_pointer :: u32
  sw_code_start :: u32
  sw_code_end :: u32
  sw_stack_bottom :: u32
  sw_stack_top :: u32
  sw_stack_canary :: u32
  sw_ram_start_addr :: u32
  sw_ram_size :: u32
  sw_stack_size :: u32
  sw_algo_bin_len :: u32
  sw_log :: "hw_call list"
  sw_fault :: bool

definition boot_swd :: swd where
  "boot_swd = \<lparr>sw_state = UNKNOWN, sw_breakpoint = 0, sw_static_base = 0, sw_stack_pointer = 0,
     sw_code_start = 0, sw_code_end = 0, sw_stack_bottom = 0, sw_stack_top = 0, sw_stack_canary = 0,
     sw_ram_start_addr = 0, sw_ram_size = 0, sw_stack_size = 0, sw_algo_bin_len = 0, sw_log = [],
     sw_fault = False\<rparr>"

definition halt_header :: u32 where "halt_header = 0xBE00BE00"

definition hcall :: "hw \<Rightarrow> hw_call \<Rightarrow> swd \<Rightarrow> hw_resp \<times> swd" where
  "hcall hw c s = (let l = sw_log s @ [c] in (hw l, s\<lparr>sw_log := l\<rparr>))"

definition ecall :: "hw \<Rightarrow> hw_call \<Rightarrow> swd \<Rightarrow> esp_err \<times> swd" where
  "ecall hw c s = (case hcall hw c s of (r, s) \<Rightarrow> (hr_err r, s))"

definition vcall :: "hw \<Rightarrow> hw_call \<Rightarrow> swd \<Rightarrow> swd" where
  "vcall hw c s = snd (hcall hw c s)"

text \<open>\<open>state = swd_def::UNKNOWN; return e;\<close>\<close>

definition unknown :: "esp_err \<Rightarrow> swd \<Rightarrow> esp_err \<times> swd" where
  "unknown e s = (e, s\<lparr>sw_state := UNKNOWN\<rparr>)"

definition cpu_fault :: "swd \<Rightarrow> esp_err \<times> swd" where
  "cpu_fault s = (ESP_FAIL, s\<lparr>sw_fault := True\<rparr>)"

section \<open>Loading and running the algorithm\<close>

definition next_multiple_of :: "u32 \<Rightarrow> u32 \<Rightarrow> u32" where
  "next_multiple_of input m = (if m = 0 then 0 else ((input + m - 1) div m) * m)"

definition algo_bytes :: "flash_algorithm \<Rightarrow> bytes" where
  "algo_bytes fa = (case fa_algo_bin fa of None \<Rightarrow> [] | Some b \<Rightarrow> take (unat (fa_algo_bin_len fa)) b)"

definition load_flash_algorithm :: "hw \<Rightarrow> target_config \<Rightarrow> swd \<Rightarrow> esp_err \<times> swd" where
  "load_flash_algorithm hw cfg s =
     (let s = vcall hw (Task_delay 1) (vcall hw Swd_off s) in
      check (ecall hw (Swd_init 1000) s) Pair (\<lambda>s.
      let s = vcall hw (Task_delay 1) (vcall hw Swd_trigger_nrst (vcall hw (Task_delay 1) s)) in
      check (ecall hw (Swd_init_debug 1000) s) unknown (\<lambda>s.
      check (ecall hw Swd_halt_target (vcall hw (Task_delay 1) s)) (\<lambda>_. unknown ESP_ERR_INVALID_STATE) (\<lambda>s.
      check (ecall hw Swd_wait_until_halted s) (\<lambda>_. unknown ESP_ERR_INVALID_STATE) (\<lambda>s.
      let fa = cfg_algo cfg;
          s = s\<lparr>sw_algo_bin_len := fa_algo_bin_len fa, sw_code_start := fa_load_address fa\<rparr>;
          s = s\<lparr>sw_code_end := next_multiple_of (sw_code_start s + sw_algo_bin_len s) 8\<rparr> in
      check (ecall hw (Swd_write_word (sw_code_start s - 4) halt_header) s) (\<lambda>_. unknown ESP_FAIL) (\<lambda>s.
      check (ecall hw (Swd_write_memory (sw_code_start s) (algo_bytes fa)) s) (\<lambda>_. unknown ESP_FAIL) (\<lambda>s.
      check (ecall hw (Swd_write_word (sw_stack_bottom s) (sw_stack_canary s)) s) (\<lambda>_. unknown ESP_FAIL) (\<lambda>s.
        (ESP_OK, s\<lparr>sw_state := FLASH_ALG_LOADED\<rparr>)))))))))"

definition swd_prog_init :: "hw \<Rightarrow> target_config \<Rightarrow> u32 \<Rightarrow> swd \<Rightarrow> esp_err \<times> swd" where
  "swd_prog_init hw cfg stack_size s =
     (if stack_size = 0 then (ESP_ERR_INVALID_ARG, s)
      else case algo_ram_region cfg of
          None \<Rightarrow> (ESP_ERR_NOT_FOUND, s)
        | Some ram \<Rightarrow>
            let fa = cfg_algo cfg;
                s = s\<lparr>sw_stack_size := stack_size\<rparr>;
                page = (case fa_page_size fa of None \<Rightarrow> 0 | Some p \<Rightarrow> p);
                needed_past_code = (if page > 0 then page * 2 else 0) + stack_size + 8
            in if needed_past_code > 0 \<and>
                  \<not> contains_range ram (fa_load_address fa) (fa_algo_bin_len fa + needed_past_code)
               then (ESP_ERR_NO_MEM, s)
               else
                 let s = s\<lparr>sw_ram_start_addr := rr_start ram, sw_ram_size := rr_size ram\<rparr> in
                 check (ecall hw (Swd_init_debug 1000) s) unknown (\<lambda>s.
                 check (ecall hw Swd_halt_target s) (\<lambda>_. unknown ESP_ERR_INVALID_STATE) (\<lambda>s.
                 check (ecall hw Swd_wait_until_halted s) (\<lambda>_. unknown ESP_ERR_INVALID_STATE) (\<lambda>s.
                 check (load_flash_algorithm hw cfg s) (\<lambda>_ s. (ESP_FAIL, s)) (\<lambda>s.
                 case (fa_data_section_offset fa, fa_page_size fa) of
                   (None, _) \<Rightarrow> (ESP_ERR_NOT_FOUND, s)
                 | (_, None) \<Rightarrow> (ESP_ERR_NOT_FOUND, s)
                 | (Some data_section_offset, Some page_size) \<Rightarrow>
                     let s = s\<lparr>sw_stack_bottom := next_multiple_of (sw_code_end s + page_size * 2) 8\<rparr>;
                         s = s\<lparr>sw_stack_top := sw_stack_bottom s + sw_stack_size s\<rparr>;
                         (r, s) = hcall hw Esp_random s;
                         s = s\<lparr>sw_stack_canary := hr_val r\<rparr>;
                         s = s\<lparr>sw_breakpoint := sw_code_start s - 4 + 1,
                               sw_static_base := data_section_offset,
                               sw_stack_pointer := sw_stack_top s\<rparr>
                     in (ESP_OK, s\<lparr>sw_state := INITIALISED\<rparr>))))))"

text \<open>The retry loop of \<open>run_algo_init\<close>: \<open>retry_cnt\<close> counts down from 3.\<close>

fun algo_init_loop :: "hw \<Rightarrow> target_config \<Rightarrow> init_mode \<Rightarrow> nat \<Rightarrow> swd \<Rightarrow> esp_err \<times> swd" where
  "algo_init_loop hw cfg mode 0 s = unknown ESP_FAIL s"
| "algo_init_loop hw cfg mode (Suc retry_cnt) s =
     check (load_flash_algorithm hw cfg s) (\<lambda>_ s. (ESP_FAIL, s)) (\<lambda>s.
       case (fa_pc_init (cfg_algo cfg), fa_flash_start (cfg_algo cfg)) of
         (None, _) \<Rightarrow> (ESP_ERR_NOT_FOUND, s)
       | (_, None) \<Rightarrow> (ESP_ERR_NOT_FOUND, s)
       | (Some pc_init, Some flash_start) \<Rightarrow>
           check (ecall hw Swd_wait_until_halted s) (\<lambda>_. unknown ESP_ERR_INVALID_STATE) (\<lambda>s.
             check (ecall hw (Syscall_exec pc_init flash_start 0 (mode_val mode) 0) s)
               (\<lambda>_ s. algo_init_loop hw cfg mode retry_cnt (snd (swd_prog_init hw cfg (sw_stack_size s) s)))
               (\<lambda>s. (ESP_OK, s\<lparr>sw_state := FLASH_ALG_INITED\<rparr>))))"

definition run_algo_init :: "hw \<Rightarrow> target_config \<Rightarrow> init_mode \<Rightarrow> swd \<Rightarrow> esp_err \<times> swd" where
  "run_algo_init hw cfg mode s = algo_init_loop hw cfg mode 3 s"

definition run_algo_uninit :: "hw \<Rightarrow> target_config \<Rightarrow> init_mode \<Rightarrow> swd \<Rightarrow> esp_err \<times> swd" where
  "run_algo_uninit hw cfg mode s =
     check (ecall hw Swd_halt_target s) (\<lambda>_. unknown ESP_ERR_INVALID_STATE) (\<lambda>s.
       case fa_pc_uninit (cfg_algo cfg) of
         None \<Rightarrow> (ESP_ERR_NOT_FOUND, s)
       | Some pc_uninit \<Rightarrow>
           check (ecall hw Swd_wait_until_halted s) (\<lambda>_. unknown ESP_ERR_INVALID_STATE) (\<lambda>s.
           check (ecall hw (Syscall_exec pc_uninit (mode_val mode) 0 0 0) s) (\<lambda>_. unknown ESP_FAIL) (\<lambda>s.
           case hcall hw (Swd_read_word (sw_stack_bottom s)) s of (r, s) \<Rightarrow>
             if hr_err r \<noteq> ESP_OK then unknown ESP_FAIL s
             else if hr_val r \<noteq> sw_stack_canary s then unknown ESP_FAIL s
             else (ESP_OK, s\<lparr>sw_state := FLASH_ALG_UNINITED\<rparr>))))"

text \<open>\<open>if (state != FLASH_ALG_INITED) { ret = run_algo_init(mode); if (ret != ESP_OK) return ret; }\<close>\<close>

definition ensure_inited :: "hw \<Rightarrow> target_config \<Rightarrow> init_mode \<Rightarrow> swd \<Rightarrow> esp_err \<times> swd" where
  "ensure_inited hw cfg mode s =
     (if sw_state s \<noteq> FLASH_ALG_INITED then run_algo_init hw cfg mode s else (ESP_OK, s))"

text \<open>Halting with the two error checks that precede every use of the algorithm.\<close>

definition halt_target :: "hw \<Rightarrow> swd \<Rightarrow> esp_err \<times> swd" where
  "halt_target hw s =
     check (ecall hw Swd_halt_target s) (\<lambda>_. unknown ESP_ERR_INVALID_STATE) (\<lambda>s.
     check (ecall hw Swd_wait_until_halted s) (\<lambda>_. unknown ESP_ERR_INVALID_STATE) (Pair ESP_OK))"

section \<open>Erasing and testing\<close>

definition erase_chip :: "hw \<Rightarrow> target_config \<Rightarrow> swd \<Rightarrow> esp_err \<times> swd" where
  "erase_chip hw cfg s =
     (case fa_pc_erase_all (cfg_algo cfg) of
        None \<Rightarrow> (ESP_ERR_NOT_SUPPORTED, s)
      | Some pc_erase_all \<Rightarrow>
          check (ensure_inited hw cfg MODE_ERASE s) Pair (\<lambda>s.
          check (halt_target hw s) Pair (\<lambda>s.
          check (ecall hw (Syscall_exec pc_erase_all 0 0 0 0) (vcall hw (Led_color 0 0 60) s))
            (\<lambda>_ s. check (run_algo_uninit hw cfg MODE_ERASE s) Pair (Pair ESP_FAIL))
            (\<lambda>s. check (run_algo_uninit hw cfg MODE_ERASE s) Pair
                    (\<lambda>s. (ESP_OK, s\<lparr>sw_state := FLASH_ALG_UNINITED\<rparr>))))))"

definition self_test ::
  "hw \<Rightarrow> target_config \<Rightarrow> u32 \<Rightarrow> u32 \<Rightarrow> u32 \<Rightarrow> swd \<Rightarrow> esp_err \<times> u32 \<times> swd" where
  "self_test hw cfg test_id readout_buf_len func_ret s =
     (case fa_pc_verify (cfg_algo cfg) of
        None \<Rightarrow> (ESP_ERR_NOT_SUPPORTED, func_ret, s)
      | Some pc_verify \<Rightarrow>
          check (ensure_inited hw cfg MODE_ERASE s) (\<lambda>e s. (e, func_ret, s)) (\<lambda>s.
          check (halt_target hw s) (\<lambda>e s. (e, func_ret, s)) (\<lambda>s.
          case hcall hw (Syscall_exec pc_verify test_id readout_buf_len 0 0) s of (r, s) \<Rightarrow>
            if hr_err r \<noteq> ESP_OK then (ESP_FAIL, hr_val r, s) else (ESP_OK, hr_val r, s))))"

fun erase_loop ::
  "hw \<Rightarrow> u32 \<Rightarrow> u32 \<Rightarrow> u32 \<Rightarrow> nat \<Rightarrow> u32 \<Rightarrow> swd \<Rightarrow> esp_err \<times> swd" where
  "erase_loop hw pc flash_start sector_size 0 idx s = (ESP_OK, s)"
| "erase_loop hw pc flash_start sector_size (Suc n) idx s =
     check (ecall hw (Syscall_exec pc (flash_start + idx * sector_size) 0 0 0) s) (\<lambda>_ s. (ESP_FAIL, s)) (\<lambda>s.
       erase_loop hw pc flash_start sector_size n (idx + 1)
         (vcall hw (if idx mod 10 = 0 then Led_color 0 0 60 else Led_color 0 0 0) s))"

definition erase_sector :: "hw \<Rightarrow> target_config \<Rightarrow> u32 \<Rightarrow> u32 \<Rightarrow> swd \<Rightarrow> esp_err \<times> swd" where
  "erase_sector hw cfg start_addr end_addr s =
     (case (fa_page_size (cfg_algo cfg), fa_pc_erase_sector (cfg_algo cfg), fa_flash_start (cfg_algo cfg)) of
        (Some flash_sector_size, Some pc_erase_sector, Some flash_start) \<Rightarrow>
          if flash_sector_size = 0 then cpu_fault s else
          let sector_cnt = (end_addr - start_addr) div flash_sector_size in
          if (end_addr - start_addr) mod flash_sector_size \<noteq> 0 \<or> sector_cnt < 1
          then (ESP_ERR_INVALID_ARG, s)
          else
            check (ensure_inited hw cfg MODE_ERASE s) Pair (\<lambda>s.
            check (halt_target hw s) Pair (\<lambda>s.
            check (erase_loop hw pc_erase_sector flash_start flash_sector_size (unat sector_cnt) 0 s) Pair (\<lambda>s.
            check (run_algo_uninit hw cfg MODE_ERASE s) Pair
              (\<lambda>s. (ESP_OK, s\<lparr>sw_state := FLASH_ALG_UNINITED\<rparr>)))))
      | _ \<Rightarrow> (ESP_ERR_INVALID_STATE, s))"

section \<open>Programming\<close>

text \<open>
  \<open>program_page\<close>: the loop keeps only the last call's result, checked after the loop; a failed write
  to RAM returns at once (\<open>Inl\<close>).
\<close>

fun page_loop ::
  "hw \<Rightarrow> u32 \<Rightarrow> u32 \<Rightarrow> u32 \<Rightarrow> u32 \<Rightarrow> nat \<Rightarrow> u32 \<Rightarrow> u32 \<Rightarrow> bytes \<Rightarrow> esp_err \<Rightarrow> swd \<Rightarrow>
     (esp_err + esp_err) \<times> swd" where
  "page_loop hw pc page_size addr_offset buf_addr 0 page_idx remain_len buf swd_ret s = (Inr swd_ret, s)"
| "page_loop hw pc page_size addr_offset buf_addr (Suc n) page_idx remain_len buf swd_ret s =
     (let write_size = min page_size remain_len;
          data = take (unat write_size) (drop (unat (page_idx * page_size)) buf) in
      check (ecall hw (Swd_write_memory buf_addr data) s)
        (\<lambda>_ s. (Inl ESP_ERR_INVALID_STATE, s\<lparr>sw_state := UNKNOWN\<rparr>))
        (\<lambda>s. case ecall hw (Syscall_exec pc (addr_offset + page_idx * page_size) write_size buf_addr 0) s of
            (swd_ret, s) \<Rightarrow>
              page_loop hw pc page_size addr_offset buf_addr n (page_idx + 1) (remain_len - write_size) buf swd_ret
                (vcall hw (if page_idx mod 2 = 0 then Led_color 50 50 0 else Led_color 0 0 0) s)))"

definition program_page :: "hw \<Rightarrow> target_config \<Rightarrow> bytes \<Rightarrow> u32 \<Rightarrow> swd \<Rightarrow> esp_err \<times> swd" where
  "program_page hw cfg buf start_addr s =
     (if length buf mod 4 \<noteq> 0 then (ESP_ERR_INVALID_ARG, s)
      else
        check (ensure_inited hw cfg MODE_PROGRAM s) Pair (\<lambda>s.
        check (ecall hw Swd_halt_target s) (\<lambda>_. unknown ESP_ERR_INVALID_STATE) (\<lambda>s.
        case (fa_page_size (cfg_algo cfg), fa_pc_program_page (cfg_algo cfg), fa_flash_start (cfg_algo cfg)) of
          (Some page_size, Some pc_program_page, Some flash_start) \<Rightarrow>
            check (ecall hw Swd_wait_until_halted s) (\<lambda>_. unknown ESP_ERR_INVALID_STATE) (\<lambda>s.
              if page_size = 0 then cpu_fault s else
              let addr_offset = flash_start + (if start_addr = UINT32_MAX then 0 else start_addr);
                  len = of_nat (length buf) :: u32
              in case page_loop hw pc_program_page page_size addr_offset (sw_stack_top s + sw_stack_size s)
                     (unat (len div page_size)) 0 len buf ESP_OK s of
                   (Inl e, s) \<Rightarrow> (e, s)
                 | (Inr swd_ret, s) \<Rightarrow>
                     if swd_ret \<noteq> ESP_OK then unknown ESP_ERR_INVALID_STATE s
                     else check (run_algo_uninit hw cfg MODE_PROGRAM s) Pair
                            (\<lambda>s. (ESP_OK, s\<lparr>sw_state := FLASH_ALG_UNINITED\<rparr>)))
        | _ \<Rightarrow> (ESP_ERR_INVALID_STATE, s))))"

text \<open>\<open>fread\<close> of \<open>n\<close> bytes from an open file whose unread rest is given; it may return fewer.\<close>

definition fread :: "hw \<Rightarrow> nat \<Rightarrow> bytes \<Rightarrow> swd \<Rightarrow> bytes \<times> bytes \<times> swd" where
  "fread hw n rest s =
     (case hcall hw (Fread n) s of (r, s) \<Rightarrow>
        let k = (if hr_err r = ESP_OK then n else min n (unat (hr_val r)))
        in (take k rest, drop k rest, s))"

record prog_args =
  pa_page_size :: u32
  pa_pc :: u32
  pa_addr_offset :: u32

definition led_page :: "u32 \<Rightarrow> hw_call" where
  "led_page page_idx = (if page_idx mod 2 = 0 then Led_color 50 50 0 else Led_color 0 0 0)"

fun double_loop ::
  "hw \<Rightarrow> prog_args \<Rightarrow> nat \<Rightarrow> u32 \<Rightarrow> nat \<Rightarrow> u32 \<Rightarrow> bytes \<Rightarrow> swd \<Rightarrow> esp_err \<times> swd" where
  "double_loop hw pa 0 page_idx curr_buf remain_len rest s =
     check (ecall hw Syscall_wait s) (\<lambda>_. unknown ESP_ERR_INVALID_STATE) (Pair ESP_OK)"
| "double_loop hw pa (Suc n) page_idx curr_buf remain_len rest s =
     (let write_size = min (pa_page_size pa) remain_len in
      case fread hw (unat write_size) rest s of (buf, rest, s) \<Rightarrow>
        let write_size = of_nat (length buf);
            curr_buf_addr = (if curr_buf = 0 then sw_stack_top s + sw_stack_size s
                             else sw_stack_top s + sw_stack_size s + pa_page_size pa) in
        check (ecall hw (Swd_write_memory curr_buf_addr buf) s) (\<lambda>_. unknown ESP_ERR_INVALID_STATE) (\<lambda>s.
        check (ecall hw Syscall_wait s) (\<lambda>_. unknown ESP_ERR_INVALID_STATE) (\<lambda>s.
        check (ecall hw (Syscall_async (pa_pc pa) (pa_addr_offset pa + page_idx * pa_page_size pa)
                 write_size curr_buf_addr 0) s) (\<lambda>_. unknown ESP_ERR_INVALID_STATE) (\<lambda>s.
          double_loop hw pa n (page_idx + 1) (if curr_buf = 1 then 0 else 1) (remain_len - write_size) rest
            (vcall hw (led_page page_idx) s)))))"

fun simple_loop ::
  "hw \<Rightarrow> prog_args \<Rightarrow> nat \<Rightarrow> u32 \<Rightarrow> u32 \<Rightarrow> bytes \<Rightarrow> swd \<Rightarrow> esp_err \<times> swd" where
  "simple_loop hw pa 0 page_idx remain_len rest s = (ESP_OK, s)"
| "simple_loop hw pa (Suc n) page_idx remain_len rest s =
     (let write_size = min (pa_page_size pa) remain_len in
      case fread hw (unat write_size) rest s of (buf, rest, s) \<Rightarrow>
        let write_size = of_nat (length buf);
            curr_buf_addr = sw_stack_top s + sw_stack_size s in
        check (ecall hw (Swd_write_memory curr_buf_addr buf) s) (\<lambda>_. unknown ESP_ERR_INVALID_STATE) (\<lambda>s.
        check (ecall hw (Syscall_exec (pa_pc pa) (pa_addr_offset pa + page_idx * pa_page_size pa)
                 write_size curr_buf_addr 0) s) (\<lambda>_. unknown ESP_ERR_INVALID_STATE) (\<lambda>s.
          simple_loop hw pa n (page_idx + 1) (remain_len - write_size) rest
            (vcall hw (led_page page_idx) s))))"

definition page_count :: "u32 \<Rightarrow> u32 \<Rightarrow> u32" where
  "page_count len page_size = len div page_size + (if len mod page_size \<noteq> 0 then 1 else 0)"

text \<open>
  \<open>heap_caps_malloc\<close> is not checked before \<open>memset\<close>: a failure is a write through null. A page size of
  0 divides by zero in the loop condition.
\<close>

definition with_page_buffer :: "hw \<Rightarrow> u32 \<Rightarrow> (swd \<Rightarrow> esp_err \<times> swd) \<Rightarrow> swd \<Rightarrow> esp_err \<times> swd" where
  "with_page_buffer hw page_size k s =
     check (ecall hw (Dma_malloc page_size) s) (\<lambda>_. cpu_fault) (\<lambda>s. if page_size = 0 then cpu_fault s else k s)"

definition perform_double_buffered_program ::
  "hw \<Rightarrow> prog_args \<Rightarrow> u32 \<Rightarrow> bytes \<Rightarrow> swd \<Rightarrow> esp_err \<times> swd" where
  "perform_double_buffered_program hw pa len file s =
     with_page_buffer hw (pa_page_size pa)
       (double_loop hw pa (unat (page_count len (pa_page_size pa))) 0 0 len file) s"

definition perform_simple_program ::
  "hw \<Rightarrow> prog_args \<Rightarrow> u32 \<Rightarrow> bytes \<Rightarrow> swd \<Rightarrow> esp_err \<times> swd" where
  "perform_simple_program hw pa len file s =
     with_page_buffer hw (pa_page_size pa)
       (simple_loop hw pa (unat (page_count len (pa_page_size pa))) 0 len file) s"

text \<open>Up to five attempts to open the file, 200 ms apart.\<close>

fun fopen_retry :: "hw \<Rightarrow> fs \<Rightarrow> path \<Rightarrow> nat \<Rightarrow> swd \<Rightarrow> bytes option \<times> swd" where
  "fopen_retry hw files p 0 s = (None, s)"
| "fopen_retry hw files p (Suc n) s =
     (case ecall hw (Fopen p) s of (e, s) \<Rightarrow>
        case (if e = ESP_OK then files p else None) of
          Some content \<Rightarrow> (Some content, s)
        | None \<Rightarrow> fopen_retry hw files p n (vcall hw (Task_delay 200) s))"

text \<open>\<open>program_file\<close>: the middle component is \<open>*len_written\<close>, which keeps its old value until it is set.\<close>

definition program_file ::
  "hw \<Rightarrow> target_config \<Rightarrow> fs \<Rightarrow> path \<Rightarrow> u32 \<Rightarrow> u32 \<Rightarrow> swd \<Rightarrow> esp_err \<times> u32 \<times> swd" where
  "program_file hw cfg files p len_written start_addr s =
     (case fopen_retry hw files p 5 s of
        (None, s) \<Rightarrow> (ESP_ERR_NOT_FOUND, len_written, s)
      | (Some file, s) \<Rightarrow>
          let len = of_nat (length file) :: u32 in
          if len < 4 \<or> len mod 4 \<noteq> 0 then (ESP_ERR_INVALID_SIZE, len_written, s)
          else
            check (ensure_inited hw cfg MODE_PROGRAM s) (\<lambda>e s. (e, len, s)) (\<lambda>s.
              case (fa_page_size (cfg_algo cfg), fa_pc_program_page (cfg_algo cfg), fa_flash_start (cfg_algo cfg)) of
                (Some page_size, Some pc_program_page, Some flash_start) \<Rightarrow>
                  let pa = \<lparr>pa_page_size = page_size, pa_pc = pc_program_page,
                            pa_addr_offset = flash_start + (if start_addr = UINT32_MAX then 0 else start_addr)\<rparr>;
                      max_possible_buffer_addr = sw_stack_top s + sw_stack_size s + page_size * 2
                  in check (if sw_ram_start_addr s + sw_ram_size s \<ge> max_possible_buffer_addr
                            then perform_double_buffered_program hw pa len file s
                            else perform_simple_program hw pa len file s) (\<lambda>e s. (e, len, s)) (\<lambda>s.
                     check (run_algo_uninit hw cfg MODE_PROGRAM s) (\<lambda>e s. (e, len, s))
                       (\<lambda>s. (ESP_OK, len, s\<lparr>sw_state := FLASH_ALG_UNINITED\<rparr>)))
              | _ \<Rightarrow> (ESP_ERR_NOT_FOUND, len, s)))"

section \<open>Verifying\<close>

text \<open>A buffer of \<open>n\<close> bytes that was zero before \<open>d\<close> was read into it.\<close>

definition buffer_of :: "nat \<Rightarrow> bytes \<Rightarrow> bytes" where
  "buffer_of n d = take n (d @ replicate n 0)"

fun verify_loop :: "hw \<Rightarrow> u32 \<Rightarrow> u32 \<Rightarrow> nat \<Rightarrow> bytes \<Rightarrow> swd \<Rightarrow> esp_err \<times> swd" where
  "verify_loop hw addr offset remain_len rest s =
     (if remain_len = 0 then (ESP_OK, s)
      else
        let read_len = min 512 remain_len in
        case hcall hw (Swd_read_memory (addr + offset) read_len) s of (r, s) \<Rightarrow>
          if hr_err r \<noteq> ESP_OK then (ESP_ERR_INVALID_STATE, s)
          else case fread hw read_len rest s of (orig, rest, s) \<Rightarrow>
            if length orig < read_len then (ESP_ERR_INVALID_STATE, s)
            else if orig \<noteq> buffer_of read_len (hr_data r) then (ESP_ERR_INVALID_CRC, s)
            else verify_loop hw addr (offset + of_nat read_len) (remain_len - read_len) rest s)"

declare verify_loop.simps [simp del]

definition verify ::
  "hw \<Rightarrow> target_config \<Rightarrow> fs \<Rightarrow> path \<Rightarrow> u32 \<Rightarrow> u32 \<Rightarrow> swd \<Rightarrow> esp_err \<times> swd" where
  "verify hw cfg files p start_addr len s =
     check (ecall hw Swd_halt_target s) (\<lambda>_. unknown ESP_ERR_INVALID_STATE) (\<lambda>s.
       case fa_flash_start (cfg_algo cfg) of
         None \<Rightarrow> (ESP_ERR_INVALID_STATE, s)
       | Some flash_start_addr \<Rightarrow>
           let actual_read_addr = (if start_addr = UINT32_MAX then flash_start_addr else start_addr) in
           if len = 0 then (ESP_ERR_INVALID_ARG, s)
           else case ecall hw (Fopen p) s of (e, s) \<Rightarrow>
             (case (if e = ESP_OK then files p else None) of
                None \<Rightarrow> (ESP_ERR_NOT_FOUND, s)
              | Some file \<Rightarrow> verify_loop hw actual_read_addr 0 (unat len) file s))"

definition trigger_nrst :: "hw \<Rightarrow> swd \<Rightarrow> swd" where
  "trigger_nrst hw s = vcall hw Swd_trigger_nrst s"

definition reset_gpio :: "hw \<Rightarrow> swd \<Rightarrow> swd" where
  "reset_gpio hw s = vcall hw Swd_off s"

section \<open>Call sequences\<close>

lemma hcall_log [simp]:
  "sw_log (snd (hcall hw c s)) = sw_log s @ [c]" "fst (hcall hw c s) = hw (sw_log s @ [c])"
  by (simp_all add: hcall_def Let_def)

lemma hcall_snd: "snd (hcall hw c s) = s\<lparr>sw_log := sw_log s @ [c]\<rparr>"
  by (simp add: hcall_def Let_def)

lemma ecall_eq: "ecall hw c s = (hr_err (hw (sw_log s @ [c])), s\<lparr>sw_log := sw_log s @ [c]\<rparr>)"
  by (simp add: ecall_def hcall_def Let_def)

lemma vcall_eq: "vcall hw c s = s\<lparr>sw_log := sw_log s @ [c]\<rparr>"
  by (simp add: vcall_def hcall_snd)

lemma check_ecall:
  "check (ecall hw c s) h k =
     (if hr_err (hw (sw_log s @ [c])) = ESP_OK then k (s\<lparr>sw_log := sw_log s @ [c]\<rparr>)
      else h (hr_err (hw (sw_log s @ [c]))) (s\<lparr>sw_log := sw_log s @ [c]\<rparr>))"
  by (simp add: ecall_eq check_def)

lemmas call_eqs = check_ecall vcall_eq hcall_def Let_def

end
