(* ===== verification/Swd_Target.thy ===== *)
theory Swd_Target
  imports Swd_Prog
begin

text \<open>
  What the programming loops of \<open>main/prog/swd_prog.cpp\<close> do to a target: reads of its memory, the
  memory of a target with a working flash algorithm (\<open>target_step\<close>), and for both programming loops
  that the rest of the file ends up in the flash (\<open>simple_loop_writes\<close>, \<open>double_loop_writes\<close>).
\<close>

section \<open>What verification reads\<close>

text \<open>
  Reads of target memory that succeed after the calls \<open>l0\<close> return its contents \<open>m\<close>. Before that the
  memory may have held anything.
\<close>

definition reads_from :: "hw \<Rightarrow> hw_call list \<Rightarrow> (u32 \<Rightarrow> u8) \<Rightarrow> bool" where
  "reads_from hw l0 m \<longleftrightarrow>
     (\<forall>l a n. hr_err (hw (l0 @ l @ [Swd_read_memory a n])) = ESP_OK \<longrightarrow>
        hr_data (hw (l0 @ l @ [Swd_read_memory a n])) = map (\<lambda>i. m (a + of_nat i)) [0..<n])"

definition all_calls_work :: "hw \<Rightarrow> bool" where
  "all_calls_work hw \<longleftrightarrow> (\<forall>l. hr_err (hw l) = ESP_OK)"

definition mem_bytes :: "(u32 \<Rightarrow> u8) \<Rightarrow> u32 \<Rightarrow> nat \<Rightarrow> bytes" where
  "mem_bytes m a n = map (\<lambda>i. m (a + of_nat i)) [0..<n]"

lemma length_mem_bytes [simp]: "length (mem_bytes m a n) = n"
  by (simp add: mem_bytes_def)

lemma mem_bytes_split:
  "k \<le> n \<Longrightarrow> mem_bytes m a n = mem_bytes m a k @ mem_bytes m (a + of_nat k) (n - k)"
  by (rule nth_equalityI) (auto simp: mem_bytes_def nth_append)

lemma buffer_of_exact: "length d = n \<Longrightarrow> buffer_of n d = d"
  by (simp add: buffer_of_def)

lemma reads_from_data:
  assumes "reads_from hw l m" and "hr_err (hw (l @ [Swd_read_memory a n])) = ESP_OK"
  shows "buffer_of n (hr_data (hw (l @ [Swd_read_memory a n]))) = mem_bytes m a n"
  using assms(1) [unfolded reads_from_def, rule_format, of "[]" a n] assms(2)
  by (simp add: buffer_of_exact mem_bytes_def)

lemma reads_from_mono: "reads_from hw l m \<Longrightarrow> reads_from hw (l @ l') m"
  unfolding reads_from_def append.assoc by (metis append.assoc)

lemma fread_log: "fread hw n rest s = (a, b, s') \<Longrightarrow> sw_log s' = sw_log s @ [Fread n]"
  by (auto simp: fread_def hcall_def Let_def)

lemma fread_full:
  "fread hw n rest s = (a, b, s') \<Longrightarrow> n \<le> length a \<Longrightarrow> a = take n rest \<and> b = drop n rest \<and> n \<le> length rest"
  by (auto simp: fread_def Let_def split: prod.splits if_splits)

lemma verify_loop_step:
  assumes "0 < n"
  shows "verify_loop hw addr off n rest s =
     (let k = min 512 n; l = sw_log s @ [Swd_read_memory (addr + off) k] in
      if hr_err (hw l) \<noteq> ESP_OK then (ESP_ERR_INVALID_STATE, s\<lparr>sw_log := l\<rparr>)
      else case fread hw k rest (s\<lparr>sw_log := l\<rparr>) of (orig, rest, s) \<Rightarrow>
        if length orig < k then (ESP_ERR_INVALID_STATE, s)
        else if orig \<noteq> buffer_of k (hr_data (hw l)) then (ESP_ERR_INVALID_CRC, s)
        else verify_loop hw addr (off + of_nat k) (n - k) rest s)"
  using assms by (subst verify_loop.simps) (simp add: hcall_def Let_def)

lemma verify_loop_sound:
  assumes "reads_from hw (sw_log s) m" and "verify_loop hw addr off n rest s = (ESP_OK, s')"
  shows "n \<le> length rest \<and> take n rest = mem_bytes m (addr + off) n"
  using assms
proof (induction n arbitrary: off rest s rule: less_induct)
  case (less n)
  show ?case
  proof (cases "n = 0")
    case False
    define k where "k = min 512 n"
    define l where "l = sw_log s @ [Swd_read_memory (addr + off) k]"
    have k: "0 < k" "k \<le> n" using False by (auto simp: k_def)
    obtain orig rest1 s1 where rd: "fread hw k rest (s\<lparr>sw_log := l\<rparr>) = (orig, rest1, s1)"
      by (metis surj_pair)
    from less.prems(2) rd False have h: "hr_err (hw l) = ESP_OK" "\<not> length orig < k"
        "orig = buffer_of k (hr_data (hw l))"
        and rec: "verify_loop hw addr (off + of_nat k) (n - k) rest1 s1 = (ESP_OK, s')"
      by (auto simp: verify_loop_step Let_def k_def [symmetric] l_def [symmetric] split: if_splits)
    from fread_full [OF rd] h(2) have r: "orig = take k rest" "rest1 = drop k rest" "k \<le> length rest"
      by auto
    have o: "take k rest = mem_bytes m (addr + off) k"
      using reads_from_data [OF less.prems(1), of "addr + off" k] h r(1) by (simp add: l_def)
    have rf: "reads_from hw (sw_log s1) m"
      using reads_from_mono [OF less.prems(1)] fread_log [OF rd] by (simp add: l_def)
    have ih: "n - k \<le> length rest1 \<and> take (n - k) rest1 = mem_bytes m (addr + (off + of_nat k)) (n - k)"
      by (rule less.IH [OF _ rf rec]) (use k in simp)
    have "take n rest = take k rest @ take (n - k) rest1"
      using k r by (metis le_add_diff_inverse take_add)
    with ih o r k mem_bytes_split [OF k(2), of m "addr + off"] show ?thesis
      by (simp add: add.assoc, linarith)
  qed (simp add: mem_bytes_def)
qed

lemma verify_loop_decides:
  assumes "reads_from hw (sw_log s) m" and "all_calls_work hw" and "n \<le> length rest"
  shows "fst (verify_loop hw addr off n rest s) =
     (if take n rest = mem_bytes m (addr + off) n then ESP_OK else ESP_ERR_INVALID_CRC)"
  using assms(1,3)
proof (induction n arbitrary: off rest s rule: less_induct)
  case (less n)
  show ?case
  proof (cases "n = 0")
    case True
    then show ?thesis by (simp add: verify_loop.simps mem_bytes_def)
  next
    case False
    define k where "k = min 512 n"
    define l where "l = sw_log s @ [Swd_read_memory (addr + off) k]"
    have k: "0 < k" "k \<le> n" using False by (auto simp: k_def)
    have ok: "hr_err (hw x) = ESP_OK" for x using assms(2) by (simp add: all_calls_work_def)
    obtain s1 where rd: "fread hw k rest (s\<lparr>sw_log := l\<rparr>) = (take k rest, drop k rest, s1)"
      by (simp add: fread_def hcall_def Let_def ok)
    have data: "buffer_of k (hr_data (hw l)) = mem_bytes m (addr + off) k"
      using reads_from_data [OF less.prems(1), of "addr + off" k] ok by (simp add: l_def)
    have rf: "reads_from hw (sw_log s1) m"
      using reads_from_mono [OF less.prems(1)] fread_log [OF rd] by (simp add: l_def)
    have "verify_loop hw addr off n rest s =
        (if take k rest \<noteq> mem_bytes m (addr + off) k then (ESP_ERR_INVALID_CRC, s1)
         else verify_loop hw addr (off + of_nat k) (n - k) (drop k rest) s1)"
      using False k less.prems rd data ok
      by (simp add: verify_loop_step Let_def k_def [symmetric] l_def [symmetric])
    moreover have "fst (verify_loop hw addr (off + of_nat k) (n - k) (drop k rest) s1) =
        (if take (n - k) (drop k rest) = mem_bytes m (addr + (off + of_nat k)) (n - k)
         then ESP_OK else ESP_ERR_INVALID_CRC)"
      by (rule less.IH [OF _ rf]) (use k less.prems in auto)
    moreover have "take n rest = take k rest @ take (n - k) (drop k rest)"
      using k by (metis le_add_diff_inverse take_add)
    ultimately show ?thesis
      using mem_bytes_split [OF k(2), of m "addr + off"] k less.prems by (auto simp: add.assoc)
  qed
qed

section \<open>What a working target does with the calls\<close>

text \<open>Address \<open>x\<close> lies in the \<open>n\<close> bytes from \<open>a\<close> (addresses wrap).\<close>

definition in_reg :: "u32 \<Rightarrow> u32 \<Rightarrow> nat \<Rightarrow> bool" where
  "in_reg x a n \<longleftrightarrow> unat (x - a) < n"

definition disjoint_regs :: "u32 \<Rightarrow> nat \<Rightarrow> u32 \<Rightarrow> nat \<Rightarrow> bool" where
  "disjoint_regs a n b k \<longleftrightarrow> (\<forall>x. \<not> (in_reg x a n \<and> in_reg x b k))"

definition store_bytes :: "(u32 \<Rightarrow> u8) \<Rightarrow> u32 \<Rightarrow> bytes \<Rightarrow> u32 \<Rightarrow> u8" where
  "store_bytes m a bs x = (if in_reg x a (length bs) then bs ! unat (x - a) else m x)"

text \<open>
  The target: its memory, and the page an asynchronous call has left in progress. The flash
  algorithm copies \<open>r1\<close> bytes from \<open>r2\<close> to \<open>r0\<close>; while it runs in the background nothing says when it
  reads its buffer, so the copy is taken at the latest moment, when its result is awaited.
\<close>

record target =
  tm_mem :: "u32 \<Rightarrow> u8"
  tm_pending :: "(u32 \<times> u32 \<times> u32) option"

definition copy_page :: "u32 \<Rightarrow> u32 \<Rightarrow> u32 \<Rightarrow> (u32 \<Rightarrow> u8) \<Rightarrow> u32 \<Rightarrow> u8" where
  "copy_page r0 r1 r2 m = store_bytes m r0 (mem_bytes m r2 (unat r1))"

definition settle :: "target \<Rightarrow> target" where
  "settle t = (case tm_pending t of
       None \<Rightarrow> t
     | Some (r0, r1, r2) \<Rightarrow> \<lparr>tm_mem = copy_page r0 r1 r2 (tm_mem t), tm_pending = None\<rparr>)"

fun target_step :: "u32 \<Rightarrow> hw_call \<Rightarrow> target \<Rightarrow> target" where
  "target_step pc (Swd_write_memory a d) t = t\<lparr>tm_mem := store_bytes (tm_mem t) a d\<rparr>"
| "target_step pc (Syscall_exec p r0 r1 r2 r3) t =
     (if p = pc then t\<lparr>tm_mem := copy_page r0 r1 r2 (tm_mem t)\<rparr> else t)"
| "target_step pc (Syscall_async p r0 r1 r2 r3) t =
     (if p = pc then t\<lparr>tm_pending := Some (r0, r1, r2)\<rparr> else t)"
| "target_step pc Syscall_wait t = settle t"
| "target_step pc c t = t"

definition run_target :: "u32 \<Rightarrow> hw_call list \<Rightarrow> target \<Rightarrow> target" where
  "run_target pc cs t = fold (target_step pc) cs t"

lemma run_target_simps [simp]:
  "run_target pc [] t = t" "run_target pc (c # cs) t = run_target pc cs (target_step pc c t)"
  "run_target pc (cs @ ds) t = run_target pc ds (run_target pc cs t)"
  by (simp_all add: run_target_def)

lemma target_step_led [simp]: "target_step pc (led_page idx) t = t"
  by (simp add: led_page_def)

lemma in_reg_offset: "i < n \<Longrightarrow> n \<le> 4294967296 \<Longrightarrow> in_reg (a + of_nat i) a n"
  by (simp add: in_reg_def unat_of_nat)

lemma in_reg_ex: "in_reg x a n \<Longrightarrow> \<exists>i<n. x = a + of_nat i"
  unfolding in_reg_def by (rule exI [of _ "unat (x - a)"]) simp

lemma in_reg_mono: "in_reg x a n \<Longrightarrow> n \<le> k \<Longrightarrow> in_reg x a k"
  by (simp add: in_reg_def)

lemma in_reg_after:
  assumes "ws + n \<le> 4294967296" and "i < ws" shows "\<not> in_reg (a + of_nat i) (a + of_nat ws) n"
proof
  assume "in_reg (a + of_nat i) (a + of_nat ws) n"
  from in_reg_ex [OF this] obtain j where j: "j < n" "a + of_nat i = a + of_nat ws + of_nat j" by blast
  then have "(of_nat i :: u32) = of_nat (ws + j)" by (simp add: add.assoc)
  then have "unat (of_nat i :: u32) = unat (of_nat (ws + j) :: u32)" by simp
  with assms j(1) show False by (simp add: unat_of_nat_u32 del: of_nat_add)
qed

lemma in_reg_split:
  assumes "in_reg x (a + of_nat k) n" and "k + n \<le> 4294967296"
  shows "in_reg x a (k + n)"
proof -
  from in_reg_ex [OF assms(1)] obtain j where "j < n" "x = a + of_nat (k + j)" by (auto simp: add.assoc)
  with assms(2) in_reg_offset [of "k + j" "k + n" a] show ?thesis by simp
qed

lemma store_bytes_at: "i < length bs \<Longrightarrow> length bs \<le> 4294967296 \<Longrightarrow> store_bytes m a bs (a + of_nat i) = bs ! i"
  by (simp add: store_bytes_def in_reg_offset unat_of_nat)

lemma store_bytes_other: "\<not> in_reg x a (length bs) \<Longrightarrow> store_bytes m a bs x = m x"
  by (simp add: store_bytes_def)

lemma mem_bytes_store: "length bs \<le> 4294967296 \<Longrightarrow> mem_bytes (store_bytes m a bs) a (length bs) = bs"
  by (rule nth_equalityI) (auto simp: mem_bytes_def store_bytes_at)

lemma mem_bytes_cong:
  "n \<le> 4294967296 \<Longrightarrow> (\<And>x. in_reg x a n \<Longrightarrow> m x = m' x) \<Longrightarrow> mem_bytes m a n = mem_bytes m' a n"
  by (simp add: mem_bytes_def in_reg_offset)

lemma mem_bytes_store_disjoint:
  "n \<le> 4294967296 \<Longrightarrow> disjoint_regs a n b (length bs) \<Longrightarrow> mem_bytes (store_bytes m b bs) a n = mem_bytes m a n"
  by (rule mem_bytes_cong) (auto simp: disjoint_regs_def store_bytes_other)

lemma copy_page_other: "\<not> in_reg x r0 (unat r1) \<Longrightarrow> copy_page r0 r1 r2 m x = m x"
  by (simp add: copy_page_def store_bytes_other)

lemma copy_page_in:
  "in_reg x r0 (unat r1) \<Longrightarrow> copy_page r0 r1 r2 m x = mem_bytes m r2 (unat r1) ! unat (x - r0)"
  by (simp add: copy_page_def store_bytes_def)

section \<open>Pages read from the file\<close>

text \<open>Operations only append to the history of calls.\<close>

definition extends :: "swd \<Rightarrow> swd \<Rightarrow> bool" where
  "extends s s' \<longleftrightarrow> (\<exists>l. sw_log s' = sw_log s @ l)"

lemma extends_refl [simp]: "extends s s"
  by (simp add: extends_def)

lemma extends_trans: "extends s s1 \<Longrightarrow> extends s1 s' \<Longrightarrow> extends s s'"
  by (auto simp: extends_def)

lemma extends_log [simp]: "extends s (s\<lparr>sw_log := sw_log s @ l\<rparr>)"
  by (simp add: extends_def)

lemma extends_update [simp]:
  "extends s0 (s\<lparr>sw_state := x\<rparr>) = extends s0 s"
  "extends s0 (s\<lparr>sw_breakpoint := w\<rparr>) = extends s0 s"
  "extends s0 (s\<lparr>sw_static_base := w\<rparr>) = extends s0 s"
  "extends s0 (s\<lparr>sw_stack_pointer := w\<rparr>) = extends s0 s"
  "extends s0 (s\<lparr>sw_code_start := w\<rparr>) = extends s0 s"
  "extends s0 (s\<lparr>sw_code_end := w\<rparr>) = extends s0 s"
  "extends s0 (s\<lparr>sw_stack_bottom := w\<rparr>) = extends s0 s"
  "extends s0 (s\<lparr>sw_stack_top := w\<rparr>) = extends s0 s"
  "extends s0 (s\<lparr>sw_stack_canary := w\<rparr>) = extends s0 s"
  "extends s0 (s\<lparr>sw_ram_start_addr := w\<rparr>) = extends s0 s"
  "extends s0 (s\<lparr>sw_ram_size := w\<rparr>) = extends s0 s"
  "extends s0 (s\<lparr>sw_stack_size := w\<rparr>) = extends s0 s"
  "extends s0 (s\<lparr>sw_algo_bin_len := w\<rparr>) = extends s0 s"
  by (simp_all add: extends_def)

named_theorems extends_rules \<open>every operation only appends to the log\<close>

lemma extends_intros [extends_rules]:
  "extends s0 s \<Longrightarrow> extends s0 (vcall hw c s)"
  "extends s0 s \<Longrightarrow> extends s0 (snd (unknown e s))"
  "extends s0 s \<Longrightarrow> extends s0 (snd (ecall hw c s))"
  "extends s0 s \<Longrightarrow> extends s0 (snd (hcall hw c s))"
  by (auto simp: vcall_eq unknown_def ecall_eq hcall_snd extends_def)

lemmas check_extends [extends_rules] = check_state [where P = "extends s0" for s0]

lemma fread_appends: "sw_log (snd (snd (fread hw n rest s))) = sw_log s @ [Fread n]"
  by (simp add: fread_def case_prod_unfold Let_def hcall_snd)

lemma fread_extends [extends_rules]: "extends s0 s \<Longrightarrow> extends s0 (snd (snd (fread hw n rest s)))"
  by (auto simp: extends_def fread_appends)

lemma loops_extend [extends_rules]:
  "extends s0 s \<Longrightarrow> extends s0 (snd (simple_loop hw pa n i r rest s))"
  "extends s0 s \<Longrightarrow> extends s0 (snd (double_loop hw pa n i c r rest s))"
proof -
  show "extends s0 s \<Longrightarrow> extends s0 (snd (simple_loop hw pa n i r rest s))"
  proof (induction n arbitrary: i r rest s)
    case (Suc n)
    show ?case unfolding simple_loop.simps Let_def case_prod_unfold by (intro extends_rules Suc)
  qed simp
  show "extends s0 s \<Longrightarrow> extends s0 (snd (double_loop hw pa n i c r rest s))"
  proof (induction n arbitrary: i c r rest s)
    case 0
    then show ?case by (auto intro!: extends_rules)
  next
    case (Suc n)
    show ?case unfolding double_loop.simps Let_def case_prod_unfold by (intro extends_rules Suc)
  qed
qed

text \<open>
  No read of the file between the histories \<open>l0\<close> and \<open>l\<close> was short: the case in which \<open>program_file\<close> does not print the
  warning that it got fewer bytes than it asked for.
\<close>

definition reads_full :: "hw \<Rightarrow> hw_call list \<Rightarrow> hw_call list \<Rightarrow> bool" where
  "reads_full hw l0 l \<longleftrightarrow>
     (\<forall>pre n post. l = l0 @ pre @ Fread n # post \<longrightarrow> hr_err (hw (l0 @ pre @ [Fread n])) = ESP_OK)"

lemma reads_full_head: "reads_full hw l0 (l0 @ Fread n # post) \<Longrightarrow> hr_err (hw (l0 @ [Fread n])) = ESP_OK"
  unfolding reads_full_def by (metis append_Nil)

lemma reads_full_tail: "reads_full hw l0 l \<Longrightarrow> reads_full hw (l0 @ c) l"
  unfolding reads_full_def by (metis append.assoc)

lemma reads_full_end: "reads_full hw l0 (l @ post) \<Longrightarrow> reads_full hw l0 l"
  unfolding reads_full_def by (metis append.assoc append_Cons)

lemma fread_not_short:
  assumes "reads_full hw (sw_log s) (sw_log s')" and "extends (s\<lparr>sw_log := sw_log s @ [Fread n]\<rparr>) s'"
  shows "fread hw n rest s = (take n rest, drop n rest, s\<lparr>sw_log := sw_log s @ [Fread n]\<rparr>)"
proof -
  from assms(2) obtain l where "sw_log s' = sw_log s @ Fread n # l" by (auto simp: extends_def)
  with assms(1) have "hr_err (hw (sw_log s @ [Fread n])) = ESP_OK" by (simp add: reads_full_head)
  then show ?thesis by (simp add: fread_def hcall_def Let_def)
qed

lemma fread_state: "snd (snd (fread hw n rest s)) = s\<lparr>sw_log := sw_log s @ [Fread n]\<rparr>"
  by (simp add: fread_def case_prod_unfold Let_def hcall_snd)

lemma loops_read_first:
  "simple_loop hw pa (Suc n) i r rest s = (e, s') \<Longrightarrow>
     extends (s\<lparr>sw_log := sw_log s @ [Fread (unat (min (pa_page_size pa) r))]\<rparr>) s'"
  "double_loop hw pa (Suc n) i c r rest s = (e, s') \<Longrightarrow>
     extends (s\<lparr>sw_log := sw_log s @ [Fread (unat (min (pa_page_size pa) r))]\<rparr>) s'"
proof -
  let ?s = "s\<lparr>sw_log := sw_log s @ [Fread (unat (min (pa_page_size pa) r))]\<rparr>"
  have "extends ?s (snd (simple_loop hw pa (Suc n) i r rest s))"
    unfolding simple_loop.simps Let_def case_prod_unfold fread_state by (intro extends_rules extends_refl)
  then show "simple_loop hw pa (Suc n) i r rest s = (e, s') \<Longrightarrow> extends ?s s'" by simp
  have "extends ?s (snd (double_loop hw pa (Suc n) i c r rest s))"
    unfolding double_loop.simps Let_def case_prod_unfold fread_state by (intro extends_rules extends_refl)
  then show "double_loop hw pa (Suc n) i c r rest s = (e, s') \<Longrightarrow> extends ?s s'" by simp
qed

lemma unat_min_u32: "unat (min a b :: u32) = min (unat a) (unat b)"
  by (simp add: min_def word_le_nat_alt)

text \<open>Sizes of one page of a file of which \<open>rest\<close> is left.\<close>

lemma page_sizes:
  fixes ps remain :: u32
  assumes "unat remain = length rest" and "rest \<noteq> []" and "ps \<noteq> 0"
  defines "k \<equiv> unat (min ps remain)"
  shows "k = min (unat ps) (length rest)" "0 < k" "length (take k rest) = k"
    "of_nat (length (take k rest)) = min ps remain"
    "unat (remain - min ps remain) = length (drop k rest)"
proof -
  show k: "k = min (unat ps) (length rest)" by (simp add: k_def unat_min_u32 assms(1))
  show "0 < k" using assms(2,3) by (simp add: k unat_gt_0)
  show len: "length (take k rest) = k" by (simp add: k)
  show "of_nat (length (take k rest)) = min ps remain" unfolding len by (simp add: k_def)
  have "min ps remain \<le> remain" by simp
  then show "unat (remain - min ps remain) = length (drop k rest)"
    by (simp add: unat_sub_u32 k_def [symmetric] assms(1))
qed

text \<open>The number of pages left: as many as cover the rest, the last one not empty.\<close>

definition pages_left :: "u32 \<Rightarrow> bytes \<Rightarrow> nat \<Rightarrow> bool" where
  "pages_left ps rest n \<longleftrightarrow> length rest \<le> n * unat ps \<and> (n = 0 \<or> (n - 1) * unat ps < length rest)"

lemma pages_left_0: "pages_left ps rest 0 \<Longrightarrow> rest = []"
  by (simp add: pages_left_def)

lemma pages_left_Suc:
  assumes "pages_left ps rest (Suc n)"
  shows "rest \<noteq> []" "pages_left ps (drop (min (unat ps) (length rest)) rest) n"
    "length rest \<le> unat ps \<Longrightarrow> n = 0" "n \<noteq> 0 \<Longrightarrow> unat ps < length rest"
proof -
  show "rest \<noteq> []" using assms by (auto simp: pages_left_def)
  show z: "length rest \<le> unat ps \<Longrightarrow> n = 0"
    using assms by (cases n) (auto simp: pages_left_def)
  then show big: "n \<noteq> 0 \<Longrightarrow> unat ps < length rest" by fastforce
  show "pages_left ps (drop (min (unat ps) (length rest)) rest) n"
  proof (cases n)
    case 0
    with assms show ?thesis by (auto simp: pages_left_def)
  next
    case (Suc k)
    with assms big show ?thesis by (auto simp: pages_left_def)
  qed
qed

lemma page_count_left:
  assumes "ps \<noteq> 0" and "length file < 4294967296"
  shows "pages_left ps file (unat (page_count (of_nat (length file)) ps))"
proof -
  let ?n = "length file" and ?p = "unat ps"
  have p: "0 < ?p" using assms(1) by (simp add: unat_gt_0)
  have n: "unat (of_nat ?n :: u32) = ?n" using assms(2) by (rule unat_of_nat_u32)
  have dv: "unat (of_nat ?n div ps) = ?n div ?p" "unat (of_nat ?n mod ps) = ?n mod ?p"
    using n by (simp_all add: unat_div_distrib unat_mod_distrib)
  have md: "(of_nat ?n mod ps = 0) = (?n mod ?p = 0)"
    using dv(2) by (metis unat_eq_zero)
  have "unat (page_count (of_nat ?n) ps) = ?n div ?p + (if ?n mod ?p \<noteq> 0 then 1 else 0)"
  proof (cases "?n mod ?p = 0")
    case True
    with md dv show ?thesis by (simp add: page_count_def)
  next
    case False
    then have "2 \<le> ?p" using p by (cases "?p = 1") auto
    then have "?n div ?p \<le> ?n div 2" by (rule div_le_mono2 [rotated]) simp
    then have "?n div ?p + 1 < 4294967296" using assms(2) by simp
    with False md dv show ?thesis
      by (simp add: page_count_def) (subst unat_add_u32, simp_all)
  qed
  moreover have "?n = (?n div ?p) * ?p + ?n mod ?p" by simp
  ultimately show ?thesis
    using p mod_less_divisor [OF p, of ?n]
    by (cases "?n div ?p") (auto simp: pages_left_def split: if_splits)
qed

section \<open>The simple loop\<close>

text \<open>
  What the calls of a programming loop do to a target: the rest of the file ends up at \<open>a\<close>, and
  nothing outside it and the buffers changes.
\<close>

definition page_addr :: "prog_args \<Rightarrow> u32 \<Rightarrow> u32" where
  "page_addr pa page_idx = pa_addr_offset pa + page_idx * pa_page_size pa"

definition buf_base :: "swd \<Rightarrow> u32" where
  "buf_base s = sw_stack_top s + sw_stack_size s"

lemma buf_base_log [simp]: "buf_base (s\<lparr>sw_log := l\<rparr>) = buf_base s"
  by (simp add: buf_base_def)

definition writes_rest ::
  "prog_args \<Rightarrow> u32 \<Rightarrow> nat \<Rightarrow> u32 \<Rightarrow> bytes \<Rightarrow> (u32 \<Rightarrow> u8) \<Rightarrow> (u32 \<Rightarrow> u8) \<Rightarrow> bool" where
  "writes_rest pa base bufs a rest m m' \<longleftrightarrow>
     mem_bytes m' a (length rest) = rest \<and>
     (\<forall>x. \<not> in_reg x a (length rest) \<and> \<not> in_reg x base bufs \<longrightarrow> m' x = m x)"

text \<open>One page followed by the rest of the file, for both loops.\<close>

lemma writes_rest_page:
  assumes "k \<le> length rest" and len: "length rest \<le> 4294967296"
    and page: "\<And>x. in_reg x a k \<Longrightarrow> m1 x = rest ! unat (x - a)"
    and other: "\<And>x. \<not> in_reg x a k \<Longrightarrow> \<not> in_reg x base bufs \<Longrightarrow> m1 x = m x"
    and next_page: "writes_rest pa base bufs a' (drop k rest) m1 m'"
    and a': "drop k rest \<noteq> [] \<longrightarrow> a' = a + of_nat k"
    and disj: "disjoint_regs a (length rest) base bufs"
  shows "writes_rest pa base bufs a rest m m'"
proof -
  have frame: "m' x = m1 x" if "\<not> in_reg x a' (length (drop k rest))" "\<not> in_reg x base bufs" for x
    using next_page that by (auto simp: writes_rest_def)
  have notin: "\<not> in_reg x base bufs" if "in_reg x a (length rest)" for x
    using disj that by (auto simp: disjoint_regs_def)
  have first: "mem_bytes m' a k = take k rest"
  proof (rule nth_equalityI)
    fix i assume "i < length (mem_bytes m' a k)"
    then have i: "i < k" by simp
    have "\<not> in_reg (a + of_nat i) a' (length (drop k rest))"
    proof (cases "drop k rest = []")
      case False
      with a' in_reg_after [of k "length rest - k" i a] i len assms(1) show ?thesis by simp
    qed (simp add: in_reg_def)
    moreover have "in_reg (a + of_nat i) a k" using i assms(1) len by (intro in_reg_offset) auto
    moreover from this have "\<not> in_reg (a + of_nat i) base bufs"
      using notin in_reg_mono assms(1) by blast
    ultimately have "m' (a + of_nat i) = rest ! i"
      using frame page i len assms(1) by (simp add: unat_of_nat)
    with i assms(1) show "mem_bytes m' a k ! i = take k rest ! i" by (simp add: mem_bytes_def)
  qed (use assms(1) in simp)
  have second: "mem_bytes m' (a + of_nat k) (length rest - k) = drop k rest"
    using next_page a' by (cases "drop k rest = []") (auto simp: writes_rest_def mem_bytes_def)
  have "mem_bytes m' a (length rest) = rest"
    using mem_bytes_split [OF assms(1), of m' a] first second by simp
  moreover have "m' x = m x" if "\<not> in_reg x a (length rest)" "\<not> in_reg x base bufs" for x
  proof -
    have "\<not> in_reg x a' (length (drop k rest))"
    proof (cases "drop k rest = []")
      case False
      with a' in_reg_split [of x a k "length rest - k"] that(1) len assms(1) show ?thesis by auto
    qed (simp add: in_reg_def)
    with frame that(2) have "m' x = m1 x" by blast
    moreover have "\<not> in_reg x a k" using that(1) in_reg_mono assms(1) by blast
    ultimately show ?thesis using other that(2) by simp
  qed
  ultimately show ?thesis by (simp add: writes_rest_def)
qed

lemma next_page_addr:
  assumes "pages_left ps rest (Suc n)" and "drop (min (unat ps) (length rest)) rest \<noteq> []"
    and "pa_page_size pa = ps"
  shows "page_addr pa (idx + 1) = page_addr pa idx + of_nat (min (unat ps) (length rest))"
proof -
  have "unat ps < length rest" using assms(2) by (metis drop_all linorder_not_le min.absorb2 order_refl)
  then show ?thesis using assms(3) by (simp add: page_addr_def ring_distribs min_def)
qed

lemma disjoint_regs_sub:
  assumes "disjoint_regs a (length rest) b n" and "length rest \<le> 4294967296" and "k \<le> length rest"
    and "drop k rest \<noteq> [] \<longrightarrow> a' = a + of_nat k"
  shows "disjoint_regs a' (length (drop k rest)) b n"
proof (cases "drop k rest = []")
  case False
  with assms in_reg_split [of _ a k "length rest - k"] show ?thesis
    by (fastforce simp: disjoint_regs_def)
qed (simp add: disjoint_regs_def in_reg_def)

lemma simple_loop_writes:
  assumes "reads_full hw (sw_log s) (sw_log s')" and "pa_page_size pa = ps" and "ps \<noteq> 0"
    and "simple_loop hw pa n idx remain rest s = (ESP_OK, s')"
    and "pages_left ps rest n" and "unat remain = length rest"
    and "disjoint_regs (page_addr pa idx) (length rest) (buf_base s) (unat ps)"
  shows "\<exists>calls. sw_log s' = sw_log s @ calls \<and> sw_stack_top s' = sw_stack_top s \<and>
     sw_stack_size s' = sw_stack_size s \<and>
     (\<forall>t. writes_rest pa (buf_base s) (unat ps) (page_addr pa idx) rest
            (tm_mem t) (tm_mem (run_target (pa_pc pa) calls t)))"
  using assms(4-7,1)
proof (induction n arbitrary: idx remain rest s)
  case 0
  then show ?case
    using pages_left_0 [of ps rest]
    by (auto simp: writes_rest_def mem_bytes_def)
next
  case (Suc n)
  note pl = pages_left_Suc [OF Suc.prems(2)]
  define k where "k = unat (min ps remain)"
  define d where "d = take k rest"
  note sz = page_sizes [OF Suc.prems(3) pl(1) assms(3), folded k_def]
  let ?a = "page_addr pa idx" and ?b = "buf_base s"
  let ?calls = "[Fread k, Swd_write_memory ?b d, Syscall_exec (pa_pc pa) ?a (min ps remain) ?b 0, led_page idx]"
  let ?s = "s\<lparr>sw_log := sw_log s @ ?calls\<rparr>"
  have kl: "k \<le> length rest" using sz by simp
  have wk: "of_nat (length d) = min ps remain" unfolding d_def by (rule sz(4))
  have rd: "fread hw k rest s = (d, drop k rest, s\<lparr>sw_log := sw_log s @ [Fread k]\<rparr>)"
    using fread_not_short [OF Suc.prems(5)] loops_read_first(1) [OF Suc.prems(1)] by (simp add: k_def d_def assms(2))
  have rec: "simple_loop hw pa n (idx + 1) (remain - min ps remain) (drop k rest) ?s = (ESP_OK, s')"
    using Suc.prems(1) kl wk
    by (simp add: rd call_eqs k_def [symmetric] d_def [symmetric] assms(2)
        unknown_def buf_base_def page_addr_def split: if_splits)
  have a': "drop k rest \<noteq> [] \<longrightarrow> page_addr pa (idx + 1) = ?a + of_nat k"
    using next_page_addr [OF Suc.prems(2) _ assms(2)] sz(1) by simp
  have small: "length rest \<le> 4294967296" using Suc.prems(3) unat_u32_less [of remain] by simp
  have pl': "pages_left ps (drop k rest) n" using pl(2) sz(1) by simp
  obtain calls where ih: "sw_log s' = sw_log ?s @ calls" "sw_stack_top s' = sw_stack_top s"
      "sw_stack_size s' = sw_stack_size s"
      "\<forall>t. writes_rest pa ?b (unat ps) (page_addr pa (idx + 1)) (drop k rest)
            (tm_mem t) (tm_mem (run_target (pa_pc pa) calls t))"
    using Suc.IH [OF rec pl' sz(5)] disjoint_regs_sub [OF Suc.prems(4) small kl a'] reads_full_tail [OF Suc.prems(5)] by auto
  have "writes_rest pa ?b (unat ps) ?a rest (tm_mem t) (tm_mem (run_target (pa_pc pa) (?calls @ calls) t))" for t
  proof -
    let ?m = "store_bytes (tm_mem t) ?b d" and ?m1 = "tm_mem (run_target (pa_pc pa) ?calls t)"
    have ld: "length d = k" using sz(3) by (simp add: d_def)
    have m1: "?m1 = copy_page ?a (min ps remain) ?b ?m"
      by simp
    have buf: "mem_bytes ?m ?b k = d"
      using mem_bytes_store [of d "tm_mem t" ?b] ld kl small by simp
    show ?thesis
    proof (rule writes_rest_page [OF kl small _ _ _ a' Suc.prems(4), of ?m1])
      fix x assume "in_reg x ?a k"
      then show "?m1 x = rest ! unat (x - ?a)"
        using copy_page_in [of x ?a "min ps remain" ?b ?m] buf
        by (simp add: m1 k_def [symmetric] d_def in_reg_def)
    next
      fix x assume "\<not> in_reg x ?a k" "\<not> in_reg x ?b (unat ps)"
      moreover from this(2) have "\<not> in_reg x ?b (length d)"
        using in_reg_mono [of x ?b "length d" "unat ps"] ld sz(1) by auto
      ultimately show "?m1 x = tm_mem t x"
        by (simp add: m1 copy_page_other k_def [symmetric] store_bytes_other)
    next
      show "writes_rest pa ?b (unat ps) (page_addr pa (idx + 1)) (drop k rest) ?m1
          (tm_mem (run_target (pa_pc pa) (?calls @ calls) t))"
        using ih(4) [rule_format, of "run_target (pa_pc pa) ?calls t"] by simp
    qed
  qed
  with ih show ?case by (intro exI [of _ "?calls @ calls"]) simp
qed

section \<open>The double-buffered loop\<close>

definition cur_buf :: "u32 \<Rightarrow> u32 \<Rightarrow> nat \<Rightarrow> u32" where
  "cur_buf base ps c = (if c = 0 then base else base + ps)"

lemma cur_buf_in_bufs:
  assumes "in_reg x (cur_buf base ps c) k" and "k \<le> unat ps" and "2 * unat ps \<le> 4294967296"
  shows "in_reg x base (2 * unat ps)"
proof (cases "c = 0")
  case True
  with assms show ?thesis by (auto simp: cur_buf_def intro: in_reg_mono)
next
  case False
  with assms(1) have "in_reg x (base + of_nat (unat ps)) k" by (simp add: cur_buf_def)
  then have "in_reg x base (unat ps + k)" by (rule in_reg_split) (use assms in simp)
  with assms(2) show ?thesis by (auto intro: in_reg_mono)
qed

lemma cur_bufs_disjoint:
  assumes "k \<le> unat ps" and "j \<le> unat ps" and "2 * unat ps \<le> 4294967296" and "(c = 0) \<noteq> (d = 0)"
  shows "disjoint_regs (cur_buf base ps c) k (cur_buf base ps d) j"
proof -
  have low: "\<not> in_reg x (base + ps) n" if "in_reg x base m" "m \<le> unat ps" "n \<le> unat ps" for x m n
  proof -
    from in_reg_ex [OF that(1)] obtain i where "i < m" "x = base + of_nat i" by blast
    with in_reg_after [of "unat ps" n i base] that assms(3) show ?thesis by simp
  qed
  show ?thesis using assms low by (cases "c = 0") (auto simp: disjoint_regs_def cur_buf_def)
qed

text \<open>The page in progress sits in the buffer that is not filled next, and is written outside the buffers.\<close>

definition pending_ok :: "u32 \<Rightarrow> u32 \<Rightarrow> nat \<Rightarrow> target \<Rightarrow> bool" where
  "pending_ok base ps c t =
     (case tm_pending t of
        None \<Rightarrow> True
      | Some (r0, r1, r2) \<Rightarrow> r2 = cur_buf base ps (if c = 0 then 1 else 0) \<and> unat r1 \<le> unat ps \<and>
          disjoint_regs r0 (unat r1) base (2 * unat ps))"

text \<open>Filling the other buffer and then waiting gives what waiting alone gives, plus the new page in RAM.\<close>

lemma settle_after_fill:
  assumes ok: "pending_ok base ps c t" and d: "length d \<le> unat ps" and small: "2 * unat ps \<le> 4294967296"
  defines "cb \<equiv> cur_buf base ps c"
  defines "m \<equiv> tm_mem (settle (t\<lparr>tm_mem := store_bytes (tm_mem t) cb d\<rparr>))"
  shows "mem_bytes m cb (length d) = d"
    and "\<not> in_reg x base (2 * unat ps) \<Longrightarrow> m x = tm_mem (settle t) x"
proof -
  let ?m0 = "store_bytes (tm_mem t) cb d"
  have dn: "length d \<le> 4294967296" using d small by simp
  have fill: "mem_bytes ?m0 cb (length d) = d" using dn by (rule mem_bytes_store)
  have cbx: "\<not> in_reg x cb (length d)" if "\<not> in_reg x base (2 * unat ps)" for x
    using cur_buf_in_bufs [OF _ d small, of x base c] that by (auto simp: cb_def)
  have "mem_bytes m cb (length d) = d \<and> (\<not> in_reg x base (2 * unat ps) \<longrightarrow> m x = tm_mem (settle t) x)"
  proof (cases "tm_pending t")
    case None
    then have "m = ?m0" "settle t = t" by (simp_all add: m_def settle_def)
    with fill cbx show ?thesis by (auto simp: store_bytes_other)
  next
    case (Some p)
    obtain r0 r1 r2 where p: "p = (r0, r1, r2)" by (metis surj_pair)
    with ok Some have r2: "r2 = cur_buf base ps (if c = 0 then 1 else 0)" and r1: "unat r1 \<le> unat ps"
        and out: "disjoint_regs r0 (unat r1) base (2 * unat ps)"
      by (auto simp: pending_ok_def)
    have m: "m = copy_page r0 r1 r2 ?m0" and st: "tm_mem (settle t) = copy_page r0 r1 r2 (tm_mem t)"
      using Some p by (simp_all add: m_def settle_def)
    have "disjoint_regs r2 (unat r1) cb (length d)"
      unfolding r2 cb_def by (rule cur_bufs_disjoint [OF r1 d small]) simp
    then have src: "mem_bytes ?m0 r2 (unat r1) = mem_bytes (tm_mem t) r2 (unat r1)"
      using r1 small by (intro mem_bytes_store_disjoint) auto
    have "mem_bytes m cb (length d) = mem_bytes ?m0 cb (length d)"
    proof (rule mem_bytes_cong [OF dn])
      fix x assume "in_reg x cb (length d)"
      then have "in_reg x base (2 * unat ps)" using cur_buf_in_bufs [OF _ d small] by (simp add: cb_def)
      with out have "\<not> in_reg x r0 (unat r1)" by (auto simp: disjoint_regs_def)
      then show "m x = ?m0 x" by (simp add: m copy_page_other)
    qed
    moreover have "m x = tm_mem (settle t) x" if "\<not> in_reg x base (2 * unat ps)"
      using cbx [OF that] src by (simp add: m st copy_page_def store_bytes_def)
    ultimately show ?thesis using fill by simp
  qed
  then show "mem_bytes m cb (length d) = d"
    and "\<not> in_reg x base (2 * unat ps) \<Longrightarrow> m x = tm_mem (settle t) x" by blast+
qed

lemma double_loop_writes:
  assumes "reads_full hw (sw_log s) (sw_log s')" and "pa_page_size pa = ps" and "ps \<noteq> 0" and small2: "2 * unat ps \<le> 4294967296"
    and "double_loop hw pa n idx c remain rest s = (ESP_OK, s')"
    and "pages_left ps rest n" and "unat remain = length rest" and "c \<le> 1"
    and "disjoint_regs (page_addr pa idx) (length rest) (buf_base s) (2 * unat ps)"
  shows "\<exists>calls. sw_log s' = sw_log s @ calls \<and> sw_stack_top s' = sw_stack_top s \<and>
     sw_stack_size s' = sw_stack_size s \<and>
     (\<forall>t. pending_ok (buf_base s) ps c t \<longrightarrow>
        writes_rest pa (buf_base s) (2 * unat ps) (page_addr pa idx) rest
            (tm_mem (settle t)) (tm_mem (run_target (pa_pc pa) calls t)))"
  using assms(5-9,1)
proof (induction n arbitrary: idx c remain rest s)
  case 0
  then show ?case
    using pages_left_0 [of ps rest]
    by (intro exI [of _ "[Syscall_wait]"])
      (auto simp: writes_rest_def mem_bytes_def call_eqs unknown_def split: if_splits)
next
  case (Suc n)
  note pl = pages_left_Suc [OF Suc.prems(2)]
  define k where "k = unat (min ps remain)"
  define d where "d = take k rest"
  define c' :: nat where "c' = (if c = 1 then 0 else 1)"
  note sz = page_sizes [OF Suc.prems(3) pl(1) assms(3), folded k_def]
  let ?a = "page_addr pa idx" and ?b = "buf_base s"
  let ?cb = "cur_buf ?b ps c"
  let ?calls = "[Fread k, Swd_write_memory ?cb d, Syscall_wait,
    Syscall_async (pa_pc pa) ?a (min ps remain) ?cb 0, led_page idx]"
  let ?s = "s\<lparr>sw_log := sw_log s @ ?calls\<rparr>"
  have kl: "k \<le> length rest" using sz by simp
  have wk: "of_nat (length d) = min ps remain" unfolding d_def by (rule sz(4))
  have ld: "length d = k" using sz(3) by (simp add: d_def)
  have rd: "fread hw k rest s = (d, drop k rest, s\<lparr>sw_log := sw_log s @ [Fread k]\<rparr>)"
    using fread_not_short [OF Suc.prems(6)] loops_read_first(2) [OF Suc.prems(1)] by (simp add: k_def d_def assms(2))
  have rec: "double_loop hw pa n (idx + 1) c' (remain - min ps remain) (drop k rest) ?s = (ESP_OK, s')"
    using Suc.prems(1) kl wk
    by (simp add: rd call_eqs k_def [symmetric] d_def [symmetric] assms(2)
        c'_def unknown_def buf_base_def page_addr_def cur_buf_def split: if_splits)
  have a': "drop k rest \<noteq> [] \<longrightarrow> page_addr pa (idx + 1) = ?a + of_nat k"
    using next_page_addr [OF Suc.prems(2) _ assms(2)] sz(1) by simp
  have small: "length rest \<le> 4294967296" using Suc.prems(3) unat_u32_less [of remain] by simp
  have pl': "pages_left ps (drop k rest) n" using pl(2) sz(1) by simp
  have c'1: "c' \<le> 1" by (simp add: c'_def)
  obtain calls where ih: "sw_log s' = sw_log ?s @ calls" "sw_stack_top s' = sw_stack_top s"
      "sw_stack_size s' = sw_stack_size s"
      "\<And>t. pending_ok ?b ps c' t \<Longrightarrow> writes_rest pa ?b (2 * unat ps) (page_addr pa (idx + 1)) (drop k rest)
            (tm_mem (settle t)) (tm_mem (run_target (pa_pc pa) calls t))"
    using Suc.IH [OF rec pl' sz(5) c'1] disjoint_regs_sub [OF Suc.prems(5) small kl a'] reads_full_tail [OF Suc.prems(6)] by auto
  have "writes_rest pa ?b (2 * unat ps) ?a rest (tm_mem (settle t))
      (tm_mem (run_target (pa_pc pa) (?calls @ calls) t))" if ok: "pending_ok ?b ps c t" for t
  proof -
    let ?t = "run_target (pa_pc pa) ?calls t"
    let ?m = "tm_mem (settle (t\<lparr>tm_mem := store_bytes (tm_mem t) ?cb d\<rparr>))"
    have kp: "k \<le> unat ps" using sz(1) by simp
    note fill = settle_after_fill [OF ok, of d, unfolded ld, OF kp small2]
    have t: "tm_pending ?t = Some (?a, min ps remain, ?cb)" "tm_mem ?t = ?m"
      by simp_all
    have m1: "tm_mem (settle ?t) = copy_page ?a (min ps remain) ?cb ?m"
      using t by (simp add: settle_def)
    have "disjoint_regs ?a k ?b (2 * unat ps)"
      using Suc.prems(5) in_reg_mono [OF _ kl] by (auto simp: disjoint_regs_def)
    then have pend: "pending_ok ?b ps c' ?t"
      using t(1) kp Suc.prems(4) by (auto simp: pending_ok_def k_def [symmetric] c'_def cur_buf_def)
    show ?thesis
    proof (rule writes_rest_page [OF kl small _ _ _ a' Suc.prems(5), of "tm_mem (settle ?t)"])
      fix x assume "in_reg x ?a k"
      then show "tm_mem (settle ?t) x = rest ! unat (x - ?a)"
        unfolding m1 using copy_page_in [of x ?a "min ps remain" ?cb ?m] fill(1)
        by (simp add: k_def [symmetric] in_reg_def) (simp add: d_def)
    next
      fix x assume "\<not> in_reg x ?a k" "\<not> in_reg x ?b (2 * unat ps)"
      then show "tm_mem (settle ?t) x = tm_mem (settle t) x"
        unfolding m1 using fill(2) by (simp add: copy_page_other k_def [symmetric])
    next
      show "writes_rest pa ?b (2 * unat ps) (page_addr pa (idx + 1)) (drop k rest) (tm_mem (settle ?t))
          (tm_mem (run_target (pa_pc pa) (?calls @ calls) t))"
        using ih(4) [OF pend] by simp
    qed
  qed
  with ih(1-3) show ?case by (intro exI [of _ "?calls @ calls"]) simp
qed

section \<open>Whole operations\<close>

lemma run_algo_uninit_log:
  "run_algo_uninit hw cfg mode s = (r, s') \<Longrightarrow>
     \<exists>post. sw_log s' = sw_log s @ post \<and> buf_base s' = buf_base s"
  by (auto simp: run_algo_uninit_def call_eqs unknown_def buf_base_def split: if_splits option.splits)

lemma with_page_buffer_OK:
  "with_page_buffer hw ps k s = (ESP_OK, s') \<Longrightarrow>
     k (s\<lparr>sw_log := sw_log s @ [Dma_malloc ps]\<rparr>) = (ESP_OK, s')"
  by (auto simp: with_page_buffer_def check_ecall cpu_fault_def split: if_splits)

lemma settle_idle: "tm_pending t = None \<Longrightarrow> settle t = t"
  by (simp add: settle_def)

text \<open>Both ways of programming put the whole file at its address.\<close>

lemma perform_program_writes:
  assumes work: "reads_full hw (sw_log s) (sw_log s')" and ps: "pa_page_size pa = ps" "ps \<noteq> 0" "2 * unat ps \<le> 4294967296"
    and len: "length file < 4294967296"
    and ok: "(if double then perform_double_buffered_program hw pa (of_nat (length file)) file s
       else perform_simple_program hw pa (of_nat (length file)) file s) = (ESP_OK, s')"
    and disj: "disjoint_regs (pa_addr_offset pa) (length file) (buf_base s') (2 * unat ps)"
    and base: "buf_base s' = buf_base s"
  shows "\<exists>calls. sw_log s' = sw_log s @ calls \<and>
     (\<forall>t. tm_pending t = None \<longrightarrow>
        writes_rest pa (buf_base s) (2 * unat ps) (pa_addr_offset pa) file
          (tm_mem t) (tm_mem (run_target (pa_pc pa) calls t)))"
proof -
  let ?n = "unat (page_count (of_nat (length file)) ps)"
  let ?s = "s\<lparr>sw_log := sw_log s @ [Dma_malloc ps]\<rparr>"
  have full: "reads_full hw (sw_log ?s) (sw_log s')" using reads_full_tail [OF work] by simp
  have pl: "pages_left ps file ?n" by (rule page_count_left [OF ps(2) len])
  have rem: "unat (of_nat (length file) :: u32) = length file" using len by (rule unat_of_nat_u32)
  have a0: "page_addr pa 0 = pa_addr_offset pa" by (simp add: page_addr_def)
  show ?thesis
  proof (cases double)
    case True
    with ok ps have "double_loop hw pa ?n 0 0 (of_nat (length file)) file ?s = (ESP_OK, s')"
      by (auto simp: perform_double_buffered_program_def dest: with_page_buffer_OK)
    from double_loop_writes [OF full ps this pl rem] disj base a0
    obtain calls where c: "sw_log s' = sw_log ?s @ calls"
        "\<And>t. pending_ok (buf_base s) ps 0 t \<Longrightarrow>
          writes_rest pa (buf_base s) (2 * unat ps) (pa_addr_offset pa) file
            (tm_mem (settle t)) (tm_mem (run_target (pa_pc pa) calls t))"
      by auto
    have "writes_rest pa (buf_base s) (2 * unat ps) (pa_addr_offset pa) file
        (tm_mem t) (tm_mem (run_target (pa_pc pa) calls t))" if "tm_pending t = None" for t
      using c(2) [of t] that by (simp add: pending_ok_def settle_idle)
    with c(1) show ?thesis by (intro exI [of _ "Dma_malloc ps # calls"]) simp
  next
    case False
    with ok ps have "simple_loop hw pa ?n 0 (of_nat (length file)) file ?s = (ESP_OK, s')"
      by (auto simp: perform_simple_program_def dest: with_page_buffer_OK)
    moreover have "disjoint_regs (page_addr pa 0) (length file) (buf_base ?s) (unat ps)"
      using disj base a0 in_reg_mono [of _ "buf_base s" "unat ps" "2 * unat ps"]
      by (auto simp: disjoint_regs_def)
    ultimately obtain calls where c: "sw_log s' = sw_log ?s @ calls"
        "\<And>t. writes_rest pa (buf_base s) (unat ps) (pa_addr_offset pa) file
            (tm_mem t) (tm_mem (run_target (pa_pc pa) calls t))"
      using simple_loop_writes [OF full ps(1,2) _ pl rem] a0 by fastforce
    have "writes_rest pa (buf_base s) (2 * unat ps) (pa_addr_offset pa) file
        (tm_mem t) (tm_mem (run_target (pa_pc pa) calls t))" for t
      using c(2) [of t] in_reg_mono [of _ "buf_base s" "unat ps" "2 * unat ps"]
      by (auto simp: writes_rest_def)
    with c(1) show ?thesis by (intro exI [of _ "Dma_malloc ps # calls"]) simp
  qed
qed

lemma perform_program_base:
  assumes "(if double then perform_double_buffered_program hw pa len file s
       else perform_simple_program hw pa len file s) = (ESP_OK, s')"
  shows "buf_base s' = buf_base s"
proof -
  have d: "buf_base s' = buf_base s" if "double_loop hw pa n i c r rest s = (ESP_OK, s')" for n i c r rest s
    using that
    by (induction n arbitrary: i c r rest s)
      (auto simp: call_eqs fread_def unknown_def buf_base_def split: if_splits prod.splits)
  have e: "buf_base s' = buf_base s" if "simple_loop hw pa n i r rest s = (ESP_OK, s')" for n i r rest s
    using that
    by (induction n arbitrary: i r rest s)
      (auto simp: call_eqs fread_def unknown_def buf_base_def split: if_splits prod.splits)
  show ?thesis
    using assms with_page_buffer_OK d e
    by (fastforce simp: perform_double_buffered_program_def perform_simple_program_def split: if_splits)
qed

end
