(* ===== verification/Swd_Correct.thy ===== *)
theory Swd_Correct
  imports Swd_Target
begin

text \<open>
  Properties of the operations of \<open>main/prog/swd_prog.cpp\<close>: which sectors an erase covers, that
  \<open>verify\<close> is exact, that \<open>program_file\<close> leaves the file in the flash, where \<open>init\<close> places the stack and
  the page buffers, and three findings. A sample target shows that the hypotheses can hold.
\<close>

section \<open>Erased sectors\<close>

text \<open>Calls only append to the log; \<open>done_since\<close>: the call was made after \<open>s\<close> and succeeded.\<close>

definition done_since :: "hw \<Rightarrow> swd \<Rightarrow> swd \<Rightarrow> hw_call \<Rightarrow> bool" where
  "done_since hw s s' c \<longleftrightarrow>
     (\<exists>l r. sw_log s' = sw_log s @ l @ c # r \<and> hr_err (hw (sw_log s @ l @ [c])) = ESP_OK)"

lemma done_since_left: "extends s s1 \<Longrightarrow> done_since hw s1 s' c \<Longrightarrow> done_since hw s s' c"
  unfolding extends_def done_since_def by (metis append.assoc)

lemma done_since_right: "done_since hw s s1 c \<Longrightarrow> extends s1 s' \<Longrightarrow> done_since hw s s' c"
  unfolding extends_def done_since_def by (metis append.assoc append_Cons)

lemma erase_loop_done:
  assumes "erase_loop hw pc start ss n idx s = (ESP_OK, s')"
  shows "extends s s' \<and>
    (\<forall>k<n. done_since hw s s' (Syscall_exec pc (start + (idx + of_nat k) * ss) 0 0 0))"
  using assms
proof (induction n arbitrary: idx s)
  case (Suc n)
  let ?c = "Syscall_exec pc (start + idx * ss) 0 0 0"
  let ?s = "s\<lparr>sw_log := sw_log s @ [?c] @
      [if idx mod 10 = 0 then Led_color 0 0 60 else Led_color 0 0 0]\<rparr>"
  from Suc.prems have rec: "erase_loop hw pc start ss n (idx + 1) ?s = (ESP_OK, s')"
      and ok: "hr_err (hw (sw_log s @ [?c])) = ESP_OK"
    by (simp_all add: call_eqs split: if_splits)
  note ih = Suc.IH [OF rec]
  have e1: "extends s ?s" by (simp add: extends_def)
  have first: "done_since hw s ?s ?c"
    unfolding done_since_def by (rule exI [of _ "[]"]) (simp add: ok)
  have "done_since hw s s' (Syscall_exec pc (start + (idx + of_nat k) * ss) 0 0 0)" if "k < Suc n" for k
  proof (cases k)
    case 0
    with first ih show ?thesis by (auto intro: done_since_right)
  next
    case (Suc j)
    with that ih have "done_since hw ?s s' (Syscall_exec pc (start + (idx + 1 + of_nat j) * ss) 0 0 0)"
      by simp
    from done_since_left [OF e1 this] show ?thesis by (simp add: Suc add.assoc)
  qed
  with extends_trans [OF e1] ih show ?case by blast
qed simp

text \<open>The sector of a flash that an address belongs to is one of those counted.\<close>

lemma sector_of:
  fixes ss len :: u32
  assumes "ss \<noteq> 0" and "len mod ss = 0" and "in_reg x start (unat len)"
  shows "\<exists>k < unat (len div ss). in_reg x (start + of_nat k * ss) (unat ss)"
proof -
  define d where "d = unat (x - start)"
  define k where "k = d div unat ss"
  have p: "0 < unat ss" using assms(1) by (simp add: unat_gt_0)
  have d: "d < unat len" using assms(3) by (simp add: in_reg_def d_def)
  have "unat len mod unat ss = 0" using assms(2) by (metis unat_0 unat_mod_distrib)
  then have len: "unat len = unat len div unat ss * unat ss" by (metis add_0_right div_mult_mod_eq)
  have k: "k < unat len div unat ss"
    unfolding k_def using d len p by (metis less_mult_imp_div_less)
  have le: "k * unat ss \<le> d" by (simp add: k_def)
  have "x - (start + of_nat k * ss) = of_nat (d - k * unat ss)"
  proof -
    have "x - start = of_nat d" by (simp add: d_def)
    moreover have "(of_nat k * ss :: u32) = of_nat (k * unat ss)" by simp
    ultimately show ?thesis using le by (simp add: of_nat_diff algebra_simps)
  qed
  moreover have "d - k * unat ss < unat ss"
    by (simp add: k_def minus_div_mult_eq_mod p)
  moreover have "unat (of_nat (d - k * unat ss) :: u32) \<le> d - k * unat ss"
    by (simp add: unat_of_nat)
  ultimately have "in_reg x (start + of_nat k * ss) (unat ss)" by (simp add: in_reg_def)
  with k show ?thesis by (auto simp: unat_div_distrib)
qed

lemma halt_target_OK:
  "halt_target hw s = (ESP_OK, s') \<Longrightarrow> s' = s\<lparr>sw_log := sw_log s @ [Swd_halt_target, Swd_wait_until_halted]\<rparr>"
  by (auto simp: halt_target_def call_eqs unknown_def split: if_splits)

text \<open>\<open>check m h k\<close> succeeds with \<open>ESP_OK\<close> only through \<open>k\<close> when the handler keeps the error.\<close>

lemma check_OK:
  assumes "check m h k = (ESP_OK, s')" and "\<And>e s. e \<noteq> ESP_OK \<Longrightarrow> fst (h e s) \<noteq> ESP_OK"
  obtains s where "m = (ESP_OK, s)" "k s = (ESP_OK, s')"
  using assms by (cases m) (auto simp: check_def split: if_splits, metis fst_conv)

lemma load_extends [extends_rules]: "extends s0 s \<Longrightarrow> extends s0 (snd (load_flash_algorithm hw cfg s))"
  unfolding load_flash_algorithm_def Let_def
  by (intro extends_rules) (simp_all add: extends_intros)

lemma init_extends [extends_rules]: "extends s0 s \<Longrightarrow> extends s0 (snd (swd_prog_init hw cfg n s))"
  unfolding swd_prog_init_def Let_def case_prod_unfold
  by (auto intro!: extends_rules split: option.split)

lemma algo_init_extends [extends_rules]: "extends s0 s \<Longrightarrow> extends s0 (snd (algo_init_loop hw cfg mode n s))"
proof (induction n arbitrary: s)
  case (Suc n)
  show ?case
    unfolding algo_init_loop.simps
    by (intro extends_rules Suc) (auto intro!: extends_rules Suc split: option.split)
qed (simp add: unknown_def)

lemma uninit_extends [extends_rules]: "extends s0 s \<Longrightarrow> extends s0 (snd (run_algo_uninit hw cfg mode s))"
  unfolding run_algo_uninit_def case_prod_unfold
  by (intro extends_rules) (auto intro!: extends_rules simp del: hcall_log split: option.split)

lemma ensure_extends [extends_rules]: "extends s0 s \<Longrightarrow> extends s0 (snd (ensure_inited hw cfg mode s))"
  by (auto simp: ensure_inited_def run_algo_init_def intro: extends_rules)

lemma halt_extends [extends_rules]: "extends s0 s \<Longrightarrow> extends s0 (snd (halt_target hw s))"
  unfolding halt_target_def by (intro extends_rules) simp_all

lemma extends_of: "f s = (r, s') \<Longrightarrow> extends s (snd (f s)) \<Longrightarrow> extends s s'"
  by simp

lemma erase_sector_done:
  assumes "erase_sector hw cfg a b s = (ESP_OK, s')"
    and "fa_page_size (cfg_algo cfg) = Some ss" "fa_pc_erase_sector (cfg_algo cfg) = Some pc"
      "fa_flash_start (cfg_algo cfg) = Some fs"
  shows "ss \<noteq> 0 \<and> (b - a) mod ss = 0 \<and>
    (\<forall>k < unat ((b - a) div ss). done_since hw s s' (Syscall_exec pc (fs + of_nat k * ss) 0 0 0))"
proof -
  have pre: "ss \<noteq> 0" "(b - a) mod ss = 0" and
    body: "check (ensure_inited hw cfg MODE_ERASE s) Pair (\<lambda>s.
      check (halt_target hw s) Pair (\<lambda>s.
      check (erase_loop hw pc fs ss (unat ((b - a) div ss)) 0 s) Pair (\<lambda>s.
      check (run_algo_uninit hw cfg MODE_ERASE s) Pair
        (\<lambda>s. (ESP_OK, s\<lparr>sw_state := FLASH_ALG_UNINITED\<rparr>))))) = (ESP_OK, s')"
    using assms by (auto simp: erase_sector_def cpu_fault_def Let_def split: if_splits)
  from body obtain s1 s2 s3 s4 where
      "ensure_inited hw cfg MODE_ERASE s = (ESP_OK, s1)" and "halt_target hw s1 = (ESP_OK, s2)"
      and loop: "erase_loop hw pc fs ss (unat ((b - a) div ss)) 0 s2 = (ESP_OK, s3)"
      and un: "run_algo_uninit hw cfg MODE_ERASE s3 = (ESP_OK, s4)"
      and s': "s' = s4\<lparr>sw_state := FLASH_ALG_UNINITED\<rparr>"
    by (elim check_OK) auto
  then have e: "extends s s2" "extends s3 s'"
    using extends_rules extends_refl extends_trans by (metis snd_conv, metis extends_update(1) snd_conv)
  have "done_since hw s s' (Syscall_exec pc (fs + of_nat k * ss) 0 0 0)"
    if "k < unat ((b - a) div ss)" for k
    using erase_loop_done [OF loop] that e by (auto intro: done_since_left done_since_right)
  with pre show ?thesis by blast
qed

text \<open>Every byte from the start of the flash to \<open>fe\<close> lies in a sector that was erased.\<close>

lemma sector_done:
  assumes "erase_sector hw cfg fs fe s = (ESP_OK, s')"
    and "fa_page_size (cfg_algo cfg) = Some ss" "fa_pc_erase_sector (cfg_algo cfg) = Some pc"
      "fa_flash_start (cfg_algo cfg) = Some fs"
    and "in_reg x fs (unat (fe - fs))"
  shows "\<exists>sector. in_reg x sector (unat ss) \<and> done_since hw s s' (Syscall_exec pc sector 0 0 0)"
  using erase_sector_done [OF assms(1-4)] sector_of [OF _ _ assms(5)] by metis

lemma verify_sound:
  assumes "reads_from hw (sw_log s) m" and "fa_flash_start (cfg_algo cfg) = Some fs" and "files p = Some file"
    and addr: "addr = (if start = UINT32_MAX then fs else start)"
    and ok: "fst (verify hw cfg files p start len s) = ESP_OK"
  shows "len \<noteq> 0 \<and> unat len \<le> length file \<and> take (unat len) file = mem_bytes m addr (unat len)"
proof -
  let ?s = "s\<lparr>sw_log := sw_log s @ [Swd_halt_target, Fopen p]\<rparr>"
  have rf: "reads_from hw (sw_log ?s) m" using reads_from_mono [OF assms(1)] by simp
  from assms(2,3) ok have v: "len \<noteq> 0" "fst (verify_loop hw addr 0 (unat len) file ?s) = ESP_OK"
    unfolding verify_def addr by (auto simp: check_def ecall_eq unknown_def Let_def split: if_splits)
  obtain s' where "verify_loop hw addr 0 (unat len) file ?s = (ESP_OK, s')" using v(2) by (metis prod.collapse)
  from verify_loop_sound [OF rf this] v(1) show ?thesis by simp
qed

lemma verify_decides:
  assumes "reads_from hw (sw_log s) m" "all_calls_work hw" and "fa_flash_start (cfg_algo cfg) = Some fs"
    and "files p = Some file" "len \<noteq> 0" "unat len \<le> length file"
    and "addr = (if start = UINT32_MAX then fs else start)"
  shows "fst (verify hw cfg files p start len s) =
     (if take (unat len) file = mem_bytes m addr (unat len) then ESP_OK else ESP_ERR_INVALID_CRC)"
proof -
  let ?s = "s\<lparr>sw_log := sw_log s @ [Swd_halt_target, Fopen p]\<rparr>"
  have rf: "reads_from hw (sw_log ?s) m" using reads_from_mono [OF assms(1)] by simp
  have "fst (verify hw cfg files p start len s) = fst (verify_loop hw addr 0 (unat len) file ?s)"
    using assms(2-7) by (auto simp: verify_def check_def ecall_eq all_calls_work_def Let_def)
  with verify_loop_decides [OF rf assms(2,6), of addr 0] show ?thesis by simp
qed

text \<open>
  C35: \<open>verify\<close> is exact. When it reports success, the file has at least the requested number of bytes
  and the target holds exactly these bytes. When every call works and the file is long enough, it
  reports \<open>ESP_OK\<close> or \<open>ESP_ERR_INVALID_CRC\<close> according to whether they agree.
\<close>

theorem verify_exact:
  assumes "reads_from hw (sw_log s) m" and "fa_flash_start (cfg_algo cfg) = Some fs" and "files p = Some file"
    and "addr = (if start = UINT32_MAX then fs else start)"
  shows "(fst (verify hw cfg files p start len s) = ESP_OK \<longrightarrow>
      len \<noteq> 0 \<and> unat len \<le> length file \<and> take (unat len) file = mem_bytes m addr (unat len)) \<and>
    (all_calls_work hw \<and> len \<noteq> 0 \<and> unat len \<le> length file \<longrightarrow>
      fst (verify hw cfg files p start len s) =
        (if take (unat len) file = mem_bytes m addr (unat len) then ESP_OK else ESP_ERR_INVALID_CRC))"
proof (intro conjI impI)
  assume "fst (verify hw cfg files p start len s) = ESP_OK"
  with assms show "len \<noteq> 0" "unat len \<le> length file" "take (unat len) file = mem_bytes m addr (unat len)"
    using verify_sound by metis+
next
  assume "all_calls_work hw \<and> len \<noteq> 0 \<and> unat len \<le> length file"
  with assms show "fst (verify hw cfg files p start len s) =
      (if take (unat len) file = mem_bytes m addr (unat len) then ESP_OK else ESP_ERR_INVALID_CRC)"
    by (intro verify_decides) auto
qed

section \<open>The whole of programming a file\<close>

lemma fopen_retry_Some:
  "fopen_retry hw files p n s = (Some file, s') \<Longrightarrow>
     files p = Some file \<and> extends s s' \<and> buf_base s' = buf_base s \<and> sw_state s' = sw_state s"
proof (induction n arbitrary: s)
  case (Suc n)
  then show ?case
    by (auto simp: ecall_eq vcall_eq buf_base_def extends_def split: option.splits if_splits dest!: Suc.IH)
qed simp

lemma uninit_effect:
  assumes "run_algo_uninit hw cfg mode s = (r, s')" and "fa_pc_uninit (cfg_algo cfg) \<noteq> Some pc"
  shows "\<exists>post. sw_log s' = sw_log s @ post \<and> (\<forall>t. run_target pc post t = t) \<and> buf_base s' = buf_base s"
  using assms
  by (auto simp: run_algo_uninit_def call_eqs unknown_def buf_base_def split: if_splits option.splits)

lemma with_page_buffer_page: "with_page_buffer hw ps k s = (ESP_OK, s') \<Longrightarrow> ps \<noteq> 0"
  by (auto simp: with_page_buffer_def check_ecall cpu_fault_def split: if_splits)

definition prog_args_of :: "u32 \<Rightarrow> u32 \<Rightarrow> u32 \<Rightarrow> u32 \<Rightarrow> prog_args" where
  "prog_args_of ps pc fs start =
     \<lparr>pa_page_size = ps, pa_pc = pc, pa_addr_offset = fs + (if start = UINT32_MAX then 0 else start)\<rparr>"

lemma program_file_parts:
  assumes "program_file hw cfg files p lw start s = (ESP_OK, len, s')"
    and "fa_page_size (cfg_algo cfg) = Some ps" "fa_pc_program_page (cfg_algo cfg) = Some pc"
      "fa_flash_start (cfg_algo cfg) = Some fs"
  obtains content s2 s3 s4 double where "files p = Some content" "len = of_nat (length content)"
    "extends s s2" "ps \<noteq> 0" "sw_state s = FLASH_ALG_INITED \<longrightarrow> buf_base s2 = buf_base s"
    "(if double then perform_double_buffered_program hw (prog_args_of ps pc fs start) len content s2
       else perform_simple_program hw (prog_args_of ps pc fs start) len content s2) = (ESP_OK, s3)"
    "run_algo_uninit hw cfg MODE_PROGRAM s3 = (ESP_OK, s4)" "s' = s4\<lparr>sw_state := FLASH_ALG_UNINITED\<rparr>"
proof -
  obtain content s1 where f: "fopen_retry hw files p 5 s = (Some content, s1)"
    using assms(1) by (auto simp: program_file_def split: option.splits prod.splits)
  note fo = fopen_retry_Some [OF f]
  define double where "double s \<longleftrightarrow> sw_ram_start_addr s + sw_ram_size s \<ge> sw_stack_top s + sw_stack_size s + ps * 2"
    for s :: swd
  obtain s2 s3 s4 where r: "ensure_inited hw cfg MODE_PROGRAM s1 = (ESP_OK, s2)" "len = of_nat (length content)"
      "(if double s2 then perform_double_buffered_program hw (prog_args_of ps pc fs start) len content s2
       else perform_simple_program hw (prog_args_of ps pc fs start) len content s2) = (ESP_OK, s3)"
      "run_algo_uninit hw cfg MODE_PROGRAM s3 = (ESP_OK, s4)" "s' = s4\<lparr>sw_state := FLASH_ALG_UNINITED\<rparr>"
    using assms f
    by (auto simp: program_file_def double_def prog_args_of_def Let_def
        split: if_split_asm check_split_asm)
  have "extends s s2" using fo r(1) ensure_extends [of s1 s1] by (metis extends_refl extends_trans snd_conv)
  moreover have "ps \<noteq> 0"
    using r(3) by (auto simp: perform_double_buffered_program_def perform_simple_program_def prog_args_of_def
        split: if_split_asm dest: with_page_buffer_page)
  moreover have "sw_state s = FLASH_ALG_INITED \<longrightarrow> buf_base s2 = buf_base s"
    using fo r(1) by (auto simp: ensure_inited_def)
  ultimately show thesis using that fo r by blast
qed


section \<open>Where things are placed in the target's RAM\<close>

text \<open>A call changes the log and nothing else.\<close>

lemma ecall_fields:
  "ecall hw c s = (r, s1) \<Longrightarrow> sw_log s1 = sw_log s @ [c] \<and>
     sw_code_start s1 = sw_code_start s \<and> sw_code_end s1 = sw_code_end s \<and>
     sw_stack_bottom s1 = sw_stack_bottom s \<and> sw_stack_canary s1 = sw_stack_canary s \<and>
     sw_stack_size s1 = sw_stack_size s \<and> sw_ram_start_addr s1 = sw_ram_start_addr s \<and>
     sw_ram_size s1 = sw_ram_size s"
  by (auto simp: ecall_eq)

lemma vcall_fields [simp]:
  "sw_log (vcall hw c s) = sw_log s @ [c]"
  "sw_code_start (vcall hw c s) = sw_code_start s" "sw_code_end (vcall hw c s) = sw_code_end s"
  "sw_stack_bottom (vcall hw c s) = sw_stack_bottom s" "sw_stack_canary (vcall hw c s) = sw_stack_canary s"
  "sw_stack_size (vcall hw c s) = sw_stack_size s" "sw_ram_start_addr (vcall hw c s) = sw_ram_start_addr s"
  "sw_ram_size (vcall hw c s) = sw_ram_size s"
  by (simp_all add: vcall_eq)

lemma load_OK:
  "load_flash_algorithm hw cfg s = (ESP_OK, s') \<Longrightarrow>
     sw_code_end s' = next_multiple_of (fa_load_address (cfg_algo cfg) + fa_algo_bin_len (cfg_algo cfg)) 8 \<and>
     sw_code_start s' = fa_load_address (cfg_algo cfg) \<and> sw_stack_size s' = sw_stack_size s \<and>
     sw_ram_start_addr s' = sw_ram_start_addr s \<and> sw_ram_size s' = sw_ram_size s \<and>
     Swd_write_word (sw_stack_bottom s) (sw_stack_canary s) \<in> set (sw_log s')"
  unfolding load_flash_algorithm_def Let_def
  by (elim check_OK) (auto simp: unknown_def dest!: ecall_fields)

lemma init_OK:
  assumes "swd_prog_init hw cfg n s = (ESP_OK, s')"
  obtains ram ps s1 s2 where "algo_ram_region cfg = Some ram" "fa_page_size (cfg_algo cfg) = Some ps"
    "ps * 2 + n + 8 = 0 \<or>
       contains_range ram (fa_load_address (cfg_algo cfg)) (fa_algo_bin_len (cfg_algo cfg) + (ps * 2 + n + 8))"
    "s1 = s\<lparr>sw_stack_size := n, sw_ram_start_addr := rr_start ram, sw_ram_size := rr_size ram,
       sw_log := sw_log s @ [Swd_init_debug 1000, Swd_halt_target, Swd_wait_until_halted]\<rparr>"
    "load_flash_algorithm hw cfg s1 = (ESP_OK, s2)"
    "sw_stack_bottom s' = next_multiple_of (sw_code_end s2 + ps * 2) 8"
    "sw_stack_top s' = sw_stack_bottom s' + n" "sw_stack_size s' = n"
    "sw_log s' = sw_log s2 @ [Esp_random]" "n \<noteq> 0"
    "sw_ram_start_addr s' = rr_start ram" "sw_ram_size s' = rr_size ram"
    "sw_stack_pointer s' = sw_stack_top s'"
proof -
  from assms obtain ram where ram: "n \<noteq> 0" "algo_ram_region cfg = Some ram"
    by (auto simp: swd_prog_init_def split: if_splits option.splits)
  let ?s1 = "s\<lparr>sw_stack_size := n, sw_ram_start_addr := rr_start ram, sw_ram_size := rr_size ram,
       sw_log := sw_log s @ [Swd_init_debug 1000, Swd_halt_target, Swd_wait_until_halted]\<rparr>"
  from assms ram obtain s2 where l: "load_flash_algorithm hw cfg ?s1 = (ESP_OK, s2)"
    by (auto simp: swd_prog_init_def call_eqs unknown_def split: if_splits elim!: check_OK)
  from assms ram l obtain ps where ps: "fa_page_size (cfg_algo cfg) = Some ps"
    by (auto simp: swd_prog_init_def call_eqs unknown_def split: if_splits option.splits)
  have "ps * 2 + n + 8 = 0 \<or>
      contains_range ram (fa_load_address (cfg_algo cfg)) (fa_algo_bin_len (cfg_algo cfg) + (ps * 2 + n + 8))"
    using assms ram ps by (auto simp: swd_prog_init_def Let_def word_gt_0 split: if_splits)
  with assms ram l ps load_OK [OF l] show thesis
    by (intro that [OF ram(2) ps _ refl l])
      (auto simp: swd_prog_init_def call_eqs unknown_def split: if_splits option.splits)
qed

lemma next_multiple_of_8:
  assumes "unat x + 7 < 4294967296"
  shows "unat x \<le> unat (next_multiple_of x 8)" "unat (next_multiple_of x 8) \<le> unat x + 7"
    "8 dvd unat (next_multiple_of x 8)"
proof -
  have "unat (x + 7) = unat x + 7" using assms by (simp add: unat_add_u32)
  then have "unat ((x + 7) div 8) = (unat x + 7) div 8" by (simp add: unat_div_distrib)
  moreover from this have "unat ((x + 7) div 8 * 8) = unat ((x + 7) div 8) * unat (8 :: u32)"
    using assms by (intro unat_mult_u32) simp
  moreover have "next_multiple_of x 8 = (x + 7) div 8 * 8"
  proof -
    have "x + 8 - 1 = x + 7" by simp
    moreover have "(8 :: u32) \<noteq> 0" by simp
    ultimately show ?thesis unfolding next_multiple_of_def by presburger
  qed
  ultimately have *: "unat (next_multiple_of x 8) = (unat x + 7) div 8 * 8"
    by simp
  show "8 dvd unat (next_multiple_of x 8)" by (simp add: *)
  show "unat x \<le> unat (next_multiple_of x 8)" "unat (next_multiple_of x 8) \<le> unat x + 7"
    unfolding * by linarith+
qed

text \<open>
  after a successful \<open>init\<close> the stack lies above the code and two pages of slack and inside the
  selected RAM region, and the stack does not reach the page buffers above it. The first page
  buffer starts one more stack size above the top of the stack.
\<close>

theorem init_layout:
  assumes "swd_prog_init hw cfg n s = (ESP_OK, s')" and "algo_ram_region cfg = Some ram"
    and "fa_page_size (cfg_algo cfg) = Some ps" and "ps mod 4 = 0"
    and "unat (fa_algo_bin_len (cfg_algo cfg)) + 2 * unat ps + unat n + 8 < 4294967296"
  shows "unat (fa_load_address (cfg_algo cfg)) + unat (fa_algo_bin_len (cfg_algo cfg)) + 2 * unat ps
       \<le> unat (sw_stack_bottom s') \<and>
     unat (sw_stack_top s') = unat (sw_stack_bottom s') + unat n \<and>
     unat (sw_stack_top s') \<le> unat (rr_end ram) \<and>
     sw_stack_pointer s' = sw_stack_top s' \<and>
     buf_base s' = sw_stack_top s' + n"
proof -
  let ?fa = "cfg_algo cfg" let ?l = "fa_load_address ?fa" and ?b = "fa_algo_bin_len ?fa"
  from assms(1) obtain s1 s2 where r: "ps * 2 + n + 8 = 0 \<or> contains_range ram ?l (?b + (ps * 2 + n + 8))"
      and l: "load_flash_algorithm hw cfg s1 = (ESP_OK, s2)"
      and b: "sw_stack_bottom s' = next_multiple_of (sw_code_end s2 + ps * 2) 8"
      and t: "sw_stack_top s' = sw_stack_bottom s' + n" "sw_stack_size s' = n" "sw_stack_pointer s' = sw_stack_top s'"
    using assms(2,3) by (elim init_OK) auto
  have p2: "unat (ps * 2) = 2 * unat ps" using assms(5) unat_mult_u32 [of ps 2] by simp
  have need: "unat (ps * 2 + n + 8) = 2 * unat ps + unat n + 8"
    using assms(5) p2 by (simp add: unat_add_u32)
  have all: "unat (?b + (ps * 2 + n + 8)) = unat ?b + 2 * unat ps + unat n + 8"
    using assms(5) need by (subst unat_add_u32) (simp_all add: add.assoc)
  from need have "ps * 2 + n + 8 \<noteq> 0" by (metis add_is_0 unat_0 zero_neq_numeral)
  with r have fit: "unat ?l + (unat ?b + 2 * unat ps + unat n + 8) \<le> unat (rr_end ram)"
    by (simp add: contains_range_iff range_inside_def all)
  have hi: "unat (rr_end ram) < 4294967296" by (rule unat_u32_less)
  have lb: "unat (?l + ?b) = unat ?l + unat ?b" using fit hi by (subst unat_add_u32) auto
  have ce: "unat ?l + unat ?b \<le> unat (sw_code_end s2)" "unat (sw_code_end s2) \<le> unat ?l + unat ?b + 7"
      "8 dvd unat (sw_code_end s2)"
    using next_multiple_of_8 [of "?l + ?b"] load_OK [OF l] lb fit hi by auto
  have sum: "unat (sw_code_end s2 + ps * 2) = unat (sw_code_end s2) + 2 * unat ps"
    using ce(2) fit hi p2 by (subst unat_add_u32) auto
  have "unat (ps mod 4) = unat ps mod unat (4 :: u32)" by (rule unat_mod_distrib)
  then have "unat ps mod 4 = 0" using assms(4) by simp
  then have "8 dvd unat (sw_code_end s2) + 2 * unat ps" using ce(3) by presburger
  then have bot: "unat (sw_stack_bottom s') = unat (sw_code_end s2) + 2 * unat ps"
    using next_multiple_of_8 [of "sw_code_end s2 + ps * 2"] b sum ce(2) fit hi assms(3) by presburger
  have top: "unat (sw_stack_top s') = unat (sw_stack_bottom s') + unat n"
    unfolding t(1) using bot ce(2) fit hi by (intro unat_add_u32) simp
  show ?thesis using bot top ce fit t by (simp add: buf_base_def)
qed

section \<open>A sample target\<close>

text \<open>Hardware where every call works and the target's memory reads as \<open>m\<close>.\<close>

definition sample_hw :: "(u32 \<Rightarrow> u8) \<Rightarrow> hw" where
  "sample_hw m l = \<lparr>hr_err = ESP_OK, hr_val = 0,
     hr_data = (case last l of Swd_read_memory a n \<Rightarrow> mem_bytes m a n | _ \<Rightarrow> [])\<rparr>"

definition sample_swd_cfg :: target_config where
  "sample_swd_cfg = empty_config\<lparr>cfg_has_algo := True,
     cfg_algo := empty_algorithm\<lparr>fa_load_address := 0x20000020, fa_pc_init := Some 0x20000021,
       fa_pc_uninit := Some 0x20000023, fa_pc_program_page := Some 0x20000025,
       fa_pc_erase_sector := Some 0x20000027, fa_data_section_offset := Some 0x20000028,
       fa_flash_start := Some 0x8000000, fa_flash_end := Some 0x8000010, fa_page_size := Some 8,
       fa_algo_bin := Some [1, 2, 3, 4, 5, 6, 7, 8], fa_algo_bin_len := 8\<rparr>,
     cfg_ram_regions := [\<lparr>rr_start = 0x20000000, rr_end = 0x20000050\<rparr>],
     cfg_ram_region_count := 1\<rparr>"

definition sample_firmware :: bytes where "sample_firmware = [10, 11, 12, 13, 14, 15, 16, 17, 18, 19, 20, 21]"

definition sample_files :: fs where "sample_files = (\<lambda>_. Some sample_firmware)"

text \<open>The state once the algorithm has been initialised in this RAM with a stack of 16 bytes.\<close>

definition sample_inited :: swd where
  "sample_inited = boot_swd\<lparr>sw_state := FLASH_ALG_INITED, sw_stack_bottom := 0x20000038,
     sw_stack_top := 0x20000048, sw_stack_size := 16, sw_ram_start_addr := 0x20000000, sw_ram_size := 0x50\<rparr>"

lemma works_check: "all_calls_work hw \<Longrightarrow> check (ecall hw c s) h k = k (vcall hw c s)"
  by (simp add: check_ecall vcall_eq all_calls_work_def)

lemma works_hcall: "hcall hw c s = (hw (sw_log s @ [c]), vcall hw c s)"
  by (simp add: hcall_def vcall_eq Let_def)

lemma works_fread: "all_calls_work hw \<Longrightarrow> fread hw n rest s = (take n rest, drop n rest, vcall hw (Fread n) s)"
  by (simp add: fread_def works_hcall all_calls_work_def Let_def)

lemma sample_hw_works: "all_calls_work (sample_hw m)" "reads_full (sample_hw m) l0 l" "reads_from (sample_hw m) l m"
  by (simp_all add: all_calls_work_def reads_full_def reads_from_def sample_hw_def mem_bytes_def)

lemma sample_hw_val: "hr_err (sample_hw m l) = ESP_OK" "hr_val (sample_hw m l) = 0"
  by (simp_all add: sample_hw_def)

lemmas sample_run = works_check [OF sample_hw_works(1)] works_fread [OF sample_hw_works(1)] works_hcall
  sample_hw_val Let_def

lemma load_works:
  assumes "all_calls_work hw"
  shows "\<exists>s'. load_flash_algorithm hw cfg s = (ESP_OK, s')"
  unfolding load_flash_algorithm_def Let_def works_check [OF assms] by simp

lemma sample_init_OK: "fst (swd_prog_init (sample_hw m) sample_swd_cfg 16 boot_swd) = ESP_OK"
proof -
  have reg: "algo_ram_region sample_swd_cfg = Some \<lparr>rr_start = 0x20000000, rr_end = 0x20000050\<rparr>"
    by (simp add: algo_ram_region_def sample_swd_cfg_def contains_range_def)
  obtain s' where "load_flash_algorithm (sample_hw m) sample_swd_cfg
      (vcall (sample_hw m) Swd_wait_until_halted (vcall (sample_hw m) Swd_halt_target
        (vcall (sample_hw m) (Swd_init_debug 1000)
          (boot_swd\<lparr>sw_stack_size := 16, sw_ram_start_addr := 0x20000000, sw_ram_size := 0x50\<rparr>)))) = (ESP_OK, s')"
    using load_works [OF sample_hw_works(1)] by blast
  then show ?thesis
    unfolding swd_prog_init_def reg
    by (simp add: sample_run rr_size_def contains_range_def sample_swd_cfg_def empty_algorithm_def)
qed

lemma sample_uninit: "sw_stack_canary s = 0 \<Longrightarrow> \<exists>s'. run_algo_uninit (sample_hw m) sample_swd_cfg mode s = (ESP_OK, s')"
  unfolding run_algo_uninit_def by (simp add: sample_run sample_swd_cfg_def)

text \<open>With working calls the loops run to their end; the canary in the state is not touched.\<close>

definition works_keeping :: "u32 \<Rightarrow> esp_err \<times> swd \<Rightarrow> bool" where
  "works_keeping canary r \<longleftrightarrow> fst r = ESP_OK \<and> sw_stack_canary (snd r) = canary"

lemma loops_work:
  assumes "all_calls_work hw"
  shows "works_keeping (sw_stack_canary s) (double_loop hw pa n i c r rest s)"
    "works_keeping (sw_stack_canary s) (simple_loop hw pa n i r rest s)"
    "works_keeping (sw_stack_canary s) (erase_loop hw pc a ss n i s)"
proof -
  note w = works_check [OF assms] works_fread [OF assms] Let_def works_keeping_def
  show "works_keeping (sw_stack_canary s) (double_loop hw pa n i c r rest s)"
    by (induction n arbitrary: i c r rest s) (simp_all add: w)
  show "works_keeping (sw_stack_canary s) (simple_loop hw pa n i r rest s)"
    by (induction n arbitrary: i r rest s) (simp_all add: w)
  show "works_keeping (sw_stack_canary s) (erase_loop hw pc a ss n i s)"
    by (induction n arbitrary: i s) (simp_all add: w)
qed

lemma programming_works:
  assumes "all_calls_work hw" and "pa_page_size pa \<noteq> 0"
  shows "works_keeping (sw_stack_canary s) (if double then perform_double_buffered_program hw pa len rest s
     else perform_simple_program hw pa len rest s)"
  using loops_work [OF assms(1), of "vcall hw (Dma_malloc (pa_page_size pa)) s"] assms(2)
  by (simp add: perform_double_buffered_program_def perform_simple_program_def with_page_buffer_def
      works_check [OF assms(1)])

lemma works_keepingE:
  assumes "works_keeping c r" obtains s where "r = (ESP_OK, s)" "sw_stack_canary s = c"
  using assms by (cases r) (simp add: works_keeping_def)

lemma fopen_retry_works:
  "all_calls_work hw \<Longrightarrow> files p = Some content \<Longrightarrow> 0 < n \<Longrightarrow>
     fopen_retry hw files p n s = (Some content, vcall hw (Fopen p) s)"
  by (cases n) (simp_all add: ecall_def works_hcall all_calls_work_def)

lemma sample_program_OK:
  "fst (program_file (sample_hw m) sample_swd_cfg sample_files p 0 UINT32_MAX sample_inited) = ESP_OK"
proof -
  let ?s = "vcall (sample_hw m) (Fopen p) sample_inited"
  have st: "sw_state ?s = FLASH_ALG_INITED" "sw_stack_canary ?s = 0" "length sample_firmware = 12"
    by (simp_all add: vcall_eq sample_inited_def boot_swd_def sample_firmware_def)
  have op: "fopen_retry (sample_hw m) sample_files p 5 sample_inited = (Some sample_firmware, ?s)"
    by (rule fopen_retry_works [OF sample_hw_works(1)]) (simp_all add: sample_files_def)
  have cfg: "fa_page_size (cfg_algo sample_swd_cfg) = Some 8" "fa_pc_program_page (cfg_algo sample_swd_cfg) = Some 0x20000025"
      "fa_flash_start (cfg_algo sample_swd_cfg) = Some 0x8000000"
    by (simp_all add: sample_swd_cfg_def)
  let ?pa = "\<lparr>pa_page_size = 8, pa_pc = 0x20000025, pa_addr_offset = 0x8000000\<rparr>"
  let ?d = "sw_ram_start_addr ?s + sw_ram_size ?s \<ge> sw_stack_top ?s + sw_stack_size ?s + 8 * 2"
  obtain s1 where p: "(if ?d then perform_double_buffered_program (sample_hw m) ?pa 12 sample_firmware ?s
      else perform_simple_program (sample_hw m) ?pa 12 sample_firmware ?s) = (ESP_OK, s1)" "sw_stack_canary s1 = 0"
    using programming_works [OF sample_hw_works(1), of ?pa ?s ?d m 12 sample_firmware] st(2)
    by (auto elim: works_keepingE)
  from sample_uninit [OF p(2)] obtain s2 where "run_algo_uninit (sample_hw m) sample_swd_cfg MODE_PROGRAM s1 = (ESP_OK, s2)"
    by blast
  with p(1) show ?thesis
    unfolding program_file_def op cfg ensure_inited_def by (simp add: st Let_def)
qed

lemma sample_erase_OK: "fst (erase_sector (sample_hw m) sample_swd_cfg 0x8000000 0x8000010 sample_inited) = ESP_OK"
proof -
  have cfg: "fa_page_size (cfg_algo sample_swd_cfg) = Some 8" "fa_pc_erase_sector (cfg_algo sample_swd_cfg) = Some 0x20000027"
      "fa_flash_start (cfg_algo sample_swd_cfg) = Some 0x8000000"
    by (simp_all add: sample_swd_cfg_def)
  let ?s = "vcall (sample_hw m) Swd_wait_until_halted (vcall (sample_hw m) Swd_halt_target sample_inited)"
  have st: "sw_state sample_inited = FLASH_ALG_INITED" "sw_stack_canary ?s = 0"
    by (simp_all add: sample_inited_def boot_swd_def)
  obtain s1 where p: "erase_loop (sample_hw m) 0x20000027 0x8000000 8 2 0 ?s = (ESP_OK, s1)" "sw_stack_canary s1 = 0"
    using loops_work(3) [OF sample_hw_works(1), where s = ?s] st(2) by (metis works_keepingE)
  from sample_uninit [OF p(2)] obtain s2 where "run_algo_uninit (sample_hw m) sample_swd_cfg MODE_ERASE s1 = (ESP_OK, s2)"
    by blast
  with p(1) show ?thesis
    unfolding erase_sector_def cfg ensure_inited_def halt_target_def by (simp add: st Let_def sample_run)
qed

lemma program_file_base:
  assumes "program_file hw cfg files p lw start s = (ESP_OK, len, s')" and "sw_state s = FLASH_ALG_INITED"
    and "fa_page_size (cfg_algo cfg) = Some ps" "fa_pc_program_page (cfg_algo cfg) = Some pc"
      "fa_flash_start (cfg_algo cfg) = Some fs"
  shows "buf_base s' = buf_base s"
proof -
  from program_file_parts [OF assms(1,3-5)] assms(2) obtain double f s2 s3 s4 where
      "buf_base s2 = buf_base s"
      "(if double then perform_double_buffered_program hw (prog_args_of ps pc fs start) len f s2
        else perform_simple_program hw (prog_args_of ps pc fs start) len f s2) = (ESP_OK, s3)"
      "run_algo_uninit hw cfg MODE_PROGRAM s3 = (ESP_OK, s4)" "s' = s4\<lparr>sw_state := FLASH_ALG_UNINITED\<rparr>"
    by metis
  moreover have "buf_base (s4\<lparr>sw_state := x\<rparr>) = buf_base s4" for x by (simp add: buf_base_def)
  ultimately show ?thesis using perform_program_base run_algo_uninit_log by metis
qed

lemma sample_disjoint: "disjoint_regs 0x8000000 12 0x20000058 16"
proof -
  have "False" if "in_reg x 0x8000000 12" "in_reg x 0x20000058 16" for x
  proof -
    from in_reg_ex [OF that(1)] obtain i where i: "i < 12" "x = 0x8000000 + of_nat i" by blast
    from in_reg_ex [OF that(2)] obtain j where j: "j < 16" "x = 0x20000058 + of_nat j" by blast
    have "unat x = 0x8000000 + i"
      unfolding i(2) using i(1) by (simp add: unat_add_u32 unat_of_nat_u32)
    moreover have "unat x = 0x20000058 + j"
      unfolding j(2) using j(1) by (simp add: unat_add_u32 unat_of_nat_u32)
    ultimately show False using i(1) by simp
  qed
  then show ?thesis by (auto simp: disjoint_regs_def)
qed

lemmas sample_cfg_fields = sample_swd_cfg_def empty_algorithm_def

theorem verify_exact_witness:
  "fst (verify (sample_hw (\<lambda>x. ucast (x - 0x8000000) + 10)) sample_swd_cfg sample_files ''app.bin'' UINT32_MAX 12 boot_swd) = ESP_OK \<and>
   fst (verify (sample_hw (\<lambda>x. ucast (x - 0x8000000) + 11)) sample_swd_cfg sample_files ''app.bin'' UINT32_MAX 12 boot_swd)
     = ESP_ERR_INVALID_CRC"
  using verify_exact [OF sample_hw_works(3), where cfg = sample_swd_cfg and fs = "0x8000000" and files = sample_files
      and p = "''app.bin''" and start = UINT32_MAX and addr = "0x8000000" and len = 12 and s = boot_swd] sample_hw_works(1)
  by (simp add: sample_cfg_fields sample_files_def sample_firmware_def mem_bytes_def upt_rec)


theorem init_layout_witness:
  "\<exists>s'. swd_prog_init (sample_hw (\<lambda>_. 0)) sample_swd_cfg 16 boot_swd = (ESP_OK, s') \<and>
     unat (sw_stack_top s') \<le> 0x20000050 \<and> 0x20000038 \<le> unat (sw_stack_bottom s')"
proof -
  let ?p = "swd_prog_init (sample_hw (\<lambda>_. 0)) sample_swd_cfg 16 boot_swd"
  obtain s' where r: "?p = (ESP_OK, s')" using sample_init_OK by (metis prod.collapse)
  from init_layout [OF r, where ram = "\<lparr>rr_start = 0x20000000, rr_end = 0x20000050\<rparr>" and ps = 8] r show ?thesis
    by (auto simp: sample_cfg_fields algo_ram_region_def contains_range_def)
qed

section \<open>Findings\<close>

text \<open>
  the capacity check of \<open>init\<close> does not cover the page buffers: a region that passes it may end
  below the first buffer.
\<close>

theorem page_buffer_outside_region:
  "\<exists>s' ram. swd_prog_init (sample_hw (\<lambda>_. 0)) sample_swd_cfg 16 boot_swd = (ESP_OK, s') \<and>
     algo_ram_region sample_swd_cfg = Some ram \<and> rr_end ram < buf_base s'"
proof -
  let ?p = "swd_prog_init (sample_hw (\<lambda>_. 0)) sample_swd_cfg 16 boot_swd"
  obtain s' where r: "?p = (ESP_OK, s')" using sample_init_OK by (metis prod.collapse)
  have reg: "algo_ram_region sample_swd_cfg = Some \<lparr>rr_start = 0x20000000, rr_end = 0x20000050\<rparr>"
    by (simp add: algo_ram_region_def sample_swd_cfg_def contains_range_def)
  from r have "sw_stack_top s' = next_multiple_of (next_multiple_of 0x20000028 8 + 16) 8 + 16 \<and> sw_stack_size s' = 16"
    by (elim init_OK) (auto simp: sample_cfg_fields dest!: load_OK)
  then have "buf_base s' = 0x20000058" by (simp add: buf_base_def next_multiple_of_def)
  with r reg show ?thesis by simp
qed

text \<open>A file system whose reads return nothing, on a target where everything else works.\<close>

definition short_hw :: hw where
  "short_hw l = (sample_hw (\<lambda>_. 0) l)\<lparr>hr_err := (case last l of Fread n \<Rightarrow> ESP_FAIL | _ \<Rightarrow> ESP_OK)\<rparr>"

lemma short_reads: "fread short_hw n rest s = ([], rest, s\<lparr>sw_log := sw_log s @ [Fread n]\<rparr>)"
  by (simp add: fread_def hcall_def Let_def short_hw_def sample_hw_def)

lemma short_err: "hr_err (short_hw l) = (case last l of Fread n \<Rightarrow> ESP_FAIL | _ \<Rightarrow> ESP_OK)" "hr_val (short_hw l) = 0"
  by (simp_all add: short_hw_def sample_hw_def)

definition sends_nothing :: "hw_call list \<Rightarrow> bool" where
  "sends_nothing l \<longleftrightarrow> (\<forall>a d. Swd_write_memory a d \<in> set l \<longrightarrow> d = [])"

lemma short_loop: "\<exists>l. simple_loop short_hw pa n i r rest s = (ESP_OK, s\<lparr>sw_log := sw_log s @ l\<rparr>) \<and> sends_nothing l"
proof (induction n arbitrary: i r s)
  case (Suc n)
  let ?l = "[Fread (unat (min (pa_page_size pa) r)), Swd_write_memory (sw_stack_top s + sw_stack_size s) [],
    Syscall_exec (pa_pc pa) (pa_addr_offset pa + i * pa_page_size pa) 0 (sw_stack_top s + sw_stack_size s) 0, led_page i]"
  from Suc.IH [of "i + 1" r "s\<lparr>sw_log := sw_log s @ ?l\<rparr>"] obtain l where
    "simple_loop short_hw pa n (i + 1) r rest (s\<lparr>sw_log := sw_log s @ ?l\<rparr>) = (ESP_OK, s\<lparr>sw_log := sw_log s @ ?l @ l\<rparr>)"
    "sends_nothing l" by auto
  then show ?case
    by (intro exI [of _ "?l @ l"]) (simp add: short_reads call_eqs short_err sends_nothing_def led_page_def)
qed (simp add: sends_nothing_def exI [of _ "[]"])

text \<open>
  A short read is only warned of: \<open>program_file\<close> reports success and the length of the whole file although not a single
  byte of it was sent to the target. Only the verification that follows in a run would tell.
\<close>

theorem short_read_goes_on:
  "\<exists>s'. program_file short_hw sample_swd_cfg sample_files ''app.bin'' 0 UINT32_MAX sample_inited = (ESP_OK, 12, s') \<and>
     sends_nothing (sw_log s')"
proof -
  let ?pa = "\<lparr>pa_page_size = 8, pa_pc = 0x20000025, pa_addr_offset = 0x8000000\<rparr>"
  let ?s = "sample_inited\<lparr>sw_log := [Fopen ''app.bin'']\<rparr>"
  have op: "fopen_retry short_hw sample_files ''app.bin'' 5 sample_inited = (Some sample_firmware, ?s)"
    using fopen_retry.simps(2) [of short_hw sample_files "''app.bin''" 4 sample_inited]
    by (simp add: ecall_eq short_err sample_files_def sample_inited_def boot_swd_def)
  have len: "length sample_firmware = 12" by (simp add: sample_firmware_def)
  have cfg: "fa_page_size (cfg_algo sample_swd_cfg) = Some 8" "fa_pc_program_page (cfg_algo sample_swd_cfg) = Some 0x20000025"
      "fa_flash_start (cfg_algo sample_swd_cfg) = Some 0x8000000" "fa_pc_uninit (cfg_algo sample_swd_cfg) = Some 0x20000023"
    by (simp_all add: sample_swd_cfg_def)
  obtain l where l: "perform_simple_program short_hw ?pa 12 sample_firmware ?s =
      (ESP_OK, ?s\<lparr>sw_log := [Fopen ''app.bin'', Dma_malloc 8] @ l\<rparr>)" "sends_nothing l"
    using short_loop [of ?pa "unat (page_count 12 8)" 0 12 sample_firmware "?s\<lparr>sw_log := [Fopen ''app.bin'', Dma_malloc 8]\<rparr>"]
    by (auto simp: perform_simple_program_def with_page_buffer_def check_ecall short_err)
  let ?s1 = "?s\<lparr>sw_log := [Fopen ''app.bin'', Dma_malloc 8] @ l\<rparr>"
  have "\<exists>s2. run_algo_uninit short_hw sample_swd_cfg MODE_PROGRAM ?s1 = (ESP_OK, s2) \<and> sends_nothing (sw_log s2)"
    using l(2) by (simp add: run_algo_uninit_def cfg call_eqs ecall_eq short_err sends_nothing_def sample_inited_def boot_swd_def
        del: append_Cons)
  then obtain s2 where "run_algo_uninit short_hw sample_swd_cfg MODE_PROGRAM ?s1 = (ESP_OK, s2)" "sends_nothing (sw_log s2)"
    by blast
  with l(1) show ?thesis
    unfolding program_file_def op
    by (simp add: len cfg ensure_inited_def Let_def) (simp add: sample_inited_def)
qed

text \<open>The first \<open>init\<close> stores the unset canary at the unset bottom of the stack: a zero at address 0.\<close>

theorem first_init_writes_address_0:
  assumes "swd_prog_init hw cfg n boot_swd = (ESP_OK, s')"
  shows "Swd_write_word 0 0 \<in> set (sw_log s')"
  using assms by (elim init_OK) (auto simp: boot_swd_def dest!: load_OK)

text \<open>\<open>erase_sector\<close> erases from the start of the flash whatever \<open>start_addr\<close> is.\<close>

theorem erase_sector_ignores_start:
  assumes "b - a = b' - a'"
  shows "erase_sector hw cfg a b s = erase_sector hw cfg a' b' s"
  unfolding erase_sector_def assms ..

end
