(* ===== verification/Swd_Backend.thy ===== *)
theory Swd_Backend
  imports Swd_Correct Target_Backend Fw_Asset_Manager
begin

text \<open>
  \<open>main/prog/swd_cortexm_backend.cpp\<close>: the target backend for ARM targets, over \<open>swd_prog\<close>. Its state is
  the programmer's; the configuration and the files are those of the active job, which do not change
  during a run.
\<close>

definition DEFAULT_STACK_SIZE :: u32 where "DEFAULT_STACK_SIZE = 0x2000"

definition swd_begin_session :: "hw \<Rightarrow> swd \<Rightarrow> esp_err \<times> swd" where
  "swd_begin_session hw s =
     check (ecall hw (Swd_init 1000) (vcall hw (Task_delay 1) (vcall hw Swd_off s))) Pair (\<lambda>s.
       ecall hw (Swd_init_debug 1000)
         (vcall hw (Task_delay 1) (vcall hw Swd_trigger_nrst (vcall hw (Task_delay 1) s))))"

definition swd_detect :: "hw \<Rightarrow> target_config \<Rightarrow> swd \<Rightarrow> esp_err \<times> swd" where
  "swd_detect hw cfg s = swd_prog_init hw cfg DEFAULT_STACK_SIZE s"

definition swd_erase :: "hw \<Rightarrow> target_config \<Rightarrow> swd \<Rightarrow> esp_err \<times> swd" where
  "swd_erase hw cfg s =
     (case (fa_flash_start (cfg_algo cfg), fa_flash_end (cfg_algo cfg)) of
        (Some flash_start, Some flash_end) \<Rightarrow>
          check (erase_chip hw cfg s) (\<lambda>_ s. erase_sector hw cfg flash_start flash_end s) (Pair ESP_OK)
      | _ \<Rightarrow> (ESP_ERR_INVALID_STATE, s))"

definition swd_program :: "hw \<Rightarrow> target_config \<Rightarrow> fs \<Rightarrow> u32 \<Rightarrow> swd \<Rightarrow> esp_err \<times> u32 \<times> swd" where
  "swd_program hw cfg files written_len s = program_file hw cfg files FIRMWARE_PATH 0 UINT32_MAX s"

definition swd_verify :: "hw \<Rightarrow> target_config \<Rightarrow> fs \<Rightarrow> u32 \<Rightarrow> swd \<Rightarrow> esp_err \<times> swd" where
  "swd_verify hw cfg files written_len s = verify hw cfg files FIRMWARE_PATH UINT32_MAX written_len s"

definition swd_self_test ::
  "hw \<Rightarrow> target_config \<Rightarrow> test_item \<Rightarrow> u32 \<Rightarrow> swd \<Rightarrow> esp_err \<times> u32 \<times> swd" where
  "swd_self_test hw cfg item func_return_val s = self_test hw cfg (ti_addr item) 0 func_return_val s"

definition swd_release_transport :: "hw \<Rightarrow> swd \<Rightarrow> esp_err \<times> swd" where
  "swd_release_transport hw s = (ESP_OK, reset_gpio hw s)"

definition swd_reset_target :: "hw \<Rightarrow> swd \<Rightarrow> esp_err \<times> swd" where
  "swd_reset_target hw s = (ESP_OK, trigger_nrst hw s)"

definition swd_reinit_debug :: "hw \<Rightarrow> swd \<Rightarrow> esp_err \<times> swd" where
  "swd_reinit_debug hw s = ecall hw (Swd_init_debug 1000) (vcall hw (Task_delay 1) (vcall hw Swd_off s))"

definition swd_read_mem32 :: "hw \<Rightarrow> u32 \<Rightarrow> swd \<Rightarrow> esp_err \<times> u32 \<times> swd" where
  "swd_read_mem32 hw addr s =
     (case hcall hw (Swd_read_word addr) s of (r, s) \<Rightarrow> (hr_err r, hr_val r, s))"

definition swd_cortexm_backend :: "hw \<Rightarrow> target_config \<Rightarrow> fs \<Rightarrow> swd backend" where
  "swd_cortexm_backend hw cfg files = \<lparr>
     be_name = ''cortex-m (SWD)'',
     be_begin_session = swd_begin_session hw,
     be_detect = swd_detect hw cfg,
     be_erase = swd_erase hw cfg,
     be_program = swd_program hw cfg files,
     be_verify = swd_verify hw cfg files,
     be_self_test = swd_self_test hw cfg,
     be_release_transport = swd_release_transport hw,
     be_reset_target = swd_reset_target hw,
     be_reinit_debug = swd_reinit_debug hw,
     be_halt_target = ecall hw Swd_halt_target,
     be_wait_halt = ecall hw Swd_wait_until_halted,
     be_read_mem32 = (\<lambda>addr _. swd_read_mem32 hw addr),
     be_write_mem32 = (\<lambda>addr val. ecall hw (Swd_write_word addr val))\<rparr>"

section \<open>The transport\<close>

text \<open>A call that drives the SWD pins. The pins are idle when none was made since they were released.\<close>

fun drives_pins :: "hw_call \<Rightarrow> bool" where
  "drives_pins (Task_delay n) = False"
| "drives_pins (Led_color r g b) = False"
| "drives_pins (Fopen p) = False"
| "drives_pins (Fread n) = False"
| "drives_pins (Dma_malloc n) = False"
| "drives_pins Esp_random = False"
| "drives_pins Swd_off = False"
| "drives_pins c = True"

fun pins_idle :: "hw_call list \<Rightarrow> bool" where
  "pins_idle [] = False"
| "pins_idle (c # cs) = (c = Swd_off \<or> (\<not> drives_pins c \<and> pins_idle cs))"

definition swd_idle :: "swd \<Rightarrow> bool" where
  "swd_idle s = pins_idle (rev (sw_log s))"

lemma swd_idle_vcall: "swd_idle (vcall hw c s) \<longleftrightarrow> c = Swd_off \<or> (\<not> drives_pins c \<and> swd_idle s)"
  by (simp add: swd_idle_def)

interpretation swd_transport:
  transport "swd_release_transport hw" "vcall hw (Task_delay n)" swd_idle
  by unfold_locales (simp_all add: swd_release_transport_def reset_gpio_def swd_idle_vcall)

section \<open>Erasing the whole flash\<close>

lemma exec_done:
  "hr_err (hw (sw_log s @ [c])) = ESP_OK \<Longrightarrow> done_since hw s (s\<lparr>sw_log := sw_log s @ [c]\<rparr>) c"
  unfolding done_since_def by (rule exI [of _ "[]"]) simp

lemma check_fail: "fst (check p Pair (Pair ESP_FAIL)) \<noteq> ESP_OK"
  by (simp add: check_def)

lemma erase_chip_done:
  assumes "erase_chip hw cfg s = (ESP_OK, s')"
  shows "\<exists>pc. fa_pc_erase_all (cfg_algo cfg) = Some pc \<and> done_since hw s s' (Syscall_exec pc 0 0 0 0)"
proof -
  from assms obtain pc where pc: "fa_pc_erase_all (cfg_algo cfg) = Some pc"
    by (auto simp: erase_chip_def split: option.splits)
  let ?c = "Syscall_exec pc 0 0 0 0"
  from assms pc obtain s1 s2 where "ensure_inited hw cfg MODE_ERASE s = (ESP_OK, s1)" "halt_target hw s1 = (ESP_OK, s2)"
      and k: "check (ecall hw ?c (vcall hw (Led_color 0 0 60) s2))
            (\<lambda>_ s. check (run_algo_uninit hw cfg MODE_ERASE s) Pair (Pair ESP_FAIL))
            (\<lambda>s. check (run_algo_uninit hw cfg MODE_ERASE s) Pair
                    (\<lambda>s. (ESP_OK, s\<lparr>sw_state := FLASH_ALG_UNINITED\<rparr>))) = (ESP_OK, s')"
    by (auto simp: erase_chip_def check_fail elim!: check_OK)
  then have e: "extends s (vcall hw (Led_color 0 0 60) s2)"
    using extends_rules extends_refl extends_trans by (metis snd_conv)
  let ?s = "vcall hw (Led_color 0 0 60) s2"
  from k have ok: "hr_err (hw (sw_log ?s @ [?c])) = ESP_OK"
    by (auto simp: check_ecall split: if_splits check_split_asm)
  with k obtain s4 where "run_algo_uninit hw cfg MODE_ERASE (?s\<lparr>sw_log := sw_log ?s @ [?c]\<rparr>) = (ESP_OK, s4)"
      "s' = s4\<lparr>sw_state := FLASH_ALG_UNINITED\<rparr>"
    by (auto simp: check_ecall elim!: check_OK)
  then have "extends (?s\<lparr>sw_log := sw_log ?s @ [?c]\<rparr>) s'"
    using uninit_extends [OF extends_refl] by (metis extends_update(1) snd_conv)
  moreover from ok have "done_since hw ?s (?s\<lparr>sw_log := sw_log ?s @ [?c]\<rparr>) ?c" by (rule exec_done)
  ultimately show ?thesis using e pc by (blast intro: done_since_left done_since_right)
qed

text \<open>
  C36: when the SWD backend's \<open>erase\<close> reports success, the algorithm's chip erase succeeded, or every
  byte of the configured flash range lies in a sector whose erase succeeded. A failed chip erase is
  never the last word: the sectors are erased instead.
\<close>

theorem swd_erase_complete:
  assumes "swd_erase hw cfg s = (ESP_OK, s')"
  shows "\<exists>flash_start flash_end. fa_flash_start (cfg_algo cfg) = Some flash_start \<and>
     fa_flash_end (cfg_algo cfg) = Some flash_end \<and>
     ((\<exists>pc. fa_pc_erase_all (cfg_algo cfg) = Some pc \<and> done_since hw s s' (Syscall_exec pc 0 0 0 0)) \<or>
      (\<exists>pc sector_size. fa_pc_erase_sector (cfg_algo cfg) = Some pc \<and>
         fa_page_size (cfg_algo cfg) = Some sector_size \<and>
         (\<forall>x. in_reg x flash_start (unat (flash_end - flash_start)) \<longrightarrow>
            (\<exists>sector. in_reg x sector (unat sector_size) \<and>
               done_since hw s s' (Syscall_exec pc sector 0 0 0)))))"
proof -
  from assms obtain fs fe where f: "fa_flash_start (cfg_algo cfg) = Some fs" "fa_flash_end (cfg_algo cfg) = Some fe"
    by (auto simp: swd_erase_def split: option.splits)
  show ?thesis
  proof (cases "fst (erase_chip hw cfg s) = ESP_OK")
    case True
    with assms f have "erase_chip hw cfg s = (ESP_OK, s')"
      by (cases "erase_chip hw cfg s") (simp add: swd_erase_def check_def)
    with erase_chip_done f show ?thesis by blast
  next
    case False
    with assms f have er: "erase_sector hw cfg fs fe (snd (erase_chip hw cfg s)) = (ESP_OK, s')"
      by (simp add: swd_erase_def check_def)
    then obtain ss pc where c: "fa_page_size (cfg_algo cfg) = Some ss" "fa_pc_erase_sector (cfg_algo cfg) = Some pc"
      using f(1) by (auto simp: erase_sector_def split: option.splits)
    have "extends s (snd (erase_chip hw cfg s))"
      unfolding erase_chip_def by (auto split: option.split intro!: extends_rules)
    then have "\<exists>sector. in_reg x sector (unat ss) \<and> done_since hw s s' (Syscall_exec pc sector 0 0 0)"
      if "in_reg x fs (unat (fe - fs))" for x
      using sector_done [OF er c f(1) that] by (blast intro: done_since_left)
    with f c show ?thesis by blast
  qed
qed

theorem swd_erase_complete_witness:
  "\<exists>sector. in_reg 0x800000C sector 8 \<and>
     done_since (sample_hw (\<lambda>_. 0)) sample_inited
       (snd (swd_erase (sample_hw (\<lambda>_. 0)) sample_swd_cfg sample_inited)) (Syscall_exec 0x20000027 sector 0 0 0)"
proof -
  let ?r = "swd_erase (sample_hw (\<lambda>_. 0)) sample_swd_cfg sample_inited"
  have "?r = erase_sector (sample_hw (\<lambda>_. 0)) sample_swd_cfg 0x8000000 0x8000010 sample_inited"
    by (simp add: swd_erase_def erase_chip_def sample_cfg_fields)
  then have "?r = (ESP_OK, snd ?r)" using sample_erase_OK by (metis prod.collapse)
  from swd_erase_complete [OF this] show ?thesis
    by (auto simp: sample_cfg_fields in_reg_def)
qed

end
