(* ===== verification/Esp32_Backend.thy ===== *)
theory Esp32_Backend
  imports Target_Backend Swd_Target
begin

unbundle bit_operations_syntax

text \<open>
  \<open>main/prog/esp32_serial_backend.cpp\<close>: the target backend for Espressif chips, over the serial loader
  library. The library, the GPIO driver and the C library are one oracle \<open>ew\<close> that answers a call from
  the history of calls, \<open>eb_log\<close>, oldest call first. Two static buffers of 4096 bytes take the data of a
  block; \<open>eb_fault\<close> is set where the code would write past the end of one. The board has a boot pin or
  not (\<open>CONFIG_ESP_SWD_BOOT_PIN\<close>); this is the flag \<open>boot\<close>.
\<close>

section \<open>The loader library\<close>

datatype loader_error =
    ESP_LOADER_SUCCESS
  | ESP_LOADER_ERROR_FAIL
  | ESP_LOADER_ERROR_TIMEOUT
  | ESP_LOADER_ERROR_IMAGE_SIZE
  | ESP_LOADER_ERROR_INVALID_MD5
  | ESP_LOADER_ERROR_INVALID_PARAM
  | ESP_LOADER_ERROR_INVALID_TARGET
  | ESP_LOADER_ERROR_UNSUPPORTED_CHIP
  | ESP_LOADER_ERROR_UNSUPPORTED_FUNC
  | ESP_LOADER_ERROR_INVALID_RESPONSE
  | ESP_LOADER_ERROR_other nat

datatype target_chip = ESP8266_CHIP | ESP32_CHIP | ESP32S2_CHIP | ESP32C3_CHIP | ESP32S3_CHIP | ESP32C2_CHIP
  | ESP32C5_CHIP | ESP32H2_CHIP | ESP32C6_CHIP | ESP32P4_CHIP | ESP32C61_CHIP | ESP32S31_CHIP
  | ESP_UNKNOWN_CHIP

datatype ctl_pin = RESET_PIN | BOOT_PIN

datatype esp_call =
    Gpio_reset_pin ctl_pin
  | Gpio_pullup ctl_pin
  | Gpio_set_level ctl_pin nat
  | Gpio_output ctl_pin
  | Reset_hold
  | Boot_hold
  | Loader_init
  | Loader_connect
  | Loader_get_target
  | Loader_detect_size
  | Loader_change_rate u32
  | Loader_deinit
  | Loader_reset_target
  | Loader_flash_start u32 u32 nat
  | Loader_flash_write bytes
  | Loader_flash_finish
  | Loader_flash_read u32 nat
  | Loader_read_register u32
  | Loader_write_register u32 u32
  | File_stat path
  | File_open path
  | File_read nat

text \<open>
  \<open>er_esp\<close> answers GPIO and file calls (\<open>ESP_OK\<close> when they worked), \<open>er_ld\<close> loader calls; \<open>er_val\<close>,
  \<open>er_chip\<close> and \<open>er_data\<close> are what they return.
\<close>

record esp_resp =
  er_esp :: esp_err
  er_ld :: loader_error
  er_val :: u32
  er_chip :: target_chip
  er_data :: bytes

type_synonym ew = "esp_call list \<Rightarrow> esp_resp"

record esp32 =
  eb_connected :: bool
  eb_flash_limit :: u32
  eb_target_flash_size :: u32
  eb_log :: "esp_call list"
  eb_fault :: bool

definition boot_esp32 :: esp32 where
  "boot_esp32 = \<lparr>eb_connected = False, eb_flash_limit = 0, eb_target_flash_size = 0, eb_log = [], eb_fault = False\<rparr>"

definition lcall :: "ew \<Rightarrow> esp_call \<Rightarrow> esp32 \<Rightarrow> esp_resp \<times> esp32" where
  "lcall ew c s = (let l = eb_log s @ [c] in (ew l, s\<lparr>eb_log := l\<rparr>))"

definition gcall :: "ew \<Rightarrow> esp_call \<Rightarrow> esp32 \<Rightarrow> esp_err \<times> esp32" where
  "gcall ew c s = (case lcall ew c s of (r, s) \<Rightarrow> (er_esp r, s))"

definition lnote :: "ew \<Rightarrow> esp_call \<Rightarrow> esp32 \<Rightarrow> esp32" where
  "lnote ew c s = snd (lcall ew c s)"

text \<open>\<open>err = f(); if (err != ESP_LOADER_SUCCESS) return h; k\<close>\<close>

definition on_loader ::
  "ew \<Rightarrow> esp_call \<Rightarrow> esp32 \<Rightarrow> (loader_error \<Rightarrow> esp32 \<Rightarrow> 'r) \<Rightarrow> (esp_resp \<Rightarrow> esp32 \<Rightarrow> 'r) \<Rightarrow> 'r" where
  "on_loader ew c s h k =
     (case lcall ew c s of (r, s) \<Rightarrow> if er_ld r \<noteq> ESP_LOADER_SUCCESS then h (er_ld r) s else k r s)"

definition loader_err_to_esp :: "loader_error \<Rightarrow> esp_err" where
  "loader_err_to_esp err =
     (case err of
        ESP_LOADER_SUCCESS \<Rightarrow> ESP_OK
      | ESP_LOADER_ERROR_TIMEOUT \<Rightarrow> ESP_ERR_TIMEOUT
      | ESP_LOADER_ERROR_INVALID_MD5 \<Rightarrow> ESP_ERR_INVALID_CRC
      | ESP_LOADER_ERROR_IMAGE_SIZE \<Rightarrow> ESP_ERR_INVALID_SIZE
      | ESP_LOADER_ERROR_UNSUPPORTED_CHIP \<Rightarrow> ESP_ERR_NOT_SUPPORTED
      | ESP_LOADER_ERROR_UNSUPPORTED_FUNC \<Rightarrow> ESP_ERR_NOT_SUPPORTED
      | ESP_LOADER_ERROR_INVALID_RESPONSE \<Rightarrow> ESP_ERR_INVALID_ARG
      | ESP_LOADER_ERROR_INVALID_PARAM \<Rightarrow> ESP_ERR_INVALID_ARG
      | ESP_LOADER_ERROR_INVALID_TARGET \<Rightarrow> ESP_ERR_INVALID_ARG
      | _ \<Rightarrow> ESP_FAIL)"

definition MAX_FLASH_SIZE_KB :: u32 where "MAX_FLASH_SIZE_KB = 256 * 1024"
definition FLASH_SECTOR_SIZE :: u32 where "FLASH_SECTOR_SIZE = 4096"
definition BLOCK_SIZE :: nat where "BLOCK_SIZE = 4096"

definition chip_name_map :: "(string \<times> target_chip) list" where
  "chip_name_map = [
     (''esp8266'', ESP8266_CHIP), (''esp32'', ESP32_CHIP), (''esp32s2'', ESP32S2_CHIP), (''esp32s3'', ESP32S3_CHIP),
     (''esp32c3'', ESP32C3_CHIP), (''esp32c2'', ESP32C2_CHIP), (''esp32c5'', ESP32C5_CHIP), (''esp32h2'', ESP32H2_CHIP),
     (''esp32c6'', ESP32C6_CHIP), (''esp32p4'', ESP32P4_CHIP), (''esp32c61'', ESP32C61_CHIP), (''esp32s31'', ESP32S31_CHIP)]"

definition chip_from_name :: "string \<Rightarrow> target_chip option" where
  "chip_from_name name = map_of chip_name_map name"

section \<open>Control pins\<close>

text \<open>The levels that assert and release a pin.\<close>

definition asserted :: "assert_level \<Rightarrow> nat" where
  "asserted l = (if l = level_high then 1 else 0)"

definition deasserted :: "assert_level \<Rightarrow> nat" where
  "deasserted l = (if l = level_high then 0 else 1)"

text \<open>The two control callbacks given to the library.\<close>

definition esp32_backend_reset_target :: "ew \<Rightarrow> target_config \<Rightarrow> esp32 \<Rightarrow> esp32" where
  "esp32_backend_reset_target ew cfg s =
     (let s = lnote ew (Gpio_set_level RESET_PIN (asserted (cfg_reset_assert_level cfg))) s;
          s = lnote ew Reset_hold s
      in lnote ew (Gpio_set_level RESET_PIN (deasserted (cfg_reset_assert_level cfg))) s)"

definition esp32_backend_enter_bootloader :: "ew \<Rightarrow> target_config \<Rightarrow> esp32 \<Rightarrow> esp32" where
  "esp32_backend_enter_bootloader ew cfg s =
     (let s = lnote ew (Gpio_set_level BOOT_PIN (asserted (cfg_boot_assert_level cfg))) s;
          s = lnote ew (Gpio_set_level RESET_PIN (asserted (cfg_reset_assert_level cfg))) s;
          s = lnote ew Reset_hold s;
          s = lnote ew (Gpio_set_level RESET_PIN (deasserted (cfg_reset_assert_level cfg))) s;
          s = lnote ew Boot_hold s
      in lnote ew (Gpio_set_level BOOT_PIN (deasserted (cfg_boot_assert_level cfg))) s)"

definition prepare_pin :: "ew \<Rightarrow> ctl_pin \<Rightarrow> nat \<Rightarrow> esp32 \<Rightarrow> esp_err \<times> esp32" where
  "prepare_pin ew pin level s =
     and_then (and_then (and_then (gcall ew (Gpio_reset_pin pin) s)
       (gcall ew (Gpio_pullup pin)))
       (gcall ew (Gpio_set_level pin level)))
       (gcall ew (Gpio_output pin))"

definition prepare_control_pins :: "ew \<Rightarrow> bool \<Rightarrow> target_config \<Rightarrow> esp32 \<Rightarrow> esp_err \<times> esp32" where
  "prepare_control_pins ew boot cfg s =
     check (prepare_pin ew RESET_PIN (deasserted (cfg_reset_assert_level cfg)) s) Pair (\<lambda>s.
       if boot
       then check (prepare_pin ew BOOT_PIN (deasserted (cfg_boot_assert_level cfg)) s) Pair (Pair ESP_OK)
       else (ESP_OK, s))"

definition pulse_reset :: "ew \<Rightarrow> target_config \<Rightarrow> esp32 \<Rightarrow> esp_err \<times> esp32" where
  "pulse_reset ew cfg s =
     check (gcall ew (Gpio_set_level RESET_PIN (asserted (cfg_reset_assert_level cfg))) s) Pair (\<lambda>s.
       gcall ew (Gpio_set_level RESET_PIN (deasserted (cfg_reset_assert_level cfg))) (lnote ew Reset_hold s))"

section \<open>Validating the images\<close>

text \<open>The size of a file as a \<open>long\<close>, which has 32 bits on this platform.\<close>

definition long_size :: "bytes \<Rightarrow> int" where
  "long_size content = sint (of_nat (length content) :: u32)"

definition padded_len :: "u32 \<Rightarrow> u32" where
  "padded_len real_len = (real_len + 3) AND (NOT 3)"

definition sector_range :: "u32 \<Rightarrow> u32 \<Rightarrow> u32 \<times> u32" where
  "sector_range offset padded =
     (let byte_end = (ucast offset :: u64) + ucast padded;
          sector_end = (byte_end + ucast FLASH_SECTOR_SIZE - 1) AND (NOT (ucast FLASH_SECTOR_SIZE - 1))
      in (offset AND (NOT (FLASH_SECTOR_SIZE - 1)), ucast sector_end))"

definition overlaps :: "u32 \<times> u32 \<Rightarrow> u32 \<times> u32 \<Rightarrow> bool" where
  "overlaps r p \<longleftrightarrow> fst r < snd p \<and> fst p < snd r"

fun validate_loop ::
  "ew \<Rightarrow> fs \<Rightarrow> u32 \<Rightarrow> (u32 \<times> u32) list \<Rightarrow> esp32_image list \<Rightarrow> esp32 \<Rightarrow> esp_err \<times> esp32" where
  "validate_loop ew files limit ranges [] s = (ESP_OK, s)"
| "validate_loop ew files limit ranges (img # images) s =
     (case gcall ew (File_stat (im_path img)) s of (e, s) \<Rightarrow>
        case (if e = ESP_OK then files (im_path img) else None) of
          None \<Rightarrow> (ESP_ERR_NOT_FOUND, s)
        | Some content \<Rightarrow>
            if long_size content \<le> 0 \<or> long_size content > uint (UINT32_MAX - 3) then (ESP_ERR_INVALID_SIZE, s)
            else if im_offset img AND 3 \<noteq> 0 then (ESP_ERR_INVALID_ARG, s)
            else
              let padded = padded_len (of_int (long_size content)) in
              if im_offset img > limit \<or> padded > limit - im_offset img then (ESP_ERR_INVALID_SIZE, s)
              else
                let rng = sector_range (im_offset img) padded in
                if list_ex (overlaps rng) ranges then (ESP_ERR_INVALID_ARG, s)
                else validate_loop ew files limit (ranges @ [rng]) images s)"

text \<open>The images in use, \<open>images[0 .. image_count - 1]\<close>.\<close>

definition used_images :: "target_config \<Rightarrow> esp32_image list" where
  "used_images cfg = take (cfg_image_count cfg) (cfg_images cfg)"

definition validate_images :: "ew \<Rightarrow> target_config \<Rightarrow> fs \<Rightarrow> u32 \<Rightarrow> esp32 \<Rightarrow> esp_err \<times> esp32" where
  "validate_images ew cfg files limit s = validate_loop ew files limit [] (used_images cfg) s"

section \<open>Connecting\<close>

text \<open>\<open>esp_loader_deinit(&loader); return e;\<close>\<close>

definition fail_deinit :: "ew \<Rightarrow> esp_err \<Rightarrow> esp32 \<Rightarrow> esp_err \<times> esp32" where
  "fail_deinit ew e s = (e, lnote ew Loader_deinit s)"

text \<open>The size limit: the smaller of the configured and the detected size.\<close>

definition find_flash_limit ::
  "ew \<Rightarrow> target_config \<Rightarrow> esp32 \<Rightarrow> (esp32 \<Rightarrow> esp_err \<times> esp32) \<Rightarrow> esp_err \<times> esp32" where
  "find_flash_limit ew cfg s k =
     (case cfg_flash_size_kb cfg of
        Some kb \<Rightarrow>
          if kb = 0 \<or> kb > MAX_FLASH_SIZE_KB then fail_deinit ew ESP_ERR_INVALID_SIZE s
          else
            let configured_size = kb * 1024;
                (r, s) = lcall ew Loader_detect_size s;
                limit = (if er_ld r = ESP_LOADER_SUCCESS then min configured_size (er_val r) else configured_size)
            in k (s\<lparr>eb_flash_limit := limit, eb_target_flash_size := limit\<rparr>)
      | None \<Rightarrow>
          on_loader ew Loader_detect_size s
            (\<lambda>err s. fail_deinit ew (loader_err_to_esp err) s)
            (\<lambda>r s. k (s\<lparr>eb_flash_limit := er_val r, eb_target_flash_size := er_val r\<rparr>)))"

text \<open>\<open>esp_loader_deinit(&loader); flash_limit = 0; return e;\<close>\<close>

definition fail_limit :: "ew \<Rightarrow> esp_err \<Rightarrow> esp32 \<Rightarrow> esp_err \<times> esp32" where
  "fail_limit ew e s = (e, (lnote ew Loader_deinit s)\<lparr>eb_flash_limit := 0\<rparr>)"

definition connect_locked :: "ew \<Rightarrow> target_config \<Rightarrow> fs \<Rightarrow> esp32 \<Rightarrow> esp_err \<times> esp32" where
  "connect_locked ew cfg files s =
     (if eb_connected s then (ESP_OK, s)
      else
        let s = s\<lparr>eb_flash_limit := 0\<rparr> in
        on_loader ew Loader_init s (\<lambda>_ s. (ESP_FAIL, s)) (\<lambda>_ s.
        on_loader ew Loader_connect s (\<lambda>err s. fail_deinit ew (loader_err_to_esp err) s) (\<lambda>_ s.
        case lcall ew Loader_get_target s of (r, s) \<Rightarrow>
        (case chip_from_name (cfg_chip cfg) of
           None \<Rightarrow> fail_deinit ew ESP_ERR_INVALID_STATE s
         | Some wanted \<Rightarrow>
             if er_chip r \<noteq> wanted then fail_deinit ew ESP_ERR_INVALID_STATE s
             else find_flash_limit ew cfg s (\<lambda>s.
               check (validate_images ew cfg files (eb_flash_limit s) s) (fail_limit ew) (\<lambda>s.
               if cfg_baud cfg > 115200
               then on_loader ew (Loader_change_rate (cfg_baud cfg)) s
                      (\<lambda>err s. fail_limit ew (loader_err_to_esp err) s)
                      (\<lambda>_ s. (ESP_OK, s\<lparr>eb_connected := True\<rparr>))
               else (ESP_OK, s\<lparr>eb_connected := True\<rparr>)))))))"

section \<open>Programming and verifying\<close>

definition file_read :: "ew \<Rightarrow> nat \<Rightarrow> bytes \<Rightarrow> esp32 \<Rightarrow> bytes \<times> bytes \<times> esp32" where
  "file_read ew n rest s =
     (case lcall ew (File_read n) s of (r, s) \<Rightarrow>
        let k = (if er_esp r = ESP_OK then n else min n (unat (er_val r)))
        in (take k rest, drop k rest, s))"

text \<open>The checks on a file's length and place shared by programming and verifying, in their order.\<close>

definition image_checked ::
  "ew \<Rightarrow> fs \<Rightarrow> path \<Rightarrow> u32 \<Rightarrow> esp32 \<Rightarrow> (bytes \<Rightarrow> u32 \<Rightarrow> esp32 \<Rightarrow> esp_err \<times> 'r) \<Rightarrow> (esp32 \<Rightarrow> 'r) \<Rightarrow> esp_err \<times> 'r" where
  "image_checked ew files path offset s k ret =
     (case gcall ew (File_open path) s of (e, s) \<Rightarrow>
        case (if e = ESP_OK then files path else None) of
          None \<Rightarrow> (ESP_ERR_NOT_FOUND, ret s)
        | Some content \<Rightarrow>
            let file_len = long_size content in
            if file_len < 0 then (ESP_FAIL, ret s)
            else if file_len = 0 then (ESP_ERR_INVALID_SIZE, ret s)
            else if file_len > uint (UINT32_MAX - 3) then (ESP_ERR_INVALID_SIZE, ret s)
            else
              let real_len = of_int file_len; padded = padded_len real_len in
              if offset AND 3 \<noteq> 0 \<or> offset > eb_flash_limit s \<or> padded > eb_flash_limit s - offset
              then (ESP_ERR_INVALID_SIZE, ret s)
              else k content real_len s)"

text \<open>
  \<open>memset(block + want, 0xFF, pad_len)\<close> after the last bytes of the file: the bytes sent, and
  whether the write stays inside the buffer.
\<close>

definition last_padding :: "nat \<Rightarrow> nat \<Rightarrow> nat \<Rightarrow> bytes" where
  "last_padding file_remaining want pad_len =
     (if file_remaining = want \<and> pad_len > 0 then replicate pad_len 0xFF else [])"

definition fits_block :: "nat \<Rightarrow> bytes \<Rightarrow> bool" where
  "fits_block want padding \<longleftrightarrow> want + length padding \<le> BLOCK_SIZE"

fun program_loop :: "ew \<Rightarrow> nat \<Rightarrow> nat \<Rightarrow> bytes \<Rightarrow> esp32 \<Rightarrow> esp_err \<times> esp32" where
  "program_loop ew pad_len file_remaining rest s =
     (if file_remaining = 0 then (ESP_OK, s)
      else
        let want = min file_remaining 4096 in
        case file_read ew want rest s of (block, rest, s) \<Rightarrow>
          if length block \<noteq> want then (ESP_FAIL, s)
          else
            let padding = last_padding file_remaining want pad_len in
            if \<not> fits_block want padding then (ESP_FAIL, s\<lparr>eb_fault := True\<rparr>)
            else
              on_loader ew (Loader_flash_write (block @ padding)) s
                (\<lambda>err s. (loader_err_to_esp err, s))
                (\<lambda>_ s. program_loop ew pad_len (file_remaining - want) rest s))"

declare program_loop.simps [simp del]

definition program_one_image :: "ew \<Rightarrow> fs \<Rightarrow> path \<Rightarrow> u32 \<Rightarrow> u32 \<Rightarrow> esp32 \<Rightarrow> esp_err \<times> u32 \<times> esp32" where
  "program_one_image ew files path offset written_len s =
     image_checked ew files path offset s (\<lambda>content real_len s.
       let padded = padded_len real_len; pad_len = padded - real_len in
       on_loader ew (Loader_flash_start offset padded BLOCK_SIZE) s
         (\<lambda>err s. (loader_err_to_esp err, written_len, s))
         (\<lambda>_ s. check (program_loop ew (unat pad_len) (unat real_len) content s)
            (\<lambda>e s. (e, written_len, s))
            (\<lambda>s. on_loader ew Loader_flash_finish s
               (\<lambda>err s. (loader_err_to_esp err, written_len, s))
               (\<lambda>_ s. (ESP_OK, real_len, s)))))
       (Pair written_len)"

text \<open>\<open>ferror\<close> after the loop is set only by a short read, which has already returned.\<close>

fun compare_loop :: "ew \<Rightarrow> nat \<Rightarrow> u32 \<Rightarrow> nat \<Rightarrow> bytes \<Rightarrow> esp32 \<Rightarrow> esp_err \<times> esp32" where
  "compare_loop ew pad_len offset_cursor file_remaining rest s =
     (if file_remaining = 0 then (ESP_OK, s)
      else
        let want = min file_remaining 4096 in
        case file_read ew want rest s of (block, rest, s) \<Rightarrow>
          if length block \<noteq> want then (ESP_FAIL, s)
          else
            let padding = last_padding file_remaining want pad_len;
                cmp_len = want + length padding in
            if \<not> fits_block want padding then (ESP_FAIL, s\<lparr>eb_fault := True\<rparr>)
            else
              on_loader ew (Loader_flash_read offset_cursor cmp_len) s
                (\<lambda>err s. (loader_err_to_esp err, s))
                (\<lambda>r s. if block @ padding \<noteq> buffer_of cmp_len (er_data r) then (ESP_ERR_INVALID_CRC, s)
                   else compare_loop ew pad_len (offset_cursor + of_nat cmp_len) (file_remaining - want) rest s))"

declare compare_loop.simps [simp del]

definition verify_one_image :: "ew \<Rightarrow> fs \<Rightarrow> path \<Rightarrow> u32 \<Rightarrow> esp32 \<Rightarrow> esp_err \<times> esp32" where
  "verify_one_image ew files path offset s =
     image_checked ew files path offset s (\<lambda>content real_len s.
       let pad_len = padded_len real_len - real_len in
       compare_loop ew (unat pad_len) offset (unat real_len) content s)
       (\<lambda>s. s)"

fun program_images :: "ew \<Rightarrow> fs \<Rightarrow> esp32_image list \<Rightarrow> u32 \<Rightarrow> esp32 \<Rightarrow> (esp_err + u32) \<times> esp32" where
  "program_images ew files [] sum_len s = (Inr sum_len, s)"
| "program_images ew files (img # images) sum_len s =
     (case program_one_image ew files (im_path img) (im_offset img) 0 s of (ret, one, s) \<Rightarrow>
        if ret \<noteq> ESP_OK then (Inl ret, s) else program_images ew files images (sum_len + one) s)"

definition esp_program :: "ew \<Rightarrow> target_config \<Rightarrow> fs \<Rightarrow> u32 \<Rightarrow> esp32 \<Rightarrow> esp_err \<times> u32 \<times> esp32" where
  "esp_program ew cfg files written_len s =
     check (connect_locked ew cfg files s) (\<lambda>e s. (e, written_len, s)) (\<lambda>s.
       case program_images ew files (used_images cfg) 0 s of
         (Inl ret, s) \<Rightarrow> (ret, written_len, s)
       | (Inr sum_len, s) \<Rightarrow> (ESP_OK, sum_len, s))"

fun verify_images_loop :: "ew \<Rightarrow> fs \<Rightarrow> esp32_image list \<Rightarrow> esp32 \<Rightarrow> esp_err \<times> esp32" where
  "verify_images_loop ew files [] s = (ESP_OK, s)"
| "verify_images_loop ew files (img # images) s =
     check (verify_one_image ew files (im_path img) (im_offset img) s) Pair
       (verify_images_loop ew files images)"

definition esp_verify :: "ew \<Rightarrow> target_config \<Rightarrow> fs \<Rightarrow> u32 \<Rightarrow> esp32 \<Rightarrow> esp_err \<times> esp32" where
  "esp_verify ew cfg files written_len s =
     check (connect_locked ew cfg files s) Pair (verify_images_loop ew files (used_images cfg))"

section \<open>Transport and registers\<close>

definition esp_release_transport :: "ew \<Rightarrow> esp32 \<Rightarrow> esp_err \<times> esp32" where
  "esp_release_transport ew s =
     (let s = (if eb_connected s
               then (lnote ew Loader_deinit (lnote ew Loader_reset_target s))\<lparr>eb_connected := False\<rparr> else s)
      in (ESP_OK, s\<lparr>eb_flash_limit := 0\<rparr>))"

definition esp_reset_target :: "ew \<Rightarrow> bool \<Rightarrow> target_config \<Rightarrow> esp32 \<Rightarrow> esp_err \<times> esp32" where
  "esp_reset_target ew boot cfg s =
     (if eb_connected s then (ESP_OK, lnote ew Loader_reset_target s)
      else check (prepare_control_pins ew boot cfg s) Pair (pulse_reset ew cfg))"

definition esp_read_mem32 :: "ew \<Rightarrow> u32 \<Rightarrow> u32 \<Rightarrow> esp32 \<Rightarrow> esp_err \<times> u32 \<times> esp32" where
  "esp_read_mem32 ew addr val s =
     (if \<not> eb_connected s then (ESP_ERR_INVALID_STATE, val, s)
      else case lcall ew (Loader_read_register addr) s of (r, s) \<Rightarrow>
        (loader_err_to_esp (er_ld r), er_val r, s))"

definition esp_write_mem32 :: "ew \<Rightarrow> u32 \<Rightarrow> u32 \<Rightarrow> esp32 \<Rightarrow> esp_err \<times> esp32" where
  "esp_write_mem32 ew addr val s =
     (if \<not> eb_connected s then (ESP_ERR_INVALID_STATE, s)
      else case lcall ew (Loader_write_register addr val) s of (r, s) \<Rightarrow> (loader_err_to_esp (er_ld r), s))"

text \<open>The operations that only hand on to another, or do nothing.\<close>

definition esp_begin_session :: "ew \<Rightarrow> bool \<Rightarrow> target_config \<Rightarrow> esp32 \<Rightarrow> esp_err \<times> esp32" where [simp]:
  "esp_begin_session ew boot cfg = prepare_control_pins ew boot cfg"

definition esp_detect :: "ew \<Rightarrow> target_config \<Rightarrow> fs \<Rightarrow> esp32 \<Rightarrow> esp_err \<times> esp32" where [simp]:
  "esp_detect ew cfg files = connect_locked ew cfg files"

definition esp_erase :: "esp32 \<Rightarrow> esp_err \<times> esp32" where [simp]:
  "esp_erase s = (ESP_OK, s)"

definition esp_self_test :: "test_item \<Rightarrow> u32 \<Rightarrow> esp32 \<Rightarrow> esp_err \<times> u32 \<times> esp32" where [simp]:
  "esp_self_test item func_return_val s = (ESP_ERR_NOT_SUPPORTED, func_return_val, s)"

definition esp_not_supported :: "esp32 \<Rightarrow> esp_err \<times> esp32" where [simp]:
  "esp_not_supported s = (ESP_ERR_NOT_SUPPORTED, s)"

definition esp32_serial_backend :: "ew \<Rightarrow> bool \<Rightarrow> target_config \<Rightarrow> fs \<Rightarrow> esp32 backend" where
  "esp32_serial_backend ew boot cfg files = \<lparr>
     be_name = ''esp32 (serial)'',
     be_begin_session = esp_begin_session ew boot cfg,
     be_detect = esp_detect ew cfg files,
     be_erase = esp_erase,
     be_program = esp_program ew cfg files,
     be_verify = esp_verify ew cfg files,
     be_self_test = esp_self_test,
     be_release_transport = esp_release_transport ew,
     be_reset_target = esp_reset_target ew boot cfg,
     be_reinit_debug = esp_not_supported,
     be_halt_target = esp_not_supported,
     be_wait_halt = esp_not_supported,
     be_read_mem32 = esp_read_mem32 ew,
     be_write_mem32 = esp_write_mem32 ew\<rparr>"

end
