(* ===== verification/Esp32_Layout.thy ===== *)
theory Esp32_Layout
  imports Esp32_Backend
begin

unbundle bit_operations_syntax

text \<open>
  The flash behind the serial loader and what the calls of one image, and of all images, do to it; the
  word arithmetic of padding and erase sectors as arithmetic on unbounded integers; and what
  \<open>validate_images\<close> checks (\<open>validate_loop_iff\<close>).
\<close>

section \<open>Padding and sizes\<close>

lemma and_not_mask_word: "(x :: 'a :: len word) AND NOT (mask n) = push_bit n (drop_bit n x)"
  by (rule bit_word_eqI) (auto simp: bit_simps)

lemma unat_align_down: "unat ((x :: 'a :: len word) AND NOT (mask n)) = unat x div 2 ^ n * 2 ^ n"
proof -
  have "x AND NOT (mask n) = x - take_bit n x"
    unfolding and_not_mask_word by (metis add_diff_cancel_right' bits_ident)
  moreover have "take_bit n x \<le> x" by (simp add: word_le_nat_alt unsigned_take_bit_eq take_bit_nat_less_eq_self)
  ultimately have "unat (x AND NOT (mask n)) = unat x - unat (take_bit n x)" by (simp only: unat_sub)
  also have "unat (take_bit n x) = unat x mod 2 ^ n"
    unfolding unsigned_take_bit_eq by (rule take_bit_eq_mod)
  finally show ?thesis by (simp add: minus_mod_eq_div_mult)
qed

lemma padded_len_unat:
  assumes "unat n + 3 < 4294967296"
  shows "unat (padded_len n) = (unat n + 3) div 4 * 4"
proof -
  have "(3 :: u32) = mask 2" by (simp add: mask_eq_exp_minus_1)
  then show ?thesis
    using assms unat_align_down [of "n + 3" 2] by (simp add: padded_len_def unat_add_u32)
qed

lemma padded_len_bounds:
  assumes "unat n + 3 < 4294967296"
  shows "unat n \<le> unat (padded_len n)" "unat (padded_len n) \<le> unat n + 3" "4 dvd unat (padded_len n)"
    "unat (padded_len n - n) = unat (padded_len n) - unat n"
proof -
  note p = padded_len_unat [OF assms]
  show "4 dvd unat (padded_len n)" by (simp add: p)
  show le: "unat n \<le> unat (padded_len n)" "unat (padded_len n) \<le> unat n + 3"
    unfolding p by linarith+
  from le(1) show "unat (padded_len n - n) = unat (padded_len n) - unat n"
    by (simp add: unat_sub_u32 word_le_nat_alt)
qed

text \<open>A file in the file system is shorter than 4 GiB, the limit of FAT.\<close>

definition fat_sizes :: "fs \<Rightarrow> bool" where
  "fat_sizes files \<longleftrightarrow> (\<forall>p c. files p = Some c \<longrightarrow> length c < 4294967296)"

lemma long_size_pos:
  assumes "length c < 4294967296" and "0 < long_size c"
  shows "length c < 2147483648" "0 < length c" "(of_int (long_size c) :: u32) = of_nat (length c)"
proof -
  let ?w = "of_nat (length c) :: u32"
  show "(of_int (long_size c) :: u32) = of_nat (length c)" by (simp add: long_size_def)
  have u: "uint ?w = int (length c)" using assms(1) by (metis uint_nat unat_of_nat_u32)
  show "0 < length c" using assms(2) by (cases c) (simp_all add: long_size_def)
  have "take_bit 32 (uint ?w) = uint ?w"
    using assms(1) unfolding u by (simp add: take_bit_int_eq_self_iff)
  then have "sint ?w = uint ?w - 4294967296 * of_bool (bit (uint ?w) 31)"
    by (simp add: sint_uint signed_take_bit_eq_take_bit_minus)
  moreover have "sint ?w < 2147483648" using sint_lt [of ?w] by simp
  ultimately show "length c < 2147483648"
    using assms u by (cases "bit (uint ?w) 31") (simp_all add: long_size_def)
qed

section \<open>What the calls do to the flash\<close>

text \<open>
  The flash behind the loader. \<open>esp_loader_flash_start\<close> erases every 4 KB sector that the bytes it announces touch, as
  \<open>esp32_serial_backend.hpp\<close> says of it, and sets the place of the next block; each block is programmed after the one
  before it. Programming only clears bits, so a byte is what was written only if it was erased before.
\<close>

record lflash =
  lf_mem :: "u32 \<Rightarrow> u8"
  lf_cursor :: u32

definition in_sectors :: "u32 \<Rightarrow> nat \<Rightarrow> u32 \<Rightarrow> bool" where
  "in_sectors offset n x \<longleftrightarrow>
     unat offset div 4096 \<le> unat x div 4096 \<and> unat x div 4096 < (unat offset + n + 4095) div 4096"

definition erase_sectors :: "(u32 \<Rightarrow> u8) \<Rightarrow> u32 \<Rightarrow> nat \<Rightarrow> u32 \<Rightarrow> u8" where
  "erase_sectors m offset n = (\<lambda>x. if in_sectors offset n x then 0xFF else m x)"

definition program_bytes :: "(u32 \<Rightarrow> u8) \<Rightarrow> u32 \<Rightarrow> bytes \<Rightarrow> u32 \<Rightarrow> u8" where
  "program_bytes m a b = (\<lambda>x. m x AND store_bytes (\<lambda>_. 0xFF) a b x)"

fun flash_step :: "esp_call \<Rightarrow> lflash \<Rightarrow> lflash" where
  "flash_step (Loader_flash_start offset len block_size) d =
     \<lparr>lf_mem = erase_sectors (lf_mem d) offset (unat len), lf_cursor = offset\<rparr>"
| "flash_step (Loader_flash_write b) d =
     \<lparr>lf_mem = program_bytes (lf_mem d) (lf_cursor d) b, lf_cursor = lf_cursor d + of_nat (length b)\<rparr>"
| "flash_step c d = d"

definition run_flash :: "esp_call list \<Rightarrow> lflash \<Rightarrow> lflash" where
  "run_flash cs d = fold flash_step cs d"

lemma run_flash_simps [simp]:
  "run_flash [] d = d" "run_flash (c # cs) d = run_flash cs (flash_step c d)"
  "run_flash (cs @ ds) d = run_flash ds (run_flash cs d)"
  by (simp_all add: run_flash_def)

lemma store_bytes_nil [simp]: "store_bytes m a [] = m"
  by (rule ext) (simp add: store_bytes_def in_reg_def)

lemma store_bytes_append:
  assumes "length xs + length ys \<le> 4294967296"
  shows "store_bytes (store_bytes m a xs) (a + of_nat (length xs)) ys = store_bytes m a (xs @ ys)"
proof
  fix x
  define d where "d = unat (x - a)"
  have d: "d < 4294967296" "x = a + of_nat d" by (simp_all add: d_def unat_u32_less)
  have off: "unat (x - (a + of_nat (length xs))) = d - length xs" if "length xs \<le> d"
  proof -
    have "x - (a + of_nat (length xs)) = of_nat (d - length xs)" using that d(2) by (simp add: of_nat_diff)
    then show ?thesis using d(1) by (simp add: unat_of_nat_u32)
  qed
  have not: "\<not> in_reg x (a + of_nat (length xs)) (length ys)" if "d < length xs"
    unfolding d(2) by (rule in_reg_after) (use assms that in auto)
  show "store_bytes (store_bytes m a xs) (a + of_nat (length xs)) ys x = store_bytes m a (xs @ ys) x"
  proof (cases "d < length xs")
    case True
    with not show ?thesis
      by (simp add: store_bytes_def [of _ "a + of_nat (length xs)"])
        (simp add: store_bytes_def in_reg_def d_def [symmetric] nth_append)
  next
    case False
    with off show ?thesis
      by (simp add: store_bytes_def in_reg_def d_def [symmetric] nth_append) linarith
  qed
qed

lemma byte_FF [simp]: "(w :: u8) AND 0xFF = w" "(0xFF :: u8) AND w = w"
proof -
  have "(0xFF :: u8) = - 1" by simp
  then show "w AND 0xFF = w" "0xFF AND w = w" by (simp_all only: and.right_neutral and.left_neutral)
qed

lemma program_bytes_nil [simp]: "program_bytes m a [] = m"
  by (simp add: program_bytes_def)

lemma program_bytes_append:
  assumes "length xs + length ys \<le> 4294967296"
  shows "program_bytes (program_bytes m a xs) (a + of_nat (length xs)) ys = program_bytes m a (xs @ ys)"
proof
  fix x
  let ?b = "a + of_nat (length xs) :: u32" and ?E = "\<lambda>_. 0xFF :: u8"
  have "\<not> in_reg x a (length xs) \<or> \<not> in_reg x ?b (length ys)"
  proof (cases "in_reg x a (length xs)")
    case True
    then obtain i where i: "i < length xs" "x = a + of_nat i" by (rule in_reg_ex [THEN exE]) blast
    have "\<not> in_reg x ?b (length ys)" unfolding i(2) by (rule in_reg_after) (use assms i(1) in auto)
    then show ?thesis by blast
  qed simp
  then have "store_bytes ?E a xs x AND store_bytes ?E ?b ys x = store_bytes (store_bytes ?E a xs) ?b ys x"
    by (auto simp: store_bytes_def)
  also have "store_bytes (store_bytes ?E a xs) ?b ys x = store_bytes ?E a (xs @ ys) x"
    by (simp add: store_bytes_append [OF assms])
  finally show "program_bytes (program_bytes m a xs) ?b ys x = program_bytes m a (xs @ ys) x"
    by (simp add: program_bytes_def and.assoc)
qed

definition padding_of :: "nat \<Rightarrow> bytes" where
  "padding_of n = replicate ((n + 3) div 4 * 4 - n) 0xFF"

definition padded :: "bytes \<Rightarrow> bytes" where
  "padded c = c @ padding_of (length c)"

lemma length_padded: "length (padded c) = (length c + 3) div 4 * 4"
  by (simp add: padded_def padding_of_def)

lemma lcall_eq: "lcall ew c s = (ew (eb_log s @ [c]), s\<lparr>eb_log := eb_log s @ [c]\<rparr>)"
  by (simp add: lcall_def Let_def)

lemma on_loader_eq:
  "on_loader ew c s h k =
     (if er_ld (ew (eb_log s @ [c])) = ESP_LOADER_SUCCESS
      then k (ew (eb_log s @ [c])) (s\<lparr>eb_log := eb_log s @ [c]\<rparr>)
      else h (er_ld (ew (eb_log s @ [c]))) (s\<lparr>eb_log := eb_log s @ [c]\<rparr>))"
  by (simp add: on_loader_def lcall_eq)

lemma on_loader_success:
  "er_ld (ew (eb_log s @ [c])) = ESP_LOADER_SUCCESS \<Longrightarrow>
     on_loader ew c s h k = k (ew (eb_log s @ [c])) (s\<lparr>eb_log := eb_log s @ [c]\<rparr>)"
  by (simp add: on_loader_eq)

lemma loader_err_OK [simp]: "loader_err_to_esp e = ESP_OK \<longleftrightarrow> e = ESP_LOADER_SUCCESS"
  by (simp add: loader_err_to_esp_def split: loader_error.splits)

lemma file_read_full:
  assumes "file_read ew n rest s = (b, r, s')" and "length b = n"
  shows "b = take n rest \<and> r = drop n rest \<and> n \<le> length rest \<and> s' = s\<lparr>eb_log := eb_log s @ [File_read n]\<rparr>"
proof -
  let ?r = "ew (eb_log s @ [File_read n])"
  define k where "k = (if er_esp ?r = ESP_OK then n else min n (unat (er_val ?r)))"
  from assms(1) have k: "k \<le> n" "b = take k rest" "r = drop k rest"
      "s' = s\<lparr>eb_log := eb_log s @ [File_read n]\<rparr>"
    by (auto simp: file_read_def lcall_eq k_def Let_def)
  from k(1,2) assms(2) have "k = n" "n \<le> length rest" by (auto simp: min_def split: if_splits)
  with k show ?thesis by simp
qed

lemma file_read_state:
  "file_read ew n rest s = (b, r, s') \<Longrightarrow> s' = s\<lparr>eb_log := eb_log s @ [File_read n]\<rparr>"
  by (auto simp: file_read_def lcall_eq Let_def)

text \<open>The padding fits: the bytes left and the padding always make a multiple of four.\<close>

lemma padding_fits:
  assumes "4 dvd n + pad" and "pad < 4"
  shows "fits_block (min n 4096) (last_padding n (min n 4096) pad)"
proof (cases "n \<le> 4096")
  case True
  have "n + pad \<le> 4096"
  proof (rule ccontr)
    assume "\<not> n + pad \<le> 4096"
    with True assms(2) have "n + pad = 4097 \<or> n + pad = 4098 \<or> n + pad = 4099" by auto
    with assms(1) show False by auto
  qed
  with True show ?thesis by (simp add: fits_block_def last_padding_def BLOCK_SIZE_def)
qed (simp add: fits_block_def last_padding_def BLOCK_SIZE_def)

lemma remaining_step: "4 dvd n + pad \<Longrightarrow> 4096 \<le> n \<Longrightarrow> 4 dvd (n - 4096) + (pad :: nat)"
  by presburger

section \<open>Programming an image\<close>

lemma program_loop_step:
  assumes "0 < n" and "4 dvd n + pad" and "pad < 4"
  defines "k \<equiv> min n 4096" and "p \<equiv> last_padding n (min n 4096) pad"
  shows "program_loop ew pad n rest s =
    (case file_read ew k rest s of (block, rest, s) \<Rightarrow>
       if length block \<noteq> k then (ESP_FAIL, s)
       else on_loader ew (Loader_flash_write (block @ p)) s (\<lambda>err s. (loader_err_to_esp err, s))
              (\<lambda>_ s. program_loop ew pad (n - k) rest s))"
  using assms(1) padding_fits [OF assms(2,3)]
  unfolding k_def p_def by (subst program_loop.simps) (simp add: Let_def case_prod_unfold)

text \<open>What is still to be sent: the rest of the file and its padding.\<close>

definition to_send :: "nat \<Rightarrow> nat \<Rightarrow> bytes \<Rightarrow> bytes" where
  "to_send pad n rest = (if n = 0 then [] else take n rest @ replicate pad 0xFF)"

lemma to_send_step:
  assumes "0 < n" and "n \<le> length rest"
  defines "k \<equiv> min n 4096"
  shows "to_send pad n rest = (take k rest @ last_padding n k pad) @ to_send pad (n - k) (drop k rest)"
proof (cases "n \<le> 4096")
  case True
  with assms show ?thesis by (simp add: to_send_def last_padding_def)
next
  case False
  then have "take n rest = take k rest @ take (n - k) (drop k rest)"
    by (metis k_def le_add_diff_inverse min.cobounded1 take_add)
  with False show ?thesis by (simp add: to_send_def last_padding_def k_def)
qed

lemma program_loop_writes:
  assumes "program_loop ew pad n rest s = (ESP_OK, s')" and "n \<noteq> 0 \<longrightarrow> 4 dvd n + pad" and "pad < 4"
    and "n + pad \<le> 4294967296" and "n \<le> length rest"
  shows "\<exists>calls. s' = s\<lparr>eb_log := eb_log s @ calls\<rparr> \<and>
     (\<forall>d. lf_mem (run_flash calls d) = program_bytes (lf_mem d) (lf_cursor d) (to_send pad n rest))"
  using assms(1,2,4,5)
proof (induction n arbitrary: rest s rule: less_induct)
  case (less n)
  show ?case
  proof (cases "n = 0")
    case True
    with less.prems(1) show ?thesis
      by (subst (asm) program_loop.simps) (auto simp: to_send_def intro: exI [of _ "[]"])
  next
    case False
    define k where "k = min n 4096"
    define b where "b = take k rest @ last_padding n k pad"
    obtain block rest1 s1 where rd: "file_read ew k rest s = (block, rest1, s1)" by (metis surj_pair)
    from False less.prems(2) have four: "4 dvd n + pad" by simp
    note step = program_loop_step [OF _ four assms(3), of ew rest s, folded k_def]
    from less.prems(1) rd False have bl: "length block = k"
      by (auto simp: step split: if_splits)
    from file_read_full [OF rd bl] have f: "block = take k rest" "rest1 = drop k rest"
        "s1 = s\<lparr>eb_log := eb_log s @ [File_read k]\<rparr>" by auto
    let ?s = "s\<lparr>eb_log := eb_log s @ [File_read k, Loader_flash_write b]\<rparr>"
    from less.prems(1) rd False bl f have rec: "program_loop ew pad (n - k) (drop k rest) ?s = (ESP_OK, s')"
      by (auto simp: step on_loader_eq b_def split: if_splits)
    have "n - k \<noteq> 0 \<longrightarrow> 4 dvd n - k + pad" "n - k < n" "n - k + pad \<le> 4294967296" "n - k \<le> length (drop k rest)"
      using less.prems(3,4) False remaining_step [OF four] by (auto simp: k_def min_def)
    from less.IH [OF this(2) rec this(1,3,4)] obtain calls where c: "s' = ?s\<lparr>eb_log := eb_log ?s @ calls\<rparr>"
        "\<And>d. lf_mem (run_flash calls d) = program_bytes (lf_mem d) (lf_cursor d) (to_send pad (n - k) (drop k rest))"
      by blast
    have ts: "to_send pad n rest = b @ to_send pad (n - k) (drop k rest)"
      using to_send_step [of n rest pad] False less.prems(4) by (simp add: b_def k_def)
    have len: "length (to_send pad n rest) \<le> 4294967296"
      using less.prems(3,4) by (simp add: to_send_def)
    show ?thesis
      by (rule exI [of _ "[File_read k, Loader_flash_write b] @ calls"])
        (use c len in \<open>simp add: ts program_bytes_append\<close>)
  qed
qed

text \<open>An image that fits below the limit, as unbounded integers.\<close>

definition image_fits :: "u32 \<Rightarrow> u32 \<Rightarrow> bytes \<Rightarrow> bool" where
  "image_fits limit offset c \<longleftrightarrow>
     0 < length c \<and> length c < 2147483648 \<and> unat offset + length (padded c) \<le> unat limit"

lemma padded_lens:
  assumes "length c < 2147483648"
  defines "n \<equiv> of_nat (length c) :: u32"
  shows "unat n = length c" "unat (padded_len n) = length (padded c)"
    "unat (padded_len n - n) = length (padding_of (length c))"
    "length c + length (padding_of (length c)) = length (padded c)" "4 dvd length (padded c)"
    "length (padding_of (length c)) < 4"
proof -
  show n: "unat n = length c" using assms by (simp add: unat_of_nat_u32)
  have b: "unat n + 3 < 4294967296" using n assms(1) by simp
  show p: "unat (padded_len n) = length (padded c)" using padded_len_unat [OF b] n by (simp add: length_padded)
  show "unat (padded_len n - n) = length (padding_of (length c))"
    using padded_len_bounds(4) [OF b] p n by (simp add: padded_def)
  show "length c + length (padding_of (length c)) = length (padded c)" by (simp add: padded_def)
  show "4 dvd length (padded c)" by (simp add: length_padded)
  show "length (padding_of (length c)) < 4" by (simp add: padding_of_def)
qed

lemma limit_fits:
  fixes offset :: u32
  assumes "length c < 2147483648" "0 < length c"
  shows "\<not> (offset > limit \<or> padded_len (of_nat (length c)) > limit - offset) \<longleftrightarrow> image_fits limit offset c"
proof (cases "offset \<le> limit")
  case True
  with assms padded_lens(2) [OF assms(1)] show ?thesis
    by (auto simp: image_fits_def word_less_nat_alt word_le_nat_alt not_less unat_sub_u32)
qed (use assms in \<open>auto simp: image_fits_def word_less_nat_alt word_le_nat_alt\<close>)

lemma image_checked_OK:
  assumes "image_checked ew files p offset s k ret = (ESP_OK, x)" and "fat_sizes files"
  obtains content where "files p = Some content" "image_fits (eb_flash_limit s) offset content"
    "k content (of_nat (length content)) (s\<lparr>eb_log := eb_log s @ [File_open p]\<rparr>) = (ESP_OK, x)"
proof -
  from assms(1) obtain content where c: "files p = Some content" "0 < long_size content"
      "\<not> (offset > eb_flash_limit s \<or> padded_len (of_int (long_size content)) > eb_flash_limit s - offset)"
      "k content (of_int (long_size content)) (s\<lparr>eb_log := eb_log s @ [File_open p]\<rparr>) = (ESP_OK, x)"
    by (auto simp: image_checked_def gcall_def lcall_eq Let_def split: option.splits if_splits)
  from assms(2) c(1) have "length content < 4294967296" by (simp add: fat_sizes_def)
  from long_size_pos [OF this c(2)] limit_fits [where c = content] c show thesis
    by (intro that) auto
qed

lemma in_reg_bounds:
  assumes "in_reg x a n" and "unat a + n \<le> 4294967296"
  shows "unat a \<le> unat x" "unat x < unat a + n"
proof -
  from in_reg_ex [OF assms(1)] obtain i where i: "i < n" "x = a + of_nat i" by blast
  have "unat x = unat a + i"
    unfolding i(2) using i(1) assms(2) by (subst unat_add_u32) (simp_all add: unat_of_nat_u32)
  with i(1) show "unat a \<le> unat x" "unat x < unat a + n" by simp_all
qed

lemma in_reg_sectors: "in_reg x a n \<Longrightarrow> unat a + n \<le> 4294967296 \<Longrightarrow> in_sectors a n x"
  using in_reg_bounds [of x a n] unfolding in_sectors_def by linarith

text \<open>What has been erased before is what was written.\<close>

lemma program_erased:
  assumes "unat a + length b \<le> 4294967296"
  shows "program_bytes (erase_sectors m a (length b)) a b = store_bytes (erase_sectors m a (length b)) a b"
proof
  fix x
  show "program_bytes (erase_sectors m a (length b)) a b x = store_bytes (erase_sectors m a (length b)) a b x"
    using in_reg_sectors [OF _ assms, of x] by (auto simp: program_bytes_def store_bytes_def erase_sectors_def)
qed

lemma program_one_image_writes:
  assumes "program_one_image ew files p offset w s = (ESP_OK, one, s')" and "fat_sizes files"
  shows "\<exists>content calls. files p = Some content \<and> image_fits (eb_flash_limit s) offset content \<and>
     unat one = length content \<and> s' = s\<lparr>eb_log := eb_log s @ calls\<rparr> \<and>
     (\<forall>d. lf_mem (run_flash calls d) = store_bytes (erase_sectors (lf_mem d) offset (length (padded content))) offset (padded content))"
proof -
  from assms obtain content where
      c: "files p = Some content" "image_fits (eb_flash_limit s) offset content"
      and run: "on_loader ew (Loader_flash_start offset (padded_len (of_nat (length content))) BLOCK_SIZE)
         (s\<lparr>eb_log := eb_log s @ [File_open p]\<rparr>)
         (\<lambda>err s. (loader_err_to_esp err, w, s))
         (\<lambda>_ s. check (program_loop ew (unat (padded_len (of_nat (length content)) - of_nat (length content)))
              (unat (of_nat (length content) :: u32)) content s)
            (\<lambda>e s. (e, w, s))
            (\<lambda>s. on_loader ew Loader_flash_finish s (\<lambda>err s. (loader_err_to_esp err, w, s))
               (\<lambda>_ s. (ESP_OK, of_nat (length content), s)))) = (ESP_OK, one, s')"
    unfolding program_one_image_def Let_def by (elim image_checked_OK) auto
  have len: "length content < 2147483648" "0 < length content" using c(2) by (auto simp: image_fits_def)
  note pl = padded_lens [OF len(1)]
  let ?pad = "length (padding_of (length content))"
  let ?st = "Loader_flash_start offset (padded_len (of_nat (length content))) BLOCK_SIZE"
  let ?s = "s\<lparr>eb_log := eb_log s @ [File_open p, ?st]\<rparr>"
  obtain r s2 where rs: "program_loop ew ?pad (length content) content ?s = (r, s2)" by fastforce
  have r: "r = ESP_OK"
    using run rs by (cases "r = ESP_OK") (simp_all add: on_loader_eq pl(1,3) split: if_splits)
  with rs have lp: "program_loop ew ?pad (length content) content ?s = (ESP_OK, s2)" by simp
  with run have fin: "s' = s2\<lparr>eb_log := eb_log s2 @ [Loader_flash_finish]\<rparr>" "one = of_nat (length content)"
    by (simp_all add: on_loader_eq pl(1,3) split: if_splits)
  have "\<exists>calls. s2 = ?s\<lparr>eb_log := eb_log ?s @ calls\<rparr> \<and>
     (\<forall>d. lf_mem (run_flash calls d) = program_bytes (lf_mem d) (lf_cursor d) (to_send ?pad (length content) content))"
    by (rule program_loop_writes [OF lp]) (use len pl(4-6) in auto)
  moreover have "to_send ?pad (length content) content = padded content"
    using len(2) by (simp add: to_send_def padded_def padding_of_def)
  ultimately obtain calls where w: "s2 = ?s\<lparr>eb_log := eb_log ?s @ calls\<rparr>"
      "\<And>d. lf_mem (run_flash calls d) = program_bytes (lf_mem d) (lf_cursor d) (padded content)" by auto
  have "unat offset + length (padded content) \<le> 4294967296"
    using c(2) unat_u32_less [of "eb_flash_limit s"] by (simp add: image_fits_def)
  note er = program_erased [OF this]
  show ?thesis
    by (rule exI [of _ content], rule exI [of _ "[File_open p, ?st] @ calls @ [Loader_flash_finish]"])
      (use c fin w pl(1,2) er in simp)
qed

section \<open>The images that validation accepts\<close>

definition image_ok :: "fs \<Rightarrow> u32 \<Rightarrow> esp32_image \<Rightarrow> bool" where
  "image_ok files limit img \<longleftrightarrow>
     (\<exists>c. files (im_path img) = Some c \<and> image_fits limit (im_offset img) c \<and> unat (im_offset img) mod 4 = 0)"

definition image_bytes :: "fs \<Rightarrow> esp32_image \<Rightarrow> bytes" where
  "image_bytes files img = (case files (im_path img) of None \<Rightarrow> [] | Some c \<Rightarrow> padded c)"

definition image_end :: "fs \<Rightarrow> esp32_image \<Rightarrow> nat" where
  "image_end files img = unat (im_offset img) + length (image_bytes files img)"

text \<open>Two images use no common erase sector: the last sector of one is before the first of the other.\<close>

definition sectors_apart :: "fs \<Rightarrow> esp32_image \<Rightarrow> esp32_image \<Rightarrow> bool" where
  "sectors_apart files a b \<longleftrightarrow>
     (image_end files a + 4095) div 4096 \<le> unat (im_offset b) div 4096 \<or>
     (image_end files b + 4095) div 4096 \<le> unat (im_offset a) div 4096"

lemma and_3: "x AND 3 = 0 \<longleftrightarrow> unat (x :: u32) mod 4 = 0"
proof -
  have "x AND 3 = take_bit 2 x" by (simp add: take_bit_eq_mask mask_eq_exp_minus_1)
  moreover have "unat (take_bit 2 x) = unat x mod 2 ^ 2"
    unfolding unsigned_take_bit_eq by (rule take_bit_eq_mod)
  ultimately show ?thesis by (simp add: unat_eq_zero [symmetric])
qed

lemma long_size_of: "length c < 2147483648 \<Longrightarrow> long_size c = int (length c)"
proof -
  assume l: "length c < 2147483648"
  let ?w = "of_nat (length c) :: u32"
  have "length c < 4294967296" using l by simp
  then have u: "uint ?w = int (length c)" by (metis uint_nat unat_of_nat_u32)
  have "int (length c) < 2 ^ 31" using l by simp
  then have "signed_take_bit 31 (int (length c)) = int (length c)"
    by (simp add: signed_take_bit_int_eq_self_iff)
  then show ?thesis by (simp add: long_size_def sint_uint u)
qed

lemma sector_range_unat:
  assumes fit: "image_fits limit offset c" and lim: "unat limit \<le> 4294963200"
  defines "r \<equiv> sector_range offset (padded_len (of_nat (length c)))"
  shows "unat (fst r) = unat offset div 4096 * 4096"
    "unat (snd r) = (unat offset + length (padded c) + 4095) div 4096 * 4096"
proof -
  have m: "FLASH_SECTOR_SIZE - 1 = (mask 12 :: u32)" "ucast FLASH_SECTOR_SIZE - 1 = (mask 12 :: u64)"
    by (simp_all add: FLASH_SECTOR_SIZE_def mask_eq_exp_minus_1)
  show "unat (fst r) = unat offset div 4096 * 4096"
    using unat_align_down [of offset 12] by (simp add: r_def sector_range_def m(1))
  let ?e = "(ucast offset :: u64) + ucast (padded_len (of_nat (length c)) :: u32)"
  have pl: "unat (padded_len (of_nat (length c)) :: u32) = length (padded c)"
    using fit by (intro padded_lens) (simp add: image_fits_def)
  have le: "unat offset + length (padded c) \<le> 4294963200" using fit lim by (simp add: image_fits_def)
  have e: "unat ?e = unat offset + length (padded c)"
    using le pl by (simp add: unat_word_ariths)
  have e2: "unat (?e + mask 12) = unat offset + length (padded c) + 4095"
    using le e by (simp add: unat_word_ariths mask_eq_exp_minus_1)
  have al: "unat ((?e + mask 12) AND NOT (mask 12)) = (unat offset + length (padded c) + 4095) div 4096 * 4096"
    unfolding unat_align_down e2 by simp
  have "snd r = ucast ((?e + mask 12) AND NOT (mask 12))"
    unfolding r_def sector_range_def Let_def m(2) [symmetric] by (simp add: add_diff_eq)
  moreover have "(unat offset + length (padded c) + 4095) div 4096 * 4096 < 4294967296" using le by linarith
  ultimately show "unat (snd r) = (unat offset + length (padded c) + 4095) div 4096 * 4096"
    using al by (simp add: unsigned_ucast_eq take_bit_eq_mod)
qed

text \<open>The sector range that the loop computes for an image.\<close>

definition range_of :: "fs \<Rightarrow> esp32_image \<Rightarrow> u32 \<times> u32" where
  "range_of files img =
     sector_range (im_offset img) (padded_len (of_nat (length (the (files (im_path img))))))"

definition stats_work :: "ew \<Rightarrow> bool" where
  "stats_work ew \<longleftrightarrow> (\<forall>l p. er_esp (ew (l @ [File_stat p])) = ESP_OK)"

lemma image_step:
  assumes "fat_sizes files" and "files (im_path img) = Some c"
  shows "\<not> (long_size c \<le> 0 \<or> long_size c > uint (UINT32_MAX - 3)) \<and> im_offset img AND 3 = 0 \<and>
     \<not> (im_offset img > limit \<or> padded_len (of_int (long_size c)) > limit - im_offset img)
     \<longleftrightarrow> image_ok files limit img"
proof (cases "0 < long_size c")
  case True
  have l: "length c < 4294967296" using assms by (simp add: fat_sizes_def)
  note ls = long_size_pos [OF l True]
  have "\<not> long_size c > uint (UINT32_MAX - 3)"
    using ls(1) by (simp add: long_size_of UINT32_MAX_def)
  with True assms(2) show ?thesis
    using limit_fits [OF ls(1,2)] by (auto simp: image_ok_def and_3 ls(3))
next
  case False
  moreover have "\<not> image_fits limit (im_offset img) c"
    using False long_size_of [of c] by (auto simp: image_fits_def)
  ultimately show ?thesis using assms(2) by (auto simp: image_ok_def)
qed

lemma validate_loop_iff:
  assumes "fat_sizes files" and "stats_work ew"
  shows "fst (validate_loop ew files limit ranges imgs s) = ESP_OK \<longleftrightarrow>
     (\<forall>img \<in> set imgs. image_ok files limit img \<and> \<not> list_ex (overlaps (range_of files img)) ranges) \<and>
     sorted_wrt (\<lambda>a b. \<not> overlaps (range_of files b) (range_of files a)) imgs"
proof (induction imgs arbitrary: ranges s)
  case (Cons img imgs)
  let ?s = "s\<lparr>eb_log := eb_log s @ [File_stat (im_path img)]\<rparr>"
  have st: "gcall ew (File_stat (im_path img)) s = (ESP_OK, ?s)"
    using assms(2) by (simp add: gcall_def lcall_eq stats_work_def)
  show ?case
  proof (cases "files (im_path img)")
    case None
    then show ?thesis by (simp add: st image_ok_def)
  next
    case (Some c)
    let ?r = "range_of files img"
    have rng: "?r = sector_range (im_offset img) (padded_len (of_int (long_size c)))"
      using Some by (simp add: range_of_def long_size_def)
    note step = image_step [OF assms(1) Some, of limit]
    have "fst (validate_loop ew files limit ranges (img # imgs) s) = ESP_OK \<longleftrightarrow>
        image_ok files limit img \<and> \<not> list_ex (overlaps ?r) ranges \<and>
        fst (validate_loop ew files limit (ranges @ [?r]) imgs ?s) = ESP_OK"
      unfolding step [symmetric] by (simp add: st Some rng Let_def)
    also have "fst (validate_loop ew files limit (ranges @ [?r]) imgs ?s) = ESP_OK \<longleftrightarrow>
        (\<forall>i \<in> set imgs. image_ok files limit i \<and> \<not> list_ex (overlaps (range_of files i)) (ranges @ [?r])) \<and>
        sorted_wrt (\<lambda>a b. \<not> overlaps (range_of files b) (range_of files a)) imgs"
      by (rule Cons.IH)
    finally show ?thesis by auto
  qed
qed simp

lemma overlaps_apart:
  assumes "image_ok files limit a" "image_ok files limit b" and lim: "unat limit \<le> 4294963200"
  shows "\<not> overlaps (range_of files b) (range_of files a) \<longleftrightarrow> sectors_apart files a b"
proof -
  obtain ca cb where c: "files (im_path a) = Some ca" "image_fits limit (im_offset a) ca"
      "files (im_path b) = Some cb" "image_fits limit (im_offset b) cb"
    using assms(1,2) by (auto simp: image_ok_def)
  show ?thesis
    using sector_range_unat [OF c(2) lim] sector_range_unat [OF c(4) lim] c(1,3)
    by (auto simp: overlaps_def sectors_apart_def range_of_def image_end_def image_bytes_def word_less_nat_alt not_less)
qed

section \<open>All images in the flash\<close>

definition ok_resp :: esp_resp where
  "ok_resp = \<lparr>er_esp = ESP_OK, er_ld = ESP_LOADER_SUCCESS, er_val = 0, er_chip = ESP32_CHIP, er_data = []\<rparr>"

lemma validate_loop_any:
  "fst (validate_loop ew files limit ranges imgs s) = ESP_OK \<Longrightarrow>
     fst (validate_loop (\<lambda>_. ok_resp) files limit ranges imgs s') = ESP_OK"
proof (induction imgs arbitrary: ranges s s')
  case (Cons img imgs)
  then show ?case
    by (cases "files (im_path img)")
      (auto simp: gcall_def lcall_eq ok_resp_def Let_def split: if_splits)
qed simp

definition layout_ok :: "fs \<Rightarrow> u32 \<Rightarrow> esp32_image list \<Rightarrow> bool" where
  "layout_ok files limit imgs \<longleftrightarrow>
     (\<forall>img \<in> set imgs. image_ok files limit img) \<and>
     sorted_wrt (\<lambda>a b. \<not> overlaps (range_of files b) (range_of files a)) imgs"

lemma validate_sound:
  assumes "fat_sizes files" and "fst (validate_images ew cfg files limit s) = ESP_OK"
  shows "layout_ok files limit (used_images cfg)"
proof -
  have "stats_work (\<lambda>_. ok_resp)" by (simp add: stats_work_def ok_resp_def)
  from validate_loop_iff [OF assms(1) this] validate_loop_any [OF assms(2) [unfolded validate_images_def]]
  show ?thesis by (auto simp: layout_ok_def)
qed

text \<open>Programming images one after another: each one stays where it is when no later one erases a sector of it.\<close>

definition store_images :: "fs \<Rightarrow> esp32_image list \<Rightarrow> (u32 \<Rightarrow> u8) \<Rightarrow> u32 \<Rightarrow> u8" where
  "store_images files imgs m =
     fold (\<lambda>img m. store_bytes (erase_sectors m (im_offset img) (length (image_bytes files img)))
       (im_offset img) (image_bytes files img)) imgs m"

lemma image_end_le: "image_ok files limit img \<Longrightarrow> image_end files img \<le> unat limit"
  by (auto simp: image_ok_def image_end_def image_bytes_def image_fits_def)

lemma apart_disjoint:
  assumes "image_ok files limit a" "image_ok files limit b" "unat limit \<le> 4294963200"
    and "\<not> overlaps (range_of files b) (range_of files a)"
    and "in_reg x (im_offset a) (length (image_bytes files a))"
  shows "\<not> in_sectors (im_offset b) (length (image_bytes files b)) x"
proof -
  have "sectors_apart files a b" using overlaps_apart [OF assms(1-3)] assms(4) by blast
  moreover have "unat (im_offset a) + length (image_bytes files a) \<le> 4294967296"
    using image_end_le [OF assms(1)] assms(3) by (simp add: image_end_def)
  note in_reg_bounds [OF assms(5) this]
  ultimately show ?thesis unfolding sectors_apart_def in_sectors_def image_end_def by linarith
qed

definition outside :: "fs \<Rightarrow> esp32_image \<Rightarrow> u32 \<Rightarrow> bool" where
  "outside files img x \<longleftrightarrow> \<not> in_sectors (im_offset img) (length (image_bytes files img)) x \<and>
     unat (im_offset img) + length (image_bytes files img) \<le> 4294967296"

lemma store_images_frame: "\<forall>img \<in> set imgs. outside files img x \<Longrightarrow> store_images files imgs m x = m x"
proof (induction imgs arbitrary: m)
  case (Cons i imgs)
  then have "outside files i x" by simp
  then have "\<not> in_reg x (im_offset i) (length (image_bytes files i))" "\<not> in_sectors (im_offset i) (length (image_bytes files i)) x"
    using in_reg_sectors by (auto simp: outside_def)
  with Cons show ?case by (simp add: store_images_def store_bytes_other erase_sectors_def)
qed (simp add: store_images_def)

lemma store_images_keeps:
  assumes "layout_ok files limit imgs" and "unat limit \<le> 4294963200" and "img \<in> set imgs"
  shows "mem_bytes (store_images files imgs m) (im_offset img) (length (image_bytes files img)) = image_bytes files img"
  using assms(1,3)
proof (induction imgs arbitrary: m)
  case (Cons i imgs)
  let ?n = "length (image_bytes files i)"
  let ?m = "store_bytes (erase_sectors m (im_offset i) ?n) (im_offset i) (image_bytes files i)"
  have st: "store_images files (i # imgs) m = store_images files imgs ?m" by (simp add: store_images_def)
  have rest: "layout_ok files limit imgs" using Cons.prems(1) by (simp add: layout_ok_def)
  show ?case
  proof (cases "img \<in> set imgs")
    case True
    with Cons.IH [OF rest, of ?m] st show ?thesis by simp
  next
    case False
    with Cons.prems(2) have i: "img = i" by simp
    have ok: "image_ok files limit i" using Cons.prems(1) by (simp add: layout_ok_def)
    have fits: "unat (im_offset j) + length (image_bytes files j) \<le> 4294967296" if "image_ok files limit j" for j
      using image_end_le [OF that] assms(2) by (simp add: image_end_def)
    have out: "outside files j x" if "j \<in> set imgs" "in_reg x (im_offset i) ?n" for j x
    proof -
      have "image_ok files limit j" "\<not> overlaps (range_of files j) (range_of files i)"
        using that(1) Cons.prems(1) by (auto simp: layout_ok_def)
      with apart_disjoint [OF ok _ assms(2) _ that(2)] fits show ?thesis by (simp add: outside_def)
    qed
    have len: "?n \<le> 4294967296" using fits [OF ok] by simp
    have "mem_bytes (store_images files imgs ?m) (im_offset i) ?n = mem_bytes ?m (im_offset i) ?n"
      by (rule mem_bytes_cong [OF len], rule store_images_frame) (use out in blast)
    also have "\<dots> = image_bytes files i" by (rule mem_bytes_store [OF len])
    finally show ?thesis by (simp add: i st)
  qed
qed simp

lemma program_images_writes:
  assumes "program_images ew files imgs n s = (Inr n', s')" and "fat_sizes files"
  shows "\<exists>calls. s' = s\<lparr>eb_log := eb_log s @ calls\<rparr> \<and>
     (\<forall>d. lf_mem (run_flash calls d) = store_images files imgs (lf_mem d))"
  using assms(1)
proof (induction imgs arbitrary: n s)
  case Nil
  then show ?case by (auto simp: store_images_def intro: exI [of _ "[]"])
next
  case (Cons i imgs)
  obtain r one s1 where p: "program_one_image ew files (im_path i) (im_offset i) 0 s = (r, one, s1)"
    by (metis surj_pair)
  with Cons.prems have r: "r = ESP_OK" and rec: "program_images ew files imgs (n + one) s1 = (Inr n', s')"
    by (auto split: if_splits)
  from program_one_image_writes [OF p [unfolded r] assms(2)] obtain c calls where
      c: "files (im_path i) = Some c" "s1 = s\<lparr>eb_log := eb_log s @ calls\<rparr>"
        "\<And>d. lf_mem (run_flash calls d) =
           store_bytes (erase_sectors (lf_mem d) (im_offset i) (length (padded c))) (im_offset i) (padded c)" by blast
  from Cons.IH [OF rec] obtain calls' where
      c': "s' = s1\<lparr>eb_log := eb_log s1 @ calls'\<rparr>"
        "\<And>d. lf_mem (run_flash calls' d) = store_images files imgs (lf_mem d)" by blast
  show ?case
    by (rule exI [of _ "calls @ calls'"]) (use c c' in \<open>simp add: store_images_def image_bytes_def\<close>)
qed

end
