(* ===== verification/Esp32_Correct.thy ===== *)
theory Esp32_Correct
  imports Esp32_Layout
begin

unbundle bit_operations_syntax

text \<open>
  Properties of the serial backend: the images it accepts lie in the flash and share no sector, the
  padding never leaves the block buffer, a successful program leaves every image in the flash, a
  successful verify has seen every image there, and the loader library is used only inside a session
  that is closed on every path.
\<close>

section \<open>Validation\<close>


section \<open>Loader sessions\<close>

text \<open>
  Over the history, newest call first: the loader is open after an \<open>esp_loader_init_serial\<close> that
  succeeded and until \<open>esp_loader_deinit\<close>; every other loader call needs it open, and it is never opened
  twice.
\<close>

fun loader_open :: "ew \<Rightarrow> esp_call list \<Rightarrow> bool" where
  "loader_open ew [] = False"
| "loader_open ew (c # cs) =
     (if c = Loader_init then er_ld (ew (rev (c # cs))) = ESP_LOADER_SUCCESS
      else c \<noteq> Loader_deinit \<and> loader_open ew cs)"

fun needs_loader :: "esp_call \<Rightarrow> bool" where
  "needs_loader (Gpio_reset_pin p) = False"
| "needs_loader (Gpio_pullup p) = False"
| "needs_loader (Gpio_set_level p l) = False"
| "needs_loader (Gpio_output p) = False"
| "needs_loader Reset_hold = False"
| "needs_loader Boot_hold = False"
| "needs_loader (File_stat p) = False"
| "needs_loader (File_open p) = False"
| "needs_loader (File_read n) = False"
| "needs_loader Loader_init = False"
| "needs_loader c = True"

fun used_well :: "ew \<Rightarrow> esp_call list \<Rightarrow> bool" where
  "used_well ew [] = True"
| "used_well ew (c # cs) =
     (used_well ew cs \<and> (needs_loader c \<longrightarrow> loader_open ew cs) \<and> (c = Loader_init \<longrightarrow> \<not> loader_open ew cs))"

definition session :: "ew \<Rightarrow> bool \<Rightarrow> esp32 \<Rightarrow> bool" where
  "session ew is_open s \<longleftrightarrow> used_well ew (rev (eb_log s)) \<and> loader_open ew (rev (eb_log s)) = is_open"

text \<open>Between two operations the loader is open exactly when the backend says it is connected.\<close>

definition session_inv :: "ew \<Rightarrow> esp32 \<Rightarrow> bool" where
  "session_inv ew s \<longleftrightarrow> session ew (eb_connected s) s"

named_theorems session_rules \<open>calls inside a loader session\<close>

lemma session_quiet [session_rules]:
  "session ew b s \<Longrightarrow> \<not> needs_loader c \<Longrightarrow> c \<noteq> Loader_init \<Longrightarrow> session ew b (s\<lparr>eb_log := eb_log s @ [c]\<rparr>)"
  by (cases c) (simp_all add: session_def)

lemma session_use [session_rules]:
  "session ew True s \<Longrightarrow> needs_loader c \<Longrightarrow> c \<noteq> Loader_deinit \<Longrightarrow> session ew True (s\<lparr>eb_log := eb_log s @ [c]\<rparr>)"
  by (cases c) (simp_all add: session_def)

lemma session_deinit [session_rules]:
  "session ew True s \<Longrightarrow> session ew False (s\<lparr>eb_log := eb_log s @ [Loader_deinit]\<rparr>)"
  by (simp add: session_def)

lemma session_init [session_rules]:
  "session ew False s \<Longrightarrow>
     session ew (er_ld (ew (eb_log s @ [Loader_init])) = ESP_LOADER_SUCCESS) (s\<lparr>eb_log := eb_log s @ [Loader_init]\<rparr>)"
  by (simp add: session_def)

lemma session_fields [simp]:
  "session ew b (s\<lparr>eb_connected := x\<rparr>) = session ew b s"
  "session ew b (s\<lparr>eb_flash_limit := w\<rparr>) = session ew b s"
  "session ew b (s\<lparr>eb_target_flash_size := w\<rparr>) = session ew b s"
  "session ew b (s\<lparr>eb_fault := x\<rparr>) = session ew b s"
  by (simp_all add: session_def)

lemma lnote_eq: "lnote ew c s = s\<lparr>eb_log := eb_log s @ [c]\<rparr>"
  by (simp add: lnote_def lcall_eq)

lemma gcall_eq: "gcall ew c s = (er_esp (ew (eb_log s @ [c])), s\<lparr>eb_log := eb_log s @ [c]\<rparr>)"
  by (simp add: gcall_def lcall_eq)

text \<open>What an operation keeps of the fields that hold the connection.\<close>

definition same_link :: "esp32 \<Rightarrow> esp32 \<Rightarrow> bool" where
  "same_link s s' \<longleftrightarrow> eb_connected s' = eb_connected s \<and> eb_flash_limit s' = eb_flash_limit s \<and> eb_fault s' = eb_fault s"

lemma validate_session:
  "session ew b s \<Longrightarrow> session ew b (snd (validate_loop ew files limit ranges imgs s))"
  "same_link s (snd (validate_loop ew files limit ranges imgs s))"
proof -
  show "session ew b s \<Longrightarrow> session ew b (snd (validate_loop ew files limit ranges imgs s))"
  proof (induction imgs arbitrary: ranges s)
    case (Cons img imgs)
    then have "session ew b (s\<lparr>eb_log := eb_log s @ [File_stat (im_path img)]\<rparr>)" by (intro session_rules) simp_all
    with Cons.IH show ?case by (simp add: gcall_eq Let_def split: option.split)
  qed simp
  show "same_link s (snd (validate_loop ew files limit ranges imgs s))"
  proof (induction imgs arbitrary: ranges s)
    case (Cons img imgs)
    from Cons.IH [where s = "s\<lparr>eb_log := eb_log s @ [File_stat (im_path img)]\<rparr>"] show ?case
      by (simp add: gcall_eq Let_def same_link_def split: option.split)
  qed (simp add: same_link_def)
qed

text \<open>Inside \<open>connect_locked\<close>: open but not yet connected; at its end: open exactly when connected.\<close>

definition connecting :: "ew \<Rightarrow> esp32 \<Rightarrow> bool" where
  "connecting ew s \<longleftrightarrow> session ew True s \<and> \<not> eb_connected s \<and> \<not> eb_fault s"

definition connect_result :: "ew \<Rightarrow> fs \<Rightarrow> esp32_image list \<Rightarrow> esp_err \<times> esp32 \<Rightarrow> bool" where
  "connect_result ew files imgs r \<longleftrightarrow>
     session_inv ew (snd r) \<and> eb_connected (snd r) = (fst r = ESP_OK) \<and> \<not> eb_fault (snd r) \<and>
     (fst r = ESP_OK \<longrightarrow> layout_ok files (eb_flash_limit (snd r)) imgs)"

lemma connecting_call: "connecting ew s \<Longrightarrow> needs_loader c \<Longrightarrow> c \<noteq> Loader_deinit \<Longrightarrow>
    connecting ew (s\<lparr>eb_log := eb_log s @ [c]\<rparr>)"
  by (simp add: connecting_def session_use)

lemma connect_fails:
  "connecting ew s \<Longrightarrow> e \<noteq> ESP_OK \<Longrightarrow> connect_result ew files imgs (fail_deinit ew e s)"
  "connecting ew s \<Longrightarrow> e \<noteq> ESP_OK \<Longrightarrow> connect_result ew files imgs (fail_limit ew e s)"
  by (simp_all add: connecting_def connect_result_def fail_deinit_def fail_limit_def lnote_eq session_inv_def session_deinit)

lemma connecting_loader:
  assumes "connecting ew s" and "needs_loader c" "c \<noteq> Loader_deinit"
    and "\<And>e s. e \<noteq> ESP_LOADER_SUCCESS \<Longrightarrow> connecting ew s \<Longrightarrow> Q (h e s)"
    and "\<And>r s'. connecting ew s' \<Longrightarrow> eb_flash_limit s' = eb_flash_limit s \<Longrightarrow> Q (k r s')"
  shows "Q (on_loader ew c s h k)"
  using assms(4,5) connecting_call [OF assms(1-3)] by (simp add: on_loader_eq)

lemma connect_end:
  assumes "connecting ew s" and "fat_sizes files" and "imgs = used_images cfg"
  shows "connect_result ew files imgs
    (check (validate_images ew cfg files (eb_flash_limit s) s) (fail_limit ew) (\<lambda>s.
       if cfg_baud cfg > 115200
       then on_loader ew (Loader_change_rate (cfg_baud cfg)) s
              (\<lambda>err s. fail_limit ew (loader_err_to_esp err) s) (\<lambda>_ s. (ESP_OK, s\<lparr>eb_connected := True\<rparr>))
       else (ESP_OK, s\<lparr>eb_connected := True\<rparr>)))"
proof -
  obtain r s1 where v: "validate_images ew cfg files (eb_flash_limit s) s = (r, s1)" by fastforce
  have s1: "connecting ew s1" "eb_flash_limit s1 = eb_flash_limit s"
    using validate_session(1) [of ew True s files "eb_flash_limit s" "[]" "used_images cfg"]
      validate_session(2) [of s ew files "eb_flash_limit s" "[]" "used_images cfg"] assms(1) v
    by (auto simp: validate_images_def connecting_def same_link_def)
  show ?thesis
  proof (cases "r = ESP_OK")
    case False
    with v s1 connect_fails show ?thesis by simp
  next
    case True
    with v validate_sound [OF assms(2), of ew cfg "eb_flash_limit s" s] assms(3)
    have lay: "layout_ok files (eb_flash_limit s) imgs" by simp
    have fin: "connect_result ew files imgs (ESP_OK, s2\<lparr>eb_connected := True\<rparr>)"
      if "connecting ew s2" "eb_flash_limit s2 = eb_flash_limit s" for s2
      using that lay by (simp add: connecting_def connect_result_def session_inv_def)
    have "connect_result ew files imgs (on_loader ew (Loader_change_rate (cfg_baud cfg)) s1
        (\<lambda>err s. fail_limit ew (loader_err_to_esp err) s) (\<lambda>_ s. (ESP_OK, s\<lparr>eb_connected := True\<rparr>)))"
      by (rule connecting_loader [OF s1(1)]) (auto intro: connect_fails fin simp: s1(2))
    with True v fin [OF s1] show ?thesis by simp
  qed
qed

lemma connect_limit:
  assumes "connecting ew s"
    and "\<And>s. connecting ew s \<Longrightarrow> connect_result ew files imgs (k s)"
  shows "connect_result ew files imgs (find_flash_limit ew cfg s k)"
proof (cases "cfg_flash_size_kb cfg")
  case None
  have "connecting ew (s\<lparr>eb_flash_limit := x, eb_target_flash_size := y\<rparr>)" if "connecting ew s" for s x y
    using that by (simp add: connecting_def)
  with None show ?thesis
    unfolding find_flash_limit_def
    by simp (rule connecting_loader [OF assms(1)], auto intro: connect_fails assms(2))
next
  case (Some kb)
  have "connecting ew (s\<lparr>eb_log := eb_log s @ [Loader_detect_size], eb_flash_limit := x, eb_target_flash_size := y\<rparr>)" for x y
    using connecting_call [OF assms(1), of Loader_detect_size] by (simp add: connecting_def)
  with Some show ?thesis
    by (auto simp: find_flash_limit_def lcall_eq Let_def intro: assms(2) connect_fails [OF assms(1)])
qed

text \<open>The images are safe to program as long as the backend is connected.\<close>

definition esp_inv :: "ew \<Rightarrow> target_config \<Rightarrow> fs \<Rightarrow> esp32 \<Rightarrow> bool" where
  "esp_inv ew cfg files s \<longleftrightarrow> session_inv ew s \<and> \<not> eb_fault s \<and>
     (eb_connected s \<longrightarrow> layout_ok files (eb_flash_limit s) (used_images cfg))"

lemma connect_locked_result:
  assumes inv: "esp_inv ew cfg files s" and fat: "fat_sizes files"
  shows "connect_result ew files (used_images cfg) (connect_locked ew cfg files s)"
proof (cases "eb_connected s")
  case True
  with inv show ?thesis by (simp add: connect_locked_def connect_result_def esp_inv_def session_inv_def)
next
  case False
  let ?s = "s\<lparr>eb_flash_limit := 0, eb_log := eb_log s @ [Loader_init]\<rparr>"
  have ini: "session ew (er_ld (ew (eb_log s @ [Loader_init])) = ESP_LOADER_SUCCESS) ?s"
    using inv False session_init [of ew "s\<lparr>eb_flash_limit := 0\<rparr>"] by (simp add: esp_inv_def session_inv_def)
  show ?thesis
  proof (cases "er_ld (ew (eb_log s @ [Loader_init])) = ESP_LOADER_SUCCESS")
    case fail: False
    with ini False inv show ?thesis
      by (simp add: connect_locked_def on_loader_eq connect_result_def session_inv_def esp_inv_def)
  next
    case ok: True
    with ini False inv have c: "connecting ew ?s" by (simp add: connecting_def esp_inv_def)
    have "connect_result ew files (used_images cfg)
       (on_loader ew Loader_connect ?s (\<lambda>err s. fail_deinit ew (loader_err_to_esp err) s) (\<lambda>_ s.
        case lcall ew Loader_get_target s of (r, s) \<Rightarrow>
        (case chip_from_name (cfg_chip cfg) of
           None \<Rightarrow> fail_deinit ew ESP_ERR_INVALID_STATE s
         | Some wanted \<Rightarrow>
             if er_chip r \<noteq> wanted then fail_deinit ew ESP_ERR_INVALID_STATE s
             else find_flash_limit ew cfg s (\<lambda>s.
               check (validate_images ew cfg files (eb_flash_limit s) s) (fail_limit ew) (\<lambda>s.
               if cfg_baud cfg > 115200
               then on_loader ew (Loader_change_rate (cfg_baud cfg)) s
                      (\<lambda>err s. fail_limit ew (loader_err_to_esp err) s)
                      (\<lambda>_ s. (ESP_OK, s\<lparr>eb_connected := True\<rparr>))
               else (ESP_OK, s\<lparr>eb_connected := True\<rparr>))))))"
      by (rule connecting_loader [OF c])
        (auto simp: lcall_eq intro!: connect_fails connect_limit connect_end connecting_call fat split: option.split)
    with False ok show ?thesis by (simp add: connect_locked_def on_loader_success)
  qed
qed

section \<open>Operations keep the session\<close>

definition keeps :: "ew \<Rightarrow> esp32 \<Rightarrow> esp32 \<Rightarrow> bool" where
  "keeps ew s s' \<longleftrightarrow> (session ew True s \<longrightarrow> session ew True s') \<and> same_link s s'"

lemma keeps_refl [simp]: "keeps ew s s"
  by (simp add: keeps_def same_link_def)

lemma keeps_trans: "keeps ew s s1 \<Longrightarrow> keeps ew s1 s' \<Longrightarrow> keeps ew s s'"
  by (simp add: keeps_def same_link_def)

lemma keeps_call:
  "c \<noteq> Loader_deinit \<Longrightarrow> c \<noteq> Loader_init \<Longrightarrow> keeps ew s (s\<lparr>eb_log := eb_log s @ [c]\<rparr>)"
  by (cases "needs_loader c") (simp_all add: keeps_def same_link_def session_use session_quiet)

lemma keeps_calls:
  "Loader_deinit \<notin> set cs \<Longrightarrow> Loader_init \<notin> set cs \<Longrightarrow> keeps ew s (s\<lparr>eb_log := eb_log s @ cs\<rparr>)"
proof (induction cs rule: rev_induct)
  case (snoc c cs)
  then have "keeps ew s (s\<lparr>eb_log := eb_log s @ cs\<rparr>)" by simp
  moreover have "keeps ew (s\<lparr>eb_log := eb_log s @ cs\<rparr>) (s\<lparr>eb_log := eb_log s @ cs @ [c]\<rparr>)"
    using keeps_call [of c ew "s\<lparr>eb_log := eb_log s @ cs\<rparr>"] snoc.prems by auto
  ultimately show ?case by (rule keeps_trans)
qed simp

text \<open>The two loops have the same shape: read a chunk, make one loader call with it, go on.\<close>

lemma compare_loop_step:
  assumes "0 < n" and "4 dvd n + pad" and "pad < 4"
  defines "k \<equiv> min n 4096" and "p \<equiv> last_padding n (min n 4096) pad"
  shows "compare_loop ew pad cursor n rest s =
    (case file_read ew k rest s of (block, rest, s) \<Rightarrow>
       if length block \<noteq> k then (ESP_FAIL, s)
       else on_loader ew (Loader_flash_read cursor (k + length p)) s (\<lambda>err s. (loader_err_to_esp err, s))
              (\<lambda>r s. if block @ p \<noteq> buffer_of (k + length p) (er_data r) then (ESP_ERR_INVALID_CRC, s)
                 else compare_loop ew pad (cursor + of_nat (k + length p)) (n - k) rest s))"
  using assms(1) padding_fits [OF assms(2,3)]
  unfolding k_def p_def by (subst compare_loop.simps) (simp add: Let_def case_prod_unfold)

lemma loops_keep:
  assumes "pad < 4"
  shows "n \<noteq> 0 \<longrightarrow> 4 dvd n + pad \<Longrightarrow> keeps ew s (snd (program_loop ew pad n rest s))"
    and "n \<noteq> 0 \<longrightarrow> 4 dvd n + pad \<Longrightarrow> keeps ew s (snd (compare_loop ew pad cursor n rest s))"
proof -
  have read: "\<exists>b r. file_read ew k rest s = (b, r, s\<lparr>eb_log := eb_log s @ [File_read k]\<rparr>)" for k rest s
    by (simp add: file_read_def lcall_eq Let_def)
  have next_n: "n - min n 4096 \<noteq> 0 \<longrightarrow> 4 dvd n - min n 4096 + pad" "n - min n 4096 < n"
    if "n \<noteq> 0" "4 dvd n + pad" for n
    using that remaining_step [OF that(2)] by auto
  show "n \<noteq> 0 \<longrightarrow> 4 dvd n + pad \<Longrightarrow> keeps ew s (snd (program_loop ew pad n rest s))"
  proof (induction n arbitrary: rest s rule: less_induct)
    case (less n)
    show ?case
    proof (cases "n = 0")
      case False
      define k where "k = min n 4096"
      obtain b r where rd: "file_read ew k rest s = (b, r, s\<lparr>eb_log := eb_log s @ [File_read k]\<rparr>)" using read by blast
      let ?b = "b @ last_padding n k pad"
      have k1: "keeps ew s (s\<lparr>eb_log := eb_log s @ [File_read k]\<rparr>)"
          "keeps ew s (s\<lparr>eb_log := eb_log s @ [File_read k, Loader_flash_write ?b]\<rparr>)"
        using keeps_calls [of "[File_read k]"] keeps_calls [of "[File_read k, Loader_flash_write ?b]"] by simp_all
      have rec: "keeps ew s' (snd (program_loop ew pad (n - k) r s'))" for s'
        using less.IH [of "n - k" s' r] next_n [OF False] less.prems False by (simp add: k_def)
      show ?thesis
        using False less.prems rd k1 keeps_trans [OF k1(2) rec]
        by (simp add: program_loop_step [OF _ _ assms] on_loader_eq k_def [symmetric])
    qed (simp add: program_loop.simps)
  qed
  show "n \<noteq> 0 \<longrightarrow> 4 dvd n + pad \<Longrightarrow> keeps ew s (snd (compare_loop ew pad cursor n rest s))"
  proof (induction n arbitrary: cursor rest s rule: less_induct)
    case (less n)
    show ?case
    proof (cases "n = 0")
      case False
      define k where "k = min n 4096"
      obtain b r where rd: "file_read ew k rest s = (b, r, s\<lparr>eb_log := eb_log s @ [File_read k]\<rparr>)" using read by blast
      let ?c = "Loader_flash_read cursor (k + length (last_padding n k pad))"
      have k1: "keeps ew s (s\<lparr>eb_log := eb_log s @ [File_read k]\<rparr>)"
          "keeps ew s (s\<lparr>eb_log := eb_log s @ [File_read k, ?c]\<rparr>)"
        using keeps_calls [of "[File_read k]"] keeps_calls [of "[File_read k, ?c]"] by simp_all
      have rec: "keeps ew s' (snd (compare_loop ew pad cursor' (n - k) r s'))" for s' cursor'
        using less.IH [of "n - k" s' cursor' r] next_n [OF False] less.prems False by (simp add: k_def)
      show ?thesis
        using False less.prems rd k1 keeps_trans [OF k1(2) rec]
        by (simp add: compare_loop_step [OF _ _ assms] on_loader_eq k_def [symmetric])
    qed (simp add: compare_loop.simps)
  qed
qed

lemma image_checked_keeps:
  assumes fat: "fat_sizes files" and st: "\<And>e s. st (e, ret s) = s"
    and k: "\<And>c s. length c < 2147483648 \<Longrightarrow> keeps ew s (st (k c (of_nat (length c)) s))"
  shows "keeps ew s (st (image_checked ew files p offset s k ret))"
proof -
  let ?s = "s\<lparr>eb_log := eb_log s @ [File_open p]\<rparr>"
  have k1: "keeps ew s ?s" by (rule keeps_call) simp_all
  have "keeps ew s (st (k c (of_int (long_size c)) ?s))" if "files p = Some c" "\<not> long_size c < 0" "long_size c \<noteq> 0" for c
  proof -
    have "length c < 4294967296" using fat that(1) by (simp add: fat_sizes_def)
    moreover have "0 < long_size c" using that(2,3) by simp
    ultimately show ?thesis using long_size_pos [of c] k [of c ?s] keeps_trans [OF k1] by simp
  qed
  with k1 st show ?thesis by (simp add: image_checked_def gcall_eq Let_def split: option.split)
qed

lemma one_image_keeps:
  assumes "fat_sizes files"
  shows "keeps ew s (snd (snd (program_one_image ew files p offset w s)))"
    "keeps ew s (snd (verify_one_image ew files p offset s))"
proof -
  have pad: "length (padding_of (length c)) < 4" "4 dvd length c + length (padding_of (length c))"
    if "length c < 2147483648" for c :: bytes
    using padded_lens(4-6) [OF that] by simp_all
  have "keeps ew s (snd (snd (on_loader ew (Loader_flash_start offset (padded_len (of_nat (length c))) BLOCK_SIZE) s
         (\<lambda>err s. (loader_err_to_esp err, w, s))
         (\<lambda>_ s. check (program_loop ew (unat (padded_len (of_nat (length c)) - of_nat (length c))) (unat (of_nat (length c) :: u32)) c s)
            (\<lambda>e s. (e, w, s))
            (\<lambda>s. on_loader ew Loader_flash_finish s (\<lambda>err s. (loader_err_to_esp err, w, s))
               (\<lambda>_ s. (ESP_OK, of_nat (length c), s)))))))"
    if c: "length c < 2147483648" for c s
  proof -
    let ?pad = "length (padding_of (length c))"
    let ?s = "s\<lparr>eb_log := eb_log s @ [Loader_flash_start offset (padded_len (of_nat (length c))) BLOCK_SIZE]\<rparr>"
    obtain r s1 where lp: "program_loop ew ?pad (length c) c ?s = (r, s1)" by fastforce
    have "keeps ew s ?s" by (rule keeps_call) simp_all
    moreover have "keeps ew ?s s1" using loops_keep(1) [OF pad(1) [OF c], of "length c" ew ?s c] pad(2) [OF c] lp by simp
    ultimately have "keeps ew s s1" "keeps ew s (s1\<lparr>eb_log := eb_log s1 @ [Loader_flash_finish]\<rparr>)"
      using keeps_trans keeps_call [of Loader_flash_finish ew s1] by blast+
    with \<open>keeps ew s ?s\<close> show ?thesis
      using padded_lens(1,3) [OF c] lp by (simp add: on_loader_eq check_def)
  qed
  note body = this
  show "keeps ew s (snd (snd (program_one_image ew files p offset w s)))"
    unfolding program_one_image_def Let_def
    by (rule image_checked_keeps [OF assms, where st = "\<lambda>r. snd (snd r)"]) (simp, rule body)
  have cmp: "keeps ew s (snd (compare_loop ew (unat (padded_len (of_nat (length c)) - of_nat (length c))) offset
      (unat (of_nat (length c) :: u32)) c s))" if c: "length c < 2147483648" for c s
    using loops_keep(2) [OF pad(1) [OF c]] pad(2) [OF c] padded_lens(1,3) [OF c] by simp
  show "keeps ew s (snd (verify_one_image ew files p offset s))"
    unfolding verify_one_image_def Let_def
    by (rule image_checked_keeps [OF assms, where st = snd]) (simp, rule cmp)
qed

lemma images_keep:
  assumes "fat_sizes files"
  shows "keeps ew s (snd (program_images ew files imgs n s))" "keeps ew s (snd (verify_images_loop ew files imgs s))"
proof -
  show "keeps ew s (snd (program_images ew files imgs n s))"
  proof (induction imgs arbitrary: n s)
    case (Cons i imgs)
    have k: "keeps ew s (snd (snd (program_one_image ew files (im_path i) (im_offset i) 0 s)))"
      by (rule one_image_keeps [OF assms])
    from keeps_trans [OF k Cons.IH] k show ?case by (simp add: case_prod_unfold)
  qed simp
  show "keeps ew s (snd (verify_images_loop ew files imgs s))"
  proof (induction imgs arbitrary: s)
    case (Cons i imgs)
    have k: "keeps ew s (snd (verify_one_image ew files (im_path i) (im_offset i) s))"
      by (rule one_image_keeps [OF assms])
    from keeps_trans [OF k Cons.IH] k show ?case by (simp add: check_def)
  qed simp
qed

lemma keeps_inv: "keeps ew s s' \<Longrightarrow> eb_connected s \<Longrightarrow> esp_inv ew cfg files s \<Longrightarrow> esp_inv ew cfg files s'"
  by (simp add: keeps_def esp_inv_def session_inv_def same_link_def)

lemma connect_inv:
  assumes "esp_inv ew cfg files s" and "fat_sizes files" and "connect_locked ew cfg files s = (r, s')"
  shows "esp_inv ew cfg files s'" "eb_connected s' \<longleftrightarrow> r = ESP_OK"
  using connect_locked_result [OF assms(1,2)] assms(3) by (auto simp: connect_result_def esp_inv_def)

definition gpio_keeps :: "ew \<Rightarrow> esp32 \<Rightarrow> esp32 \<Rightarrow> bool" where
  "gpio_keeps ew s s' \<longleftrightarrow> (\<forall>b. session ew b s \<longrightarrow> session ew b s') \<and> same_link s s'"

lemma gpio_keeps_inv: "gpio_keeps ew s s' \<Longrightarrow> esp_inv ew cfg files s \<Longrightarrow> esp_inv ew cfg files s'"
  by (simp add: gpio_keeps_def esp_inv_def session_inv_def same_link_def)

lemma prepare_pin_keeps: "gpio_keeps ew s (snd (prepare_pin ew pin level s))"
  by (auto simp: gpio_keeps_def prepare_pin_def and_then_def check_def gcall_eq same_link_def session_def)

lemma gpio_keeps_trans: "gpio_keeps ew s s1 \<Longrightarrow> gpio_keeps ew s1 s' \<Longrightarrow> gpio_keeps ew s s'"
  by (simp add: gpio_keeps_def same_link_def)

lemma prepare_pins_keep: "gpio_keeps ew s (snd (prepare_control_pins ew boot cfg s))"
  using prepare_pin_keeps gpio_keeps_trans [OF prepare_pin_keeps prepare_pin_keeps]
  by (simp add: prepare_control_pins_def check_def)

lemma pulse_reset_keeps: "gpio_keeps ew s (snd (pulse_reset ew cfg s))"
  by (auto simp: gpio_keeps_def pulse_reset_def check_def gcall_eq lnote_eq same_link_def session_def)

section \<open>Sequences of operations\<close>

datatype esp_op = Begin_session | Detect | Program u32 | Verify u32 | Release | Reset
  | Read_mem u32 u32 | Write_mem u32 u32

fun run_op :: "ew \<Rightarrow> bool \<Rightarrow> target_config \<Rightarrow> fs \<Rightarrow> esp_op \<Rightarrow> esp32 \<Rightarrow> esp32" where
  "run_op ew boot cfg files Begin_session s = snd (be_begin_session (esp32_serial_backend ew boot cfg files) s)"
| "run_op ew boot cfg files Detect s = snd (be_detect (esp32_serial_backend ew boot cfg files) s)"
| "run_op ew boot cfg files (Program n) s = snd (snd (be_program (esp32_serial_backend ew boot cfg files) n s))"
| "run_op ew boot cfg files (Verify n) s = snd (be_verify (esp32_serial_backend ew boot cfg files) n s)"
| "run_op ew boot cfg files Release s = snd (be_release_transport (esp32_serial_backend ew boot cfg files) s)"
| "run_op ew boot cfg files Reset s = snd (be_reset_target (esp32_serial_backend ew boot cfg files) s)"
| "run_op ew boot cfg files (Read_mem a v) s = snd (snd (be_read_mem32 (esp32_serial_backend ew boot cfg files) a v s))"
| "run_op ew boot cfg files (Write_mem a v) s = snd (be_write_mem32 (esp32_serial_backend ew boot cfg files) a v s)"

lemma esp_program_inv:
  assumes "esp_inv ew cfg files s" and "fat_sizes files"
  shows "esp_inv ew cfg files (snd (snd (esp_program ew cfg files n s)))"
proof -
  obtain r s1 where c: "connect_locked ew cfg files s = (r, s1)" by fastforce
  note ci = connect_inv [OF assms c]
  have "esp_inv ew cfg files (snd (program_images ew files (used_images cfg) 0 s1))" if "r = ESP_OK"
    using keeps_inv [OF images_keep(1) [OF assms(2)]] ci that by blast
  with ci(1) c show ?thesis
    by (auto simp: esp_program_def check_def split: prod.splits sum.splits)
qed

lemma esp_verify_inv:
  assumes "esp_inv ew cfg files s" and "fat_sizes files"
  shows "esp_inv ew cfg files (snd (esp_verify ew cfg files n s))"
proof -
  obtain r s1 where c: "connect_locked ew cfg files s = (r, s1)" by fastforce
  note ci = connect_inv [OF assms c]
  have "esp_inv ew cfg files (snd (verify_images_loop ew files (used_images cfg) s1))" if "r = ESP_OK"
    using keeps_inv [OF images_keep(2) [OF assms(2)]] ci that by blast
  with ci(1) c show ?thesis by (simp add: esp_verify_def check_def)
qed

lemma esp_release_inv: "esp_inv ew cfg files s \<Longrightarrow> esp_inv ew cfg files (snd (esp_release_transport ew s))"
  by (auto simp: esp_release_transport_def esp_inv_def session_inv_def lnote_eq Let_def session_def)

lemma esp_call_inv:
  "esp_inv ew cfg files s \<Longrightarrow> eb_connected s \<Longrightarrow> c \<noteq> Loader_deinit \<Longrightarrow> c \<noteq> Loader_init \<Longrightarrow>
     esp_inv ew cfg files (s\<lparr>eb_log := eb_log s @ [c]\<rparr>)"
  by (rule keeps_inv [OF keeps_call])

lemma esp_reset_inv: "esp_inv ew cfg files s \<Longrightarrow> esp_inv ew cfg files (snd (esp_reset_target ew boot cfg' s))"
proof (cases "eb_connected s")
  case True
  moreover assume "esp_inv ew cfg files s"
  ultimately show ?thesis by (simp add: esp_reset_target_def lnote_eq esp_call_inv)
next
  case False
  moreover assume "esp_inv ew cfg files s"
  ultimately show ?thesis
    using gpio_keeps_inv [OF prepare_pins_keep] gpio_keeps_inv [OF gpio_keeps_trans [OF prepare_pins_keep pulse_reset_keeps]]
    by (simp add: esp_reset_target_def check_def)
qed

lemma run_op_inv:
  assumes "esp_inv ew cfg files s" and "fat_sizes files"
  shows "esp_inv ew cfg files (run_op ew boot cfg files op s)"
proof (cases op)
  case Begin_session
  with assms show ?thesis using gpio_keeps_inv [OF prepare_pins_keep] by (simp add: esp32_serial_backend_def)
next
  case Detect
  with assms connect_inv(1) [OF assms] show ?thesis by (simp add: esp32_serial_backend_def) (metis prod.collapse)
qed (use assms in \<open>simp_all add: esp32_serial_backend_def esp_program_inv esp_verify_inv esp_release_inv esp_reset_inv
    esp_read_mem32_def esp_write_mem32_def lcall_eq esp_call_inv\<close>)

lemma run_ops_inv:
  assumes "fat_sizes files" and "esp_inv ew cfg files s"
  shows "esp_inv ew cfg files (fold (run_op ew boot cfg files) ops s)"
  using assms(2) by (induction ops arbitrary: s) (simp_all add: run_op_inv assms(1))

lemma boot_esp_inv: "esp_inv ew cfg files boot_esp32"
  by (simp add: esp_inv_def session_inv_def session_def boot_esp32_def)

text \<open>
  C25: whatever sequence of backend operations runs after boot and whatever the loader library, the
  pins and the file system answer: every loader call is made inside an open session and no session
  is opened twice; the session is open exactly while the backend says it is connected, so every
  failed connect closes what it opened; while connected, the images fit the accessible flash; and
  the padding never overruns the 4096-byte block buffer.
\<close>

theorem esp_sessions_safe:
  assumes "fat_sizes files" and "s = fold (run_op ew boot cfg files) ops boot_esp32"
  shows "used_well ew (rev (eb_log s)) \<and> (loader_open ew (rev (eb_log s)) \<longleftrightarrow> eb_connected s) \<and>
     (eb_connected s \<longrightarrow> (\<forall>img \<in> set (used_images cfg). image_ok files (eb_flash_limit s) img)) \<and>
     \<not> eb_fault s"
  using run_ops_inv [OF assms(1) boot_esp_inv, of ew cfg boot ops]
  by (auto simp: esp_inv_def session_inv_def session_def layout_ok_def assms(2))

section \<open>The transport\<close>

definition esp_idle :: "esp32 \<Rightarrow> bool" where
  "esp_idle s \<longleftrightarrow> \<not> eb_connected s \<and> eb_flash_limit s = 0"

interpretation esp_transport: transport "esp_release_transport ew" "\<lambda>s. s" esp_idle
  by unfold_locales (simp_all add: esp_release_transport_def esp_idle_def Let_def)

section \<open>Programming and verifying all images\<close>

definition lext :: "esp32 \<Rightarrow> esp32 \<Rightarrow> bool" where
  "lext s0 s \<longleftrightarrow> (\<exists>l. eb_log s = eb_log s0 @ l)"

lemma lext_simps [simp]:
  "lext s s" "lext s0 (s\<lparr>eb_connected := b\<rparr>) = lext s0 s" "lext s0 (s\<lparr>eb_flash_limit := w\<rparr>) = lext s0 s"
  "lext s0 (s\<lparr>eb_target_flash_size := w\<rparr>) = lext s0 s"
  by (simp_all add: lext_def)

lemma lext_call: "lext s0 s \<Longrightarrow> lext s0 (s\<lparr>eb_log := eb_log s @ [c]\<rparr>)"
  by (auto simp: lext_def)

lemma lext_loader:
  assumes "lext s0 s" and "\<And>e s. lext s0 s \<Longrightarrow> lext s0 (snd (h e s))" and "\<And>r s. lext s0 s \<Longrightarrow> lext s0 (snd (k r s))"
  shows "lext s0 (snd (on_loader ew c s h k))"
  using assms lext_call [OF assms(1), of c] by (simp add: on_loader_eq)

lemma lext_fail: "lext s0 s \<Longrightarrow> lext s0 (snd (fail_deinit ew e s))" "lext s0 s \<Longrightarrow> lext s0 (snd (fail_limit ew e s))"
  by (simp_all add: fail_deinit_def fail_limit_def lnote_eq lext_call)

lemma lext_validate: "lext s0 s \<Longrightarrow> lext s0 (snd (validate_loop ew files limit ranges imgs s))"
proof (induction imgs arbitrary: ranges s)
  case (Cons img imgs)
  note c = lext_call [OF Cons.prems, of "File_stat (im_path img)"]
  with Cons.IH [OF c] show ?case by (simp add: gcall_eq Let_def split: option.split)
qed simp

lemma lext_limit:
  assumes "lext s0 s" and "\<And>s. lext s0 s \<Longrightarrow> lext s0 (snd (k s))"
  shows "lext s0 (snd (find_flash_limit ew cfg s k))"
proof (cases "cfg_flash_size_kb cfg")
  case None
  then show ?thesis
    unfolding find_flash_limit_def by simp (rule lext_loader [OF assms(1)], auto intro: lext_fail assms(2))
next
  case (Some kb)
  then show ?thesis
    by (auto simp: find_flash_limit_def lcall_eq Let_def intro!: lext_fail assms lext_call)
qed

lemma lext_connect: "lext s (snd (connect_locked ew cfg files s))"
  unfolding connect_locked_def Let_def validate_images_def
  by (auto intro!: lext_loader lext_fail lext_limit lext_call lext_validate
      simp: lcall_eq check_def split: option.split)

lemma program_images_Inl: "program_images ew files imgs n s \<noteq> (Inl ESP_OK, s')"
  by (induction imgs arbitrary: n s) (auto split: prod.split)

text \<open>
  C6: when \<open>program\<close> reports success in a state reached by backend operations, its calls leave every
  configured image at its offset in the flash, padded to a word with \<open>0xFF\<close>, for a flash of at most \<open>2 ^ 32 - 4096\<close>
  bytes. Every \<open>flash_start\<close> erases all sectors it touches and programming can only clear bits, so no image has been
  erased or overwritten by a later one.
\<close>

theorem esp_program_writes_images:
  assumes inv: "esp_inv ew cfg files s" and fat: "fat_sizes files"
    and ok: "esp_program ew cfg files w s = (ESP_OK, n, s')"
    and lim: "unat (eb_flash_limit s') \<le> 4294963200"
  shows "\<exists>pre calls. eb_log s' = eb_log s @ pre @ calls \<and>
     (\<forall>d. \<forall>img \<in> set (used_images cfg). \<exists>c. files (im_path img) = Some c \<and>
        mem_bytes (lf_mem (run_flash calls d)) (im_offset img) (length (padded c)) = padded c)"
proof -
  obtain r s1 where c: "connect_locked ew cfg files s = (r, s1)" by fastforce
  with ok have r: "r = ESP_OK" and p: "program_images ew files (used_images cfg) 0 s1 = (Inr n, s')"
    by (auto simp: esp_program_def check_def program_images_Inl split: if_splits prod.splits sum.splits)
  from connect_inv [OF inv fat c] r have lay: "layout_ok files (eb_flash_limit s1) (used_images cfg)"
    by (simp add: esp_inv_def)
  from program_images_writes [OF p fat] obtain calls where w: "s' = s1\<lparr>eb_log := eb_log s1 @ calls\<rparr>"
      "\<And>d. lf_mem (run_flash calls d) = store_images files (used_images cfg) (lf_mem d)" by blast
  from lext_connect [of s ew cfg files] c obtain pre where "eb_log s1 = eb_log s @ pre" by (auto simp: lext_def)
  with w(1) have log: "eb_log s' = eb_log s @ pre @ calls" by simp
  have "\<exists>c. files (im_path img) = Some c \<and>
      mem_bytes (lf_mem (run_flash calls d)) (im_offset img) (length (padded c)) = padded c"
    if i: "img \<in> set (used_images cfg)" for img d
  proof -
    from lay i obtain c where "files (im_path img) = Some c" by (auto simp: layout_ok_def image_ok_def)
    with store_images_keeps [OF lay _ i] lim w show ?thesis by (auto simp: image_bytes_def)
  qed
  with log show ?thesis by blast
qed

text \<open>Flash reads that succeed after the calls \<open>l0\<close> return the flash's contents \<open>m\<close>.\<close>

definition flash_reads :: "ew \<Rightarrow> esp_call list \<Rightarrow> (u32 \<Rightarrow> u8) \<Rightarrow> bool" where
  "flash_reads ew l0 m \<longleftrightarrow>
     (\<forall>l a n. er_ld (ew (l0 @ l @ [Loader_flash_read a n])) = ESP_LOADER_SUCCESS \<longrightarrow>
        er_data (ew (l0 @ l @ [Loader_flash_read a n])) = mem_bytes m a n)"

lemma flash_reads_mono: "flash_reads ew l m \<Longrightarrow> flash_reads ew (l @ l') m"
  unfolding flash_reads_def by (metis append.assoc)

lemma flash_reads_data:
  assumes "flash_reads ew l m" and "er_ld (ew (l @ [Loader_flash_read a n])) = ESP_LOADER_SUCCESS"
  shows "er_data (ew (l @ [Loader_flash_read a n])) = mem_bytes m a n"
  using assms(1) [unfolded flash_reads_def, rule_format, of "[]" a n] assms(2) by simp

lemma compare_loop_sound:
  assumes "flash_reads ew (eb_log s) m" and "compare_loop ew pad cursor n rest s = (ESP_OK, s')" and "pad < 4"
    and "n \<noteq> 0 \<longrightarrow> 4 dvd n + pad" and "n \<le> length rest"
  shows "mem_bytes m cursor (length (to_send pad n rest)) = to_send pad n rest \<and> lext s s'"
  using assms(1,2,4,5)
proof (induction n arbitrary: cursor rest s rule: less_induct)
  case (less n)
  show ?case
  proof (cases "n = 0")
    case True
    with less.prems(2) show ?thesis by (simp add: to_send_def mem_bytes_def compare_loop.simps)
  next
    case False
    define k where "k = min n 4096"
    define p where "p = last_padding n k pad"
    from False less.prems(3) have four: "4 dvd n + pad" by simp
    note step = compare_loop_step [OF _ four assms(3), of ew cursor rest s, folded k_def, folded p_def]
    obtain block rest1 s1 where rd: "file_read ew k rest s = (block, rest1, s1)" by (metis surj_pair)
    let ?l = "eb_log s1 @ [Loader_flash_read cursor (k + length p)]"
    from less.prems(2) rd False have bl: "length block = k" and eq: "block @ p = buffer_of (k + length p) (er_data (ew ?l))"
        and ok: "er_ld (ew ?l) = ESP_LOADER_SUCCESS"
        and rec: "compare_loop ew pad (cursor + of_nat (k + length p)) (n - k) rest1
          (s1\<lparr>eb_log := ?l\<rparr>) = (ESP_OK, s')"
      by (auto simp: step on_loader_eq split: if_splits)
    from file_read_full [OF rd bl] have f: "block = take k rest" "rest1 = drop k rest"
        "s1 = s\<lparr>eb_log := eb_log s @ [File_read k]\<rparr>" by auto
    have fr: "flash_reads ew (eb_log s1) m" "flash_reads ew ?l m"
      using flash_reads_mono [OF less.prems(1)] f(3) by simp_all
    have data: "block @ p = mem_bytes m cursor (k + length p)"
      using eq flash_reads_data [OF fr(1) ok] by (simp add: buffer_of_exact)
    have "n - k \<noteq> 0 \<longrightarrow> 4 dvd n - k + pad" "n - k < n" "n - k \<le> length rest1"
      using less.prems(4) False remaining_step [OF four] f(2) by (auto simp: k_def min_def)
    from less.IH [OF this(2) _ rec this(1,3)] fr(2) have ih:
      "mem_bytes m (cursor + of_nat (k + length p)) (length (to_send pad (n - k) (drop k rest))) =
         to_send pad (n - k) (drop k rest)" and "lext (s1\<lparr>eb_log := ?l\<rparr>) s'" by (simp_all add: f(2))
    then have ext: "lext s s'" by (auto simp: lext_def f(3))
    have ts: "to_send pad n rest = (block @ p) @ to_send pad (n - k) (drop k rest)"
      using to_send_step [of n rest pad] False less.prems(4) by (simp add: f(1) p_def k_def)
    have "length (block @ p) = k + length p" using bl by simp
    then show ?thesis
      unfolding ts using ih data ext
      by (subst mem_bytes_split [of "k + length p"]) (simp_all del: of_nat_add)
  qed
qed

lemma verify_one_sound:
  assumes "flash_reads ew (eb_log s) m" and "verify_one_image ew files p offset s = (ESP_OK, s')" and "fat_sizes files"
  shows "(\<exists>c. files p = Some c \<and> c \<noteq> [] \<and> mem_bytes m offset (length (padded c)) = padded c) \<and> lext s s'"
proof -
  let ?s = "s\<lparr>eb_log := eb_log s @ [File_open p]\<rparr>"
  from assms(2,3) obtain c where c: "files p = Some c" "image_fits (eb_flash_limit s) offset c"
      and lp: "compare_loop ew (unat (padded_len (of_nat (length c)) - of_nat (length c))) offset
         (unat (of_nat (length c) :: u32)) c ?s = (ESP_OK, s')"
    unfolding verify_one_image_def Let_def by (elim image_checked_OK) auto
  have len: "length c < 2147483648" "0 < length c" using c(2) by (auto simp: image_fits_def)
  note pl = padded_lens [OF len(1)]
  have fr: "flash_reads ew (eb_log ?s) m" using flash_reads_mono [OF assms(1)] by simp
  have "to_send (length (padding_of (length c))) (length c) c = padded c"
    using len(2) by (simp add: to_send_def padded_def padding_of_def)
  with compare_loop_sound [OF fr lp [unfolded pl(1,3)] pl(6)] pl(4,5) c(1) len(2) show ?thesis
    by (auto simp: lext_def)
qed

lemma verify_images_sound:
  assumes "flash_reads ew (eb_log s) m" and "fat_sizes files" and "verify_images_loop ew files imgs s = (ESP_OK, s')"
    and "img \<in> set imgs"
  shows "\<exists>c. files (im_path img) = Some c \<and> c \<noteq> [] \<and> mem_bytes m (im_offset img) (length (padded c)) = padded c"
  using assms(1,3,4)
proof (induction imgs arbitrary: s)
  case (Cons i imgs)
  obtain r s1 where v: "verify_one_image ew files (im_path i) (im_offset i) s = (r, s1)" by fastforce
  with Cons.prems(2) have r: "r = ESP_OK" and rec: "verify_images_loop ew files imgs s1 = (ESP_OK, s')"
    by (auto simp: check_def split: if_splits)
  note one = verify_one_sound [OF Cons.prems(1) v [unfolded r] assms(2)]
  then have "flash_reads ew (eb_log s1) m" using flash_reads_mono [OF Cons.prems(1)] by (auto simp: lext_def)
  from Cons.IH [OF this rec] one Cons.prems(3) show ?case by auto
qed simp

lemma esp_verify_images:
  assumes "flash_reads ew (eb_log s) m" and "fat_sizes files" and "fst (esp_verify ew cfg files w s) = ESP_OK"
    and "img \<in> set (used_images cfg)"
  shows "\<exists>c. files (im_path img) = Some c \<and> c \<noteq> [] \<and> mem_bytes m (im_offset img) (length (padded c)) = padded c"
proof -
  obtain r s1 where c: "connect_locked ew cfg files s = (r, s1)" by fastforce
  with assms(3) have "fst (verify_images_loop ew files (used_images cfg) s1) = ESP_OK"
    by (simp add: esp_verify_def check_def split: if_splits)
  moreover have "flash_reads ew (eb_log s1) m"
    using lext_connect [of s ew cfg files] c flash_reads_mono [OF assms(1)] by (auto simp: lext_def)
  ultimately show ?thesis using verify_images_sound [OF _ assms(2) _ assms(4)] by (metis prod.collapse)
qed

text \<open>
  when the serial backend's \<open>verify\<close> reports success, every configured image is in the target's
  flash at its offset, to the last byte and its padding.
\<close>

theorem esp_verify_sound:
  assumes "flash_reads ew (eb_log s) m" and "fat_sizes files" and "fst (esp_verify ew cfg files w s) = ESP_OK"
    and "img \<in> set (used_images cfg)"
  shows "\<exists>c. files (im_path img) = Some c \<and> c \<noteq> [] \<and>
     mem_bytes m (im_offset img) (length (padded c)) = padded c"
  by (rule esp_verify_images [OF assms])

section \<open>A sample target\<close>

text \<open>A loader where every call works, the chip is an ESP32 with 1 MB of flash that reads as \<open>m\<close>.\<close>

definition sample_ew :: "(u32 \<Rightarrow> u8) \<Rightarrow> ew" where
  "sample_ew m l = ok_resp\<lparr>er_val := 0x100000,
     er_data := (case last l of Loader_flash_read a n \<Rightarrow> mem_bytes m a n | _ \<Rightarrow> [])\<rparr>"

definition sample_esp_cfg :: target_config where
  "sample_esp_cfg = empty_config\<lparr>cfg_family := esp32_serial, cfg_chip := ''esp32'',
     cfg_images := [\<lparr>im_path = ''boot'', im_offset = 0x1000\<rparr>, \<lparr>im_path = ''app'', im_offset = 0x2000\<rparr>],
     cfg_image_count := 2\<rparr>"

definition sample_esp_files :: fs where
  "sample_esp_files = [''boot'' \<mapsto> [1, 2, 3], ''app'' \<mapsto> [4, 5, 6, 7]]"

lemma sample_fat: "fat_sizes sample_esp_files"
  by (auto simp: fat_sizes_def sample_esp_files_def split: if_splits)

lemma sample_ew_simps [simp]:
  "er_esp (sample_ew m l) = ESP_OK" "er_ld (sample_ew m l) = ESP_LOADER_SUCCESS"
  "er_val (sample_ew m l) = 0x100000" "er_chip (sample_ew m l) = ESP32_CHIP"
  by (simp_all add: sample_ew_def ok_resp_def)

lemma sample_reads: "flash_reads (sample_ew m) l m"
  by (simp add: flash_reads_def sample_ew_def)

lemma sample_stats: "stats_work (sample_ew m)"
  by (simp add: stats_work_def)

lemma sample_images: "used_images sample_esp_cfg = [\<lparr>im_path = ''boot'', im_offset = 0x1000\<rparr>, \<lparr>im_path = ''app'', im_offset = 0x2000\<rparr>]"
  by (simp add: used_images_def sample_esp_cfg_def)

lemma sample_valid: "fst (validate_images (sample_ew m) sample_esp_cfg sample_esp_files 0x100000 s) = ESP_OK"
  unfolding validate_images_def sample_images validate_loop_iff [OF sample_fat sample_stats]
  by (simp add: image_ok_def image_fits_def sample_esp_files_def length_padded range_of_def overlaps_def
      sector_range_def padded_len_def FLASH_SECTOR_SIZE_def Let_def)


theorem esp_sessions_safe_witness:
  "used_well (sample_ew (\<lambda>_. 0)) (rev (eb_log (fold (run_op (sample_ew (\<lambda>_. 0)) True sample_esp_cfg sample_esp_files)
     [Begin_session, Detect, Program 0, Verify 7, Release, Reset] boot_esp32)))"
  using esp_sessions_safe [OF sample_fat refl] by blast

text \<open>A state in which an open connection has the limit of the sample target.\<close>

definition sample_linked :: "esp32 \<Rightarrow> bool" where
  "sample_linked s \<longleftrightarrow> (eb_connected s \<longrightarrow> eb_flash_limit s = 0x100000)"

lemma sample_linked_boot: "sample_linked boot_esp32"
  by (simp add: sample_linked_def boot_esp32_def)

lemma sample_connect:
  assumes "sample_linked s"
  shows "\<exists>s1. connect_locked (sample_ew m) sample_esp_cfg sample_esp_files s = (ESP_OK, s1) \<and>
     eb_flash_limit s1 = 0x100000"
proof (cases "eb_connected s")
  case True
  with assms show ?thesis by (simp add: connect_locked_def sample_linked_def)
next
  case False
  let ?s = "s\<lparr>eb_log := eb_log s @ [Loader_init, Loader_connect, Loader_get_target, Loader_detect_size],
     eb_flash_limit := 0x100000, eb_target_flash_size := 0x100000\<rparr>"
  obtain s1 where "validate_images (sample_ew m) sample_esp_cfg sample_esp_files 0x100000 ?s = (ESP_OK, s1)"
    using sample_valid [of m ?s] by (metis prod.collapse)
  moreover from this have "same_link ?s s1"
    using validate_session(2) [of ?s "sample_ew m" sample_esp_files "0x100000" "[]" "used_images sample_esp_cfg"]
    by (simp add: validate_images_def)
  ultimately show ?thesis using False
    by (simp add: connect_locked_def on_loader_eq lcall_eq find_flash_limit_def same_link_def
        sample_esp_cfg_def empty_config_def chip_from_name_def chip_name_map_def)
qed

lemma sample_loop:
  "0 < n \<Longrightarrow> n \<le> 4096 \<Longrightarrow> n \<le> length rest \<Longrightarrow> 4 dvd n + pad \<Longrightarrow> pad < 4 \<Longrightarrow>
     \<exists>s'. program_loop (sample_ew m) pad n rest s = (ESP_OK, s') \<and> eb_flash_limit s' = eb_flash_limit s"
  by (simp add: program_loop_step file_read_def lcall_eq on_loader_eq program_loop.simps [of _ _ 0])

lemma sample_one:
  assumes "sample_esp_files p = Some c" and "image_fits (eb_flash_limit s) offset c" and "offset AND 3 = 0" and "length c \<le> 4096"
  shows "\<exists>one s'. program_one_image (sample_ew m) sample_esp_files p offset 0 s = (ESP_OK, one, s') \<and>
     eb_flash_limit s' = eb_flash_limit s"
proof -
  have len: "length c < 2147483648" "0 < length c" using assms(2) by (auto simp: image_fits_def)
  note pl = padded_lens [OF len(1)]
  have pd: "4 dvd length c + length (padding_of (length c))" using pl(4,5) by simp
  let ?s = "s\<lparr>eb_log := eb_log s @ [File_open p, Loader_flash_start offset (padded_len (of_nat (length c))) BLOCK_SIZE]\<rparr>"
  from sample_loop [OF len(2) assms(4) order_refl pd pl(6), of m ?s] obtain s' where
      "program_loop (sample_ew m) (length (padding_of (length c))) (length c) c ?s = (ESP_OK, s')"
      "eb_flash_limit s' = eb_flash_limit s" by auto
  moreover have "\<not> offset > eb_flash_limit s \<and> \<not> padded_len (of_nat (length c)) > eb_flash_limit s - offset"
    using limit_fits [OF len, where offset = offset and limit = "eb_flash_limit s"] assms(2) by blast
  moreover have "\<not> int (length c) > uint (UINT32_MAX - 3)" using len(1) by (simp add: UINT32_MAX_def)
  ultimately show ?thesis
    using assms(1,3) len pl(1,3)
    by (simp add: program_one_image_def image_checked_def gcall_eq long_size_of Let_def on_loader_eq)
qed

lemma sample_esp_program:
  assumes "sample_linked s"
  shows "\<exists>n s'. esp_program (sample_ew m) sample_esp_cfg sample_esp_files l s = (ESP_OK, n, s') \<and>
     eb_flash_limit s' = 0x100000"
proof -
  obtain s1 where c: "connect_locked (sample_ew m) sample_esp_cfg sample_esp_files s = (ESP_OK, s1)"
      "eb_flash_limit s1 = 0x100000" using sample_connect [OF assms] by blast
  obtain o1 s2 where p1: "program_one_image (sample_ew m) sample_esp_files ''boot'' 0x1000 0 s1 = (ESP_OK, o1, s2)"
      "eb_flash_limit s2 = 0x100000"
    using sample_one [of "''boot''" "[1, 2, 3]" s1 "0x1000" m] c(2)
    by (auto simp: sample_esp_files_def image_fits_def length_padded)
  obtain o2 s3 where p2: "program_one_image (sample_ew m) sample_esp_files ''app'' 0x2000 0 s2 = (ESP_OK, o2, s3)"
      "eb_flash_limit s3 = 0x100000"
    using sample_one [of "''app''" "[4, 5, 6, 7]" s2 "0x2000" m] p1(2)
    by (auto simp: sample_esp_files_def image_fits_def length_padded)
  show ?thesis using c(1) p1(1) p2 by (simp add: esp_program_def sample_images)
qed

theorem esp_program_writes_images_witness:
  "\<exists>n s' pre calls. esp_program (sample_ew (\<lambda>_. 0)) sample_esp_cfg sample_esp_files 0 boot_esp32 = (ESP_OK, n, s') \<and>
     eb_log s' = pre @ calls \<and>
     mem_bytes (lf_mem (run_flash calls \<lparr>lf_mem = (\<lambda>_. 0), lf_cursor = 0\<rparr>)) 0x1000 4 = [1, 2, 3, 0xFF]"
proof -
  obtain n s' where p: "esp_program (sample_ew (\<lambda>_. 0)) sample_esp_cfg sample_esp_files 0 boot_esp32 = (ESP_OK, n, s')"
      "eb_flash_limit s' = 0x100000" using sample_esp_program [OF sample_linked_boot] by blast
  from esp_program_writes_images [OF boot_esp_inv sample_fat p(1)] p(2) obtain pre calls where
      "eb_log s' = pre @ calls"
      "\<And>d. mem_bytes (lf_mem (run_flash calls d)) 0x1000 (length (padded [1, 2, 3])) = padded [1, 2, 3]"
    by (auto simp: boot_esp32_def sample_images sample_esp_files_def)
  moreover have "padded [1, 2, 3] = [1, 2, 3, 0xFF]" by (simp add: padded_def padding_of_def)
  ultimately show ?thesis
    using p(1)
    by - (rule exI [of _ n], rule exI [of _ s'], rule exI [of _ pre], rule exI [of _ calls],
        simp add: eval_nat_numeral)
qed

definition sample_flash :: "u32 \<Rightarrow> u8" where
  "sample_flash = store_images sample_esp_files (used_images sample_esp_cfg) (\<lambda>_. 0)"

lemma sample_compare:
  assumes "0 < n" "n \<le> 4096" "n \<le> length rest" "4 dvd n + pad" "pad < 4"
    and "mem_bytes m cursor (n + pad) = take n rest @ replicate pad 0xFF"
  shows "\<exists>s'. compare_loop (sample_ew m) pad cursor n rest s = (ESP_OK, s') \<and> eb_flash_limit s' = eb_flash_limit s"
  using assms
  by (simp add: compare_loop_step file_read_def lcall_eq on_loader_eq compare_loop.simps [of _ _ _ 0]
      last_padding_def sample_ew_def buffer_of_exact)
    (auto simp: ok_resp_def)

lemma sample_verify_one:
  assumes "sample_esp_files p = Some c" and "image_fits (eb_flash_limit s) offset c" and "offset AND 3 = 0" and "length c \<le> 4096"
    and "mem_bytes m offset (length (padded c)) = padded c"
  shows "\<exists>s'. verify_one_image (sample_ew m) sample_esp_files p offset s = (ESP_OK, s') \<and> eb_flash_limit s' = eb_flash_limit s"
proof -
  have len: "length c < 2147483648" "0 < length c" using assms(2) by (auto simp: image_fits_def)
  note pl = padded_lens [OF len(1)]
  have pd: "4 dvd length c + length (padding_of (length c))" using pl(4,5) by simp
  have m: "mem_bytes m offset (length c + length (padding_of (length c))) = take (length c) c @ replicate (length (padding_of (length c))) 0xFF"
    using assms(5) by (simp add: padded_def padding_of_def)
  from sample_compare [OF len(2) assms(4) order_refl pd pl(6) m, of "s\<lparr>eb_log := eb_log s @ [File_open p]\<rparr>"]
  obtain s' where "compare_loop (sample_ew m) (length (padding_of (length c))) offset (length c) c
      (s\<lparr>eb_log := eb_log s @ [File_open p]\<rparr>) = (ESP_OK, s')" "eb_flash_limit s' = eb_flash_limit s" by auto
  moreover have "\<not> offset > eb_flash_limit s \<and> \<not> padded_len (of_nat (length c)) > eb_flash_limit s - offset"
    using limit_fits [OF len, where offset = offset and limit = "eb_flash_limit s"] assms(2) by blast
  moreover have "\<not> int (length c) > uint (UINT32_MAX - 3)" using len(1) by (simp add: UINT32_MAX_def)
  ultimately show ?thesis
    using assms(1,3) len pl(1,3)
    by (simp add: verify_one_image_def image_checked_def gcall_eq long_size_of Let_def)
qed

lemma sample_flash_images:
  "img \<in> set (used_images sample_esp_cfg) \<Longrightarrow>
     mem_bytes sample_flash (im_offset img) (length (image_bytes sample_esp_files img)) = image_bytes sample_esp_files img"
  unfolding sample_flash_def
  by (rule store_images_keeps [OF validate_sound [OF sample_fat sample_valid]]) simp_all

lemma sample_esp_verify:
  assumes "sample_linked s"
  shows "\<exists>s'. esp_verify (sample_ew sample_flash) sample_esp_cfg sample_esp_files l s = (ESP_OK, s') \<and>
     eb_flash_limit s' = 0x100000"
proof -
  let ?ew = "sample_ew sample_flash"
  have b: "image_bytes sample_esp_files \<lparr>im_path = ''boot'', im_offset = 0x1000\<rparr> = padded [1, 2, 3]"
      "image_bytes sample_esp_files \<lparr>im_path = ''app'', im_offset = 0x2000\<rparr> = padded [4, 5, 6, 7]"
    by (simp_all add: image_bytes_def sample_esp_files_def)
  have fl: "mem_bytes sample_flash 0x1000 (length (padded [1, 2, 3])) = padded [1, 2, 3]"
      "mem_bytes sample_flash 0x2000 (length (padded [4, 5, 6, 7])) = padded [4, 5, 6, 7]"
    using sample_flash_images [of "\<lparr>im_path = ''boot'', im_offset = 0x1000\<rparr>"]
      sample_flash_images [of "\<lparr>im_path = ''app'', im_offset = 0x2000\<rparr>"] b
    by (simp_all add: sample_images)
  obtain s1 where c: "connect_locked ?ew sample_esp_cfg sample_esp_files s = (ESP_OK, s1)"
      "eb_flash_limit s1 = 0x100000" using sample_connect [OF assms] by blast
  obtain s2 where v1: "verify_one_image ?ew sample_esp_files ''boot'' 0x1000 s1 = (ESP_OK, s2)" "eb_flash_limit s2 = 0x100000"
    using sample_verify_one [of "''boot''" "[1, 2, 3]" s1 "0x1000" sample_flash] c(2) fl(1)
    by (auto simp: sample_esp_files_def image_fits_def length_padded)
  obtain s3 where v2: "verify_one_image ?ew sample_esp_files ''app'' 0x2000 s2 = (ESP_OK, s3)" "eb_flash_limit s3 = 0x100000"
    using sample_verify_one [of "''app''" "[4, 5, 6, 7]" s2 "0x2000" sample_flash] v1(2) fl(2)
    by (auto simp: sample_esp_files_def image_fits_def length_padded)
  show ?thesis using c(1) v1(1) v2 by (simp add: esp_verify_def sample_images)
qed

theorem esp_verify_sound_witness:
  "\<exists>c. sample_esp_files ''app'' = Some c \<and> mem_bytes sample_flash 0x2000 (length (padded c)) = padded c"
proof -
  have "fst (esp_verify (sample_ew sample_flash) sample_esp_cfg sample_esp_files 7 boot_esp32) = ESP_OK"
    using sample_esp_verify [OF sample_linked_boot] by (metis fst_conv)
  from esp_verify_sound [OF sample_reads sample_fat this, of "\<lparr>im_path = ''app'', im_offset = 0x2000\<rparr>"]
  show ?thesis by (auto simp: sample_images)
qed

end
