(* ===== verification/Current_Tester.thy ===== *)
theory Current_Tester
  imports Target_Backend
begin

text \<open>
  \<open>main/prog/current_tester.cpp\<close>: the current a finished target draws. The \<open>ina228\<close> driver is not part of
  the sources and stays a parameter over a world \<open>'w\<close>. A \<open>double\<close> is a value of a linear order \<open>'d\<close>: the
  code compares readings, and adds and divides them only for the average, for which \<open>fp\<close> has the
  operations of the machine. Readings are numbers, so that comparison is a linear order on them.
\<close>

section \<open>The driver\<close>

datatype adc_call = Adc_init | Adc_reset | Adc_configure_shunt nat | Adc_set_range | Adc_set_temperature_time
  | Adc_set_vbus_time | Adc_set_vshunt_time | Adc_set_average

record ('d, 'w) adc =
  ad_new_bus :: "'w \<Rightarrow> esp_err \<times> 'w"
  ad_call :: "adc_call \<Rightarrow> 'w \<Rightarrow> esp_err \<times> 'w"
  ad_read_current :: "'w \<Rightarrow> esp_err \<times> 'd \<times> 'w"

record 'd fp =
  fp_zero :: 'd
  fp_uint32_max :: 'd
  fp_add :: "'d \<Rightarrow> 'd \<Rightarrow> 'd"
  fp_div_cnt :: "'d \<Rightarrow> u32 \<Rightarrow> 'd"

section \<open>Operations\<close>

text \<open>\<open>ret = ret ?: adc.f(); ...\<close>\<close>

definition adc_calls :: "('d, 'w) adc \<Rightarrow> adc_call list \<Rightarrow> esp_err \<times> 'w \<Rightarrow> esp_err \<times> 'w" where
  "adc_calls ad cs r = fold (\<lambda>c r. and_then r (ad_call ad c)) cs r"

definition ct_configure :: "('d, 'w) adc \<Rightarrow> 'w \<Rightarrow> esp_err \<times> 'w" where
  "ct_configure ad w = adc_calls ad [Adc_configure_shunt 1, Adc_set_range, Adc_set_temperature_time, Adc_set_vbus_time,
     Adc_set_vshunt_time, Adc_set_average] (ad_call ad Adc_reset w)"

text \<open>
  \<open>init\<close>: \<open>bus\<close> is the member, \<open>given\<close> the argument; a bus is set up when there is neither. The result is
  the code and the member.
\<close>

definition ct_init :: "('d, 'w) adc \<Rightarrow> bool \<Rightarrow> bool \<Rightarrow> 'w \<Rightarrow> esp_err \<times> bool \<times> 'w" where
  "ct_init ad given bus w =
     (case (if \<not> given \<and> \<not> bus then ad_new_bus ad w else (ESP_OK, w)) of (ret, w) \<Rightarrow>
        if ret \<noteq> ESP_OK then (ret, bus, w)
        else case and_then (and_then (ESP_OK, w) (ad_call ad Adc_init)) (ct_configure ad) of (ret, w) \<Rightarrow> (ret, True, w))"

text \<open>The readings until the time is over: the code and, when it is \<open>ESP_OK\<close>, maximum, minimum and average.\<close>

partial_function (option) reading_loop ::
  "('d :: linorder, 'w) adc \<Rightarrow> 'd fp \<Rightarrow> 'w rtos \<Rightarrow> int \<Rightarrow> 'd \<Rightarrow> 'd \<Rightarrow> 'd \<Rightarrow> u32 \<Rightarrow> 'w \<Rightarrow>
     (esp_err \<times> ('d \<times> 'd \<times> 'd) option \<times> 'w) option" where
  "reading_loop ad fp rt finish_ts mx mn avg_sum reading_cnt w =
     (case ad_read_current ad w of (ret, reading, w) \<Rightarrow>
        if ret \<noteq> ESP_OK then Some (ret, None, w)
        else
          let reading_cnt = reading_cnt + 1; avg_sum = fp_add fp avg_sum reading;
              mx = (if mx < reading then reading else mx); mn = (if mn > reading then reading else mn) in
          if finish_ts < rt_now rt w then Some (ret, Some (mx, mn, fp_div_cnt fp avg_sum reading_cnt), w)
          else reading_loop ad fp rt finish_ts mx mn avg_sum reading_cnt (rt_delay rt 1 w))"

text \<open>A failed \<open>configure\<close> is logged and not acted upon.\<close>

definition start_testing ::
  "('d :: linorder, 'w) adc \<Rightarrow> 'd fp \<Rightarrow> 'w rtos \<Rightarrow> u32 \<Rightarrow> 'w \<Rightarrow> (esp_err \<times> ('d \<times> 'd \<times> 'd) option \<times> 'w) option" where
  "start_testing ad fp rt millisecs w =
     (let w = snd (ct_configure ad w); finish_ts = rt_now rt w + uint millisecs * 1000
      in reading_loop ad fp rt finish_ts (fp_zero fp) (fp_uint32_max fp) (fp_zero fp) 0 w)"

section \<open>What the test reports\<close>

text \<open>The world before the next reading, and the first \<open>n\<close> readings.\<close>

definition next_world :: "('d, 'w) adc \<Rightarrow> 'w rtos \<Rightarrow> 'w \<Rightarrow> 'w" where
  "next_world ad rt w = rt_delay rt 1 (snd (snd (ad_read_current ad w)))"

primrec readings :: "('d, 'w) adc \<Rightarrow> 'w rtos \<Rightarrow> nat \<Rightarrow> 'w \<Rightarrow> 'd list" where
  "readings ad rt 0 w = []"
| "readings ad rt (Suc n) w = fst (snd (ad_read_current ad w)) # readings ad rt n (next_world ad rt w)"

text \<open>Reading takes no time backwards, waiting takes some.\<close>

definition adc_clock :: "('d, 'w) adc \<Rightarrow> 'w rtos \<Rightarrow> bool" where
  "adc_clock ad rt \<longleftrightarrow>
     (\<forall>w. rt_now rt w \<le> rt_now rt (snd (snd (ad_read_current ad w)))) \<and> (\<forall>w. rt_now rt w < rt_now rt (rt_delay rt 1 w))"

definition reports ::
  "('d :: linorder, 'w) adc \<Rightarrow> 'd fp \<Rightarrow> 'w rtos \<Rightarrow> 'd \<Rightarrow> 'd \<Rightarrow> 'd \<Rightarrow> u32 \<Rightarrow> 'w \<Rightarrow>
     esp_err \<times> ('d \<times> 'd \<times> 'd) option \<times> 'w \<Rightarrow> bool" where
  "reports ad fp rt mx mn s cnt w r \<longleftrightarrow>
     (if fst r = ESP_OK
      then \<exists>n > 0. let rs = readings ad rt n w in
        fst (snd r) = Some (foldl max mx rs, foldl min mn rs, fp_div_cnt fp (foldl (fp_add fp) s rs) (cnt + of_nat n))
      else fst (snd r) = None)"

lemma reading_loop_reports:
  assumes "adc_clock ad rt"
  shows "\<exists>r. reading_loop ad fp rt finish mx mn s cnt w = Some r \<and> reports ad fp rt mx mn s cnt w r"
proof (induction "nat (finish + 1 - rt_now rt w)" arbitrary: mx mn s cnt w rule: less_induct)
  case less
  obtain ret reading w1 where r: "ad_read_current ad w = (ret, reading, w1)" by (cases "ad_read_current ad w")
  let ?mx = "max mx reading" let ?mn = "min mn reading"
  have m: "(if mx < reading then reading else mx) = ?mx" "(if mn > reading then reading else mn) = ?mn"
    by (auto simp: max_def min_def)
  have nw: "next_world ad rt w = rt_delay rt 1 w1" by (simp add: next_world_def r)
  show ?case
  proof (cases "ret = ESP_OK \<and> \<not> finish < rt_now rt w1")
    case False
    have "readings ad rt 1 w = [reading]" by (simp add: r)
    then show ?thesis using False r m
      by (subst reading_loop.simps) (auto simp: reports_def Let_def intro!: exI [of _ 1])
  next
    case True
    have "rt_now rt w \<le> rt_now rt w1" "rt_now rt w1 < rt_now rt (rt_delay rt 1 w1)"
      using assms by (auto simp: adc_clock_def r dest: spec [of _ w])
    then have "nat (finish + 1 - rt_now rt (rt_delay rt 1 w1)) < nat (finish + 1 - rt_now rt w)" using True by simp
    from less.hyps [OF this, of ?mx ?mn "fp_add fp s reading" "cnt + 1"] obtain x where
        x: "reading_loop ad fp rt finish ?mx ?mn (fp_add fp s reading) (cnt + 1) (rt_delay rt 1 w1) = Some x"
          "reports ad fp rt ?mx ?mn (fp_add fp s reading) (cnt + 1) (rt_delay rt 1 w1) x" by blast
    have "reports ad fp rt mx mn s cnt w x"
    proof (cases "fst x = ESP_OK")
      case True
      with x(2) obtain n where n: "fst (snd x) = Some (foldl max ?mx (readings ad rt n (rt_delay rt 1 w1)),
          foldl min ?mn (readings ad rt n (rt_delay rt 1 w1)),
          fp_div_cnt fp (foldl (fp_add fp) (fp_add fp s reading) (readings ad rt n (rt_delay rt 1 w1))) (cnt + 1 + of_nat n))"
        by (auto simp: reports_def Let_def)
      then show ?thesis using True unfolding reports_def
        by (auto simp: r nw Let_def add.assoc intro!: exI [of _ "Suc n"])
    qed (use x(2) in \<open>simp add: reports_def\<close>)
    then show ?thesis using True r m x(1) by (subst reading_loop.simps) (simp add: Let_def)
  qed
qed

lemma foldl_extremes:
  "foldl max a rs = Max (insert a (set rs))" "foldl min a rs = Min (insert a (set rs))" for a :: "'a :: linorder"
proof -
  have c: "(\<lambda>x y :: 'a. max y x) = max" "(\<lambda>x y :: 'a. min y x) = min" by (auto simp: fun_eq_iff max_def min_def)
  show "foldl max a rs = Max (insert a (set rs))"
    using Max.set_eq_fold [of a rs] by (simp add: foldl_conv_fold c)
  show "foldl min a rs = Min (insert a (set rs))"
    using Min.set_eq_fold [of a rs] by (simp add: foldl_conv_fold c)
qed

text \<open>
  C39: the current test ends when the clock advances. With \<open>ESP_OK\<close> it has made at least one reading and
  reports the extremes of all of them, except that the maximum is never below zero and the minimum
  never above \<open>UINT32_MAX\<close>; with any other code it reports nothing.
\<close>

theorem current_test_reports:
  assumes "adc_clock ad rt"
  shows "\<exists>ret report w'. start_testing ad fp rt millisecs w = Some (ret, report, w') \<and>
     (if ret = ESP_OK
      then \<exists>n > 0. let rs = readings ad rt n (snd (ct_configure ad w)) in
        report = Some (Max (insert (fp_zero fp) (set rs)), Min (insert (fp_uint32_max fp) (set rs)),
          fp_div_cnt fp (foldl (fp_add fp) (fp_zero fp) rs) (of_nat n))
      else report = None)"
proof -
  let ?w = "snd (ct_configure ad w)" let ?f = "rt_now rt ?w + uint millisecs * 1000"
  obtain ret report w' where
      r: "start_testing ad fp rt millisecs w = Some (ret, report, w')"
      and rep: "reports ad fp rt (fp_zero fp) (fp_uint32_max fp) (fp_zero fp) 0 ?w (ret, report, w')"
    using reading_loop_reports [OF assms, of fp ?f "fp_zero fp" "fp_uint32_max fp" "fp_zero fp" 0 ?w]
    by (auto simp: start_testing_def Let_def)
  then show ?thesis by (auto simp: reports_def Let_def foldl_extremes split: if_splits)
qed

section \<open>A concrete test\<close>

text \<open>A target that draws nothing but feeds 3 units back, over a world that is the clock.\<close>

definition feeding_adc :: "(int, int) adc" where
  "feeding_adc = \<lparr>ad_new_bus = Pair ESP_OK, ad_call = (\<lambda>_. Pair ESP_OK), ad_read_current = (\<lambda>w. (ESP_OK, -3, w))\<rparr>"

definition int_fp :: "int fp" where
  "int_fp = \<lparr>fp_zero = 0, fp_uint32_max = 4294967295, fp_add = (+), fp_div_cnt = (\<lambda>s n. s div uint n)\<rparr>"

definition ms_rtos :: "int rtos" where
  "ms_rtos = \<lparr>rt_now = id, rt_delay = (\<lambda>n w. w + 1000 * int n), rt_delay_us = (\<lambda>u w. w + uint u),
     rt_ms_to_ticks = unat, rt_tick_period_ms = 1\<rparr>"

lemma feeding_clock: "adc_clock feeding_adc ms_rtos"
  by (simp add: adc_clock_def feeding_adc_def ms_rtos_def)

lemma feeding_readings: "0 < n \<Longrightarrow> set (readings feeding_adc ms_rtos n w) = {- 3}"
proof (induction n arbitrary: w)
  case (Suc n)
  then show ?case by (cases n) (simp_all add: feeding_adc_def)
qed simp

theorem current_test_reports_witness:
  "\<exists>ret report w'. start_testing feeding_adc int_fp ms_rtos 5 0 = Some (ret, report, w') \<and>
     (ret = ESP_OK \<longrightarrow> (\<exists>avg. report = Some (0, - 3, avg)))"
proof -
  obtain ret report w' where r: "start_testing feeding_adc int_fp ms_rtos 5 0 = Some (ret, report, w')"
      "if ret = ESP_OK
       then \<exists>n > 0. let rs = readings feeding_adc ms_rtos n (snd (ct_configure feeding_adc 0)) in
         report = Some (Max (insert (fp_zero int_fp) (set rs)), Min (insert (fp_uint32_max int_fp) (set rs)),
           fp_div_cnt int_fp (foldl (fp_add int_fp) (fp_zero int_fp) rs) (of_nat n))
       else report = None"
    using current_test_reports [OF feeding_clock, of int_fp 5 0] by blast
  have "\<exists>avg. report = Some (0, - 3, avg)" if "ret = ESP_OK"
    using r(2) that by (auto simp: Let_def feeding_readings int_fp_def)
  with r(1) show ?thesis by blast
qed

end
