(* ===== verification/Device.thy ===== *)
theory Device
  imports Offline_Flasher Swd_Backend Esp32_Correct Current_Tester
begin

text \<open>
  The device put together: the flasher of \<open>offline_flasher.cpp\<close> with the two backends it selects from,
  over one state that holds both and the clock. The theorems follow a run from its outcome down to
  the bytes in the target's flash.
\<close>

section \<open>Both backends over one state\<close>

record device =
  dv_swd :: swd
  dv_esp :: esp32
  dv_now :: int
  dv_i2c_bus :: bool

definition on_part :: "('w \<Rightarrow> 's) \<Rightarrow> ('s \<Rightarrow> 'w \<Rightarrow> 'w) \<Rightarrow> ('s \<Rightarrow> esp_err \<times> 's) \<Rightarrow> 'w \<Rightarrow> esp_err \<times> 'w" where
  "on_part get put f w = (case f (get w) of (r, s) \<Rightarrow> (r, put s w))"

definition on_part_val ::
  "('w \<Rightarrow> 's) \<Rightarrow> ('s \<Rightarrow> 'w \<Rightarrow> 'w) \<Rightarrow> ('s \<Rightarrow> esp_err \<times> u32 \<times> 's) \<Rightarrow> 'w \<Rightarrow> esp_err \<times> u32 \<times> 'w" where
  "on_part_val get put f w = (case f (get w) of (r, v, s) \<Rightarrow> (r, v, put s w))"

definition lift_backend :: "('w \<Rightarrow> 's) \<Rightarrow> ('s \<Rightarrow> 'w \<Rightarrow> 'w) \<Rightarrow> 's backend \<Rightarrow> 'w backend" where
  "lift_backend get put be = \<lparr>
     be_name = be_name be,
     be_begin_session = on_part get put (be_begin_session be),
     be_detect = on_part get put (be_detect be),
     be_erase = on_part get put (be_erase be),
     be_program = (\<lambda>n. on_part_val get put (be_program be n)),
     be_verify = (\<lambda>n. on_part get put (be_verify be n)),
     be_self_test = (\<lambda>item v. on_part_val get put (be_self_test be item v)),
     be_release_transport = on_part get put (be_release_transport be),
     be_reset_target = on_part get put (be_reset_target be),
     be_reinit_debug = on_part get put (be_reinit_debug be),
     be_halt_target = on_part get put (be_halt_target be),
     be_wait_halt = on_part get put (be_wait_halt be),
     be_read_mem32 = (\<lambda>a v. on_part_val get put (be_read_mem32 be a v)),
     be_write_mem32 = (\<lambda>a v. on_part get put (be_write_mem32 be a v))\<rparr>"

text \<open>What stays the same over a run: the hardware, the board and the active job.\<close>

record rig =
  rg_hw :: hw
  rg_ew :: ew
  rg_boot :: bool
  rg_tick_us :: int

definition device_backend :: "rig \<Rightarrow> target_config \<Rightarrow> fs \<Rightarrow> target_family \<Rightarrow> device backend" where
  "device_backend rig cfg files fam =
     (case fam of
        swd_cortex_m \<Rightarrow> lift_backend dv_swd (\<lambda>s w. w\<lparr>dv_swd := s\<rparr>) (swd_cortexm_backend (rg_hw rig) cfg files)
      | esp32_serial \<Rightarrow> lift_backend dv_esp (\<lambda>s w. w\<lparr>dv_esp := s\<rparr>)
          (esp32_serial_backend (rg_ew rig) (rg_boot rig) cfg files))"

text \<open>A delay lets the clock pass; SWD sees it as one of its calls.\<close>

definition device_rtos :: "rig \<Rightarrow> device rtos" where
  "device_rtos rig = \<lparr>
     rt_now = dv_now,
     rt_delay = (\<lambda>n w. w\<lparr>dv_swd := vcall (rg_hw rig) (Task_delay n) (dv_swd w), dv_now := dv_now w + int n * rg_tick_us rig\<rparr>),
     rt_delay_us = (\<lambda>u w. w\<lparr>dv_now := dv_now w + uint u\<rparr>),
     rt_ms_to_ticks = (\<lambda>ms. unat ms * 1000 div nat (rg_tick_us rig)),
     rt_tick_period_ms = of_int (rg_tick_us rig div 1000)\<rparr>"

text \<open>
  The current test of a run, \<open>pwr_test.init(...)\<close> and \<open>pwr_test.start_testing(3000, ...)\<close>: the bus the tester has set up once is
  kept for the runs to come.
\<close>

definition device_current_test ::
  "('d :: linorder, device) adc \<Rightarrow> 'd fp \<Rightarrow> rig \<Rightarrow> device \<Rightarrow> (esp_err \<times> device) option" where
  "device_current_test ad fp rig w =
     (case ct_init ad False (dv_i2c_bus w) w of (ret, bus, w) \<Rightarrow>
        let w = w\<lparr>dv_i2c_bus := bus\<rparr> in
        if ret \<noteq> ESP_OK then Some (ret, w)
        else map_option (\<lambda>(ret, report, w). (ret, w)) (start_testing ad fp (device_rtos rig) 3000 w))"

definition device_run ::
  "rig \<Rightarrow> lib_params \<Rightarrow> asset_env \<Rightarrow> fs \<Rightarrow> fw_assets \<Rightarrow> bool \<Rightarrow> ('d :: linorder, device) adc \<Rightarrow> 'd fp \<Rightarrow> device run_env" where
  "device_run rig lib env files assets sg ad fp = \<lparr>
     ru_lib = lib, ru_env = env, ru_files = files, ru_assets = assets,
     ru_backend = device_backend rig (config assets) files,
     ru_rtos = device_rtos rig, ru_sg_rig = sg, ru_current_test = device_current_test ad fp rig\<rparr>"

lemma device_run_simps [simp]:
  "ru_lib (device_run rig lib env files assets sg ad fp) = lib" "ru_env (device_run rig lib env files assets sg ad fp) = env"
  "ru_files (device_run rig lib env files assets sg ad fp) = files"
  "ru_assets (device_run rig lib env files assets sg ad fp) = assets"
  "ru_backend (device_run rig lib env files assets sg ad fp) = device_backend rig (config assets) files"
  "ru_rtos (device_run rig lib env files assets sg ad fp) = device_rtos rig"
  "ru_sg_rig (device_run rig lib env files assets sg ad fp) = sg"
  "ru_current_test (device_run rig lib env files assets sg ad fp) = device_current_test ad fp rig"
  by (simp_all add: device_run_def)

lemma current_test_returns:
  assumes "adc_clock ad (device_rtos rig)" shows "device_current_test ad fp rig w \<noteq> None"
proof -
  have "start_testing ad fp (device_rtos rig) 3000 w \<noteq> None" for w
    using reading_loop_reports [OF assms] by (force simp: start_testing_def Let_def)
  then show ?thesis by (simp add: device_current_test_def Let_def case_prod_unfold del: not_None_eq)
qed

lemma device_clock:
  assumes "0 < rg_tick_us rig" and "adc_clock ad (device_rtos rig)"
  shows "clocks_advance (device_run rig lib env files assets sg ad fp)"
  using assms(1) current_test_returns [OF assms(2)]
  by (auto simp: clocks_advance_def clock_advances_def device_rtos_def device_backend_def lift_backend_def
      on_part_val_def case_prod_unfold split: target_family.split)

section \<open>The transport after a run\<close>

definition device_idle :: "target_family \<Rightarrow> device \<Rightarrow> bool" where
  "device_idle fam w = (case fam of swd_cortex_m \<Rightarrow> swd_idle (dv_swd w) | esp32_serial \<Rightarrow> esp_idle (dv_esp w))"

interpretation device_transport: transport
  "be_release_transport (device_backend rig cfg files fam)" "rt_delay (device_rtos rig) n" "device_idle fam"
proof unfold_locales
  fix w
  show "device_idle fam (snd (be_release_transport (device_backend rig cfg files fam) w))"
    using swd_transport.release_idle [of "rg_hw rig" "dv_swd w"] esp_transport.release_idle [of "rg_ew rig" "dv_esp w"]
    by (cases fam) (simp_all add: device_idle_def device_backend_def lift_backend_def on_part_def case_prod_unfold
        swd_cortexm_backend_def esp32_serial_backend_def)
  assume "device_idle fam w"
  then show "device_idle fam (rt_delay (device_rtos rig) n w)"
    using swd_transport.wait_idle [of "dv_swd w" "rg_hw rig" n]
    by (cases fam) (simp_all add: device_idle_def device_rtos_def)
qed

context transport
begin

lemma released_idle:
  assumes "released ru f" and "fl_backend f = Some fam"
    and "be_release_transport (ru_backend ru fam) = release" and "rt_delay (ru_rtos ru) 1 = wait"
  shows "idle (fl_world f)"
  using assms release_idle wait_idle by (auto simp: released_def)

end

text \<open>
  C4: every run on the device ends, whatever the target, the file system and the operator do, and
  leaves the selected transport idle: no SWD call since the pins were released, or no serial
  connection and no flash limit left for the next run.
\<close>

theorem device_run_ends_idle:
  assumes "0 < rg_tick_us rig" and "adc_clock ad (device_rtos rig)"
    and "ru = device_run rig lib env files assets sg ad fp"
  shows "\<exists>ret f'. run_loop ru cancel 0 (fl_init ru f) = Some (ret, f') \<and>
     (\<forall>fam. fl_backend f' = Some fam \<longrightarrow> device_idle fam (fl_world f'))"
proof -
  obtain ret f' where r: "run_loop ru cancel 0 (fl_init ru f) = Some (ret, f')" "released ru f'"
    using run_from_init [OF device_clock [OF assms(1,2)], of lib env files assets sg fp cancel f] assms(3)
    by (auto simp: run_ends_def)
  have "device_idle fam (fl_world f')" if "fl_backend f' = Some fam" for fam
    using device_transport.released_idle [OF r(2) that] assms(3) by simp
  with r(1) show ?thesis by blast
qed

section \<open>What a passed run has put into the target\<close>

text \<open>The stages up to programming, and the state in which verification was entered.\<close>

definition until_verify :: "pg_state list" where
  "until_verify = [LOAD_ASSET, PRE_PROGRAM, DETECT, ERASE, PROGRAM]"

lemma passed_run_verifies:
  assumes "clocks_advance ru" and "run_loop ru cancel 0 (fl_init ru f) = Some (ESP_OK, f')"
  obtains fv w0 l0 w1 w2 where "run_chain ru until_verify (fl_init ru f) fv"
    "verify_images (ru_lib ru) (ru_env ru) (ru_files ru) (ru_assets ru) = ESP_OK"
    "be_program (ru_backend ru (cfg_family (config (ru_assets ru)))) l0 w0 = (ESP_OK, fl_written_len fv, w1)"
    "be_verify (ru_backend ru (cfg_family (config (ru_assets ru)))) (fl_written_len fv) (fl_world fv) = (ESP_OK, w2)"
proof -
  from run_from_init [OF assms(1), of cancel f] assms(2)
  have "run_ends ru cancel 0 (stages ru) (fl_init ru f) ESP_OK f'" by simp
  then obtain before rest fd where "stages ru = before @ rest" "run_chain ru before (fl_init ru f) fd"
      "case rest of [] \<Rightarrow> True | _ \<Rightarrow> False"
    unfolding run_ends_def by (force split: list.splits)
  then have "run_chain ru (stages ru) (fl_init ru f) fd" by (cases rest) auto
  moreover have "stages ru = until_verify @ VERIFY # [SELF_TEST, POST_PROGRAM] @ (if ru_sg_rig ru then [SG_CURRENT_TEST] else [])"
    by (simp add: stages_def until_verify_def)
  ultimately obtain fv f4 where u: "run_chain ru until_verify (fl_init ru f) fv" and ver: "stage_passed ru VERIFY fv f4"
    by (auto simp: run_chain_append run_chain_simps)
  have "until_verify = [LOAD_ASSET] @ [PRE_PROGRAM, DETECT, ERASE] @ [PROGRAM]" by (simp add: until_verify_def)
  with u obtain f1' f2 where ld: "run_chain ru [LOAD_ASSET] (fl_init ru f) f1'"
      and mid: "run_chain ru [PRE_PROGRAM, DETECT, ERASE] f1' f2" and pr: "run_chain ru [PROGRAM] f2 fv"
    by (metis run_chain_append)
  from ld obtain f1 where load: "stage_passed ru LOAD_ASSET (fl_init ru f) f1" "f1' = tick ru f1"
    by (auto simp: run_chain_simps)
  from pr obtain f3 where prog: "stage_passed ru PROGRAM f2 f3" and fv: "fv = tick ru f3"
    by (auto simp: run_chain_simps)
  have be: "fl_backend f2 = Some (cfg_family (config (ru_assets ru)))"
    using load run_chain_backend [OF mid] by (simp add: stage_passed_def Let_def)
  show thesis
    using that [OF u] load prog ver be fv by (fastforce simp: stage_passed_def Let_def)
qed

lemma program_file_len:
  assumes "program_file hw cfg files p lw start s = (ESP_OK, len, s')"
  shows "\<exists>c. files p = Some c \<and> len = of_nat (length c)"
proof -
  obtain c s1 where f: "fopen_retry hw files p 5 s = (Some c, s1)"
    using assms by (auto simp: program_file_def split: option.splits prod.splits)
  with assms have "len = of_nat (length c)"
    by (auto simp: program_file_def Let_def check_def split: if_splits option.splits)
  with fopen_retry_Some [OF f] show ?thesis by blast
qed

lemma verify_needs_start:
  "fst (verify hw cfg files p start len s) = ESP_OK \<Longrightarrow> \<exists>fs. fa_flash_start (cfg_algo cfg) = Some fs"
  by (auto simp: verify_def check_def unknown_def split: option.splits if_splits)

text \<open>
  What the flash of the target holds, seen from a world \<open>w\<close>: every memory that explains what can be read back in \<open>w\<close>
  holds the firmware file at the start of the flash, or every configured image at its offset.
\<close>

definition flashed :: "rig \<Rightarrow> target_config \<Rightarrow> fs \<Rightarrow> device \<Rightarrow> bool" where
  "flashed rig cfg files w = (case cfg_family cfg of
     swd_cortex_m \<Rightarrow> (\<exists>firmware flash_start. files FIRMWARE_PATH = Some firmware \<and>
       fa_flash_start (cfg_algo cfg) = Some flash_start \<and>
       (\<forall>m. reads_from (rg_hw rig) (sw_log (dv_swd w)) m \<longrightarrow> mem_bytes m flash_start (length firmware) = firmware))
   | esp32_serial \<Rightarrow> (\<forall>m. flash_reads (rg_ew rig) (eb_log (dv_esp w)) m \<longrightarrow>
       (\<forall>img \<in> set (used_images cfg).
          \<exists>c. files (im_path img) = Some c \<and> mem_bytes m (im_offset img) (length (padded c)) = padded c)))"

lemma swd_run_flashed:
  assumes "0 < rg_tick_us rig" and "adc_clock ad (device_rtos rig)"
    and ru: "ru = device_run rig lib env files assets sg ad fp"
    and fam: "cfg_family (config assets) = swd_cortex_m" and fat: "fat_sizes files"
    and run: "run_loop ru cancel 0 (fl_init ru f) = Some (ESP_OK, f')"
  shows "\<exists>job fv. am_job assets = Some job \<and> images_match lib files job \<and>
     run_chain ru until_verify (fl_init ru f) fv \<and> flashed rig (config assets) files (fl_world fv)"
proof -
  from device_clock [OF assms(1,2)] have clk: "clocks_advance ru" by (simp add: ru)
  obtain fv w0 l0 w1 w2 where
      u: "run_chain ru until_verify (fl_init ru f) fv" and im: "verify_images lib env files assets = ESP_OK"
      and p: "be_program (device_backend rig (config assets) files swd_cortex_m) l0 w0 = (ESP_OK, fl_written_len fv, w1)"
      and v: "be_verify (device_backend rig (config assets) files swd_cortex_m) (fl_written_len fv) (fl_world fv) = (ESP_OK, w2)"
    by (rule passed_run_verifies [OF clk run]) (simp add: ru fam)
  let ?hw = "rg_hw rig" let ?n = "fl_written_len fv" let ?s = "dv_swd (fl_world fv)"
  from im obtain job where job: "am_job assets = Some job" "images_match lib files job"
    by (auto simp: verify_images_def verify_job_images_match split: option.splits)
  obtain s1 where "program_file ?hw (config assets) files FIRMWARE_PATH 0 UINT32_MAX (dv_swd w0) = (ESP_OK, ?n, s1)"
    using p by (auto simp: device_backend_def lift_backend_def on_part_val_def swd_cortexm_backend_def swd_program_def
        split: prod.splits)
  from program_file_len [OF this] obtain fw where fw: "files FIRMWARE_PATH = Some fw" "?n = of_nat (length fw)" by blast
  have n: "unat ?n = length fw" using fat fw by (simp add: fat_sizes_def unat_of_nat_u32)
  have ver: "fst (verify ?hw (config assets) files FIRMWARE_PATH UINT32_MAX ?n ?s) = ESP_OK"
    using v by (simp add: device_backend_def lift_backend_def on_part_def swd_cortexm_backend_def swd_verify_def
        split: prod.splits)
  from verify_needs_start [OF this] obtain fs where fs: "fa_flash_start (cfg_algo (config assets)) = Some fs" by blast
  have "mem_bytes m fs (length fw) = fw" if "reads_from ?hw (sw_log ?s) m" for m
    using verify_sound [OF that fs fw(1) refl ver] n by simp
  with fam fw fs have "flashed rig (config assets) files (fl_world fv)" by (simp add: flashed_def)
  with job u show ?thesis by blast
qed

lemma esp_run_flashed:
  assumes "0 < rg_tick_us rig" and "adc_clock ad (device_rtos rig)"
    and ru: "ru = device_run rig lib env files assets sg ad fp"
    and fam: "cfg_family (config assets) = esp32_serial" and fat: "fat_sizes files"
    and run: "run_loop ru cancel 0 (fl_init ru f) = Some (ESP_OK, f')"
  shows "\<exists>job fv. am_job assets = Some job \<and> images_match lib files job \<and>
     run_chain ru until_verify (fl_init ru f) fv \<and> flashed rig (config assets) files (fl_world fv)"
proof -
  from device_clock [OF assms(1,2)] have clk: "clocks_advance ru" by (simp add: ru)
  obtain fv w2 where
      u: "run_chain ru until_verify (fl_init ru f) fv" and im: "verify_images lib env files assets = ESP_OK"
      and v: "be_verify (device_backend rig (config assets) files esp32_serial) (fl_written_len fv) (fl_world fv) = (ESP_OK, w2)"
    by (rule passed_run_verifies [OF clk run]) (simp add: ru fam)
  from im obtain job where job: "am_job assets = Some job" "images_match lib files job"
    by (auto simp: verify_images_def verify_job_images_match split: option.splits)
  have ver: "fst (esp_verify (rg_ew rig) (config assets) files (fl_written_len fv) (dv_esp (fl_world fv))) = ESP_OK"
    using v by (simp add: device_backend_def lift_backend_def on_part_def esp32_serial_backend_def split: prod.splits)
  have "\<exists>c. files (im_path img) = Some c \<and> mem_bytes m (im_offset img) (length (padded c)) = padded c"
    if "flash_reads (rg_ew rig) (eb_log (dv_esp (fl_world fv))) m" "img \<in> set (used_images (config assets))" for m img
    using esp_verify_images [OF that(1) fat ver that(2)] by blast
  with fam have "flashed rig (config assets) files (fl_world fv)" by (simp add: flashed_def)
  with job u show ?thesis by blast
qed

lemma passed_run_flashed:
  assumes "0 < rg_tick_us rig" and "adc_clock ad (device_rtos rig)"
    and "ru = device_run rig lib env files assets sg ad fp" and "fat_sizes files"
    and "run_loop ru cancel 0 (fl_init ru f) = Some (ESP_OK, f')"
  shows "\<exists>job fv. am_job assets = Some job \<and> images_match lib files job \<and>
     run_chain ru until_verify (fl_init ru f) fv \<and> flashed rig (config assets) files (fl_world fv)"
  using swd_run_flashed [OF assms(1-3) _ assms(4,5)] esp_run_flashed [OF assms(1-3) _ assms(4,5)]
  by (cases "cfg_family (config assets)") blast+

text \<open>
  C2: when a run of a Cortex-M job passes, every image the job pins has the pinned hash, and the
  flash of the target, as it reads back in the verification stage of that run, holds exactly the
  firmware file, all of it, at the start of the flash.
\<close>

theorem passed_swd_run_firmware:
  assumes "0 < rg_tick_us rig" and "adc_clock ad (device_rtos rig)"
    and ru: "ru = device_run rig lib env files assets sg ad fp"
    and fam: "cfg_family (config assets) = swd_cortex_m" and fat: "fat_sizes files"
    and run: "run_loop ru cancel 0 (fl_init ru f) = Some (ESP_OK, f')"
  shows "\<exists>job firmware flash_start fv. am_job assets = Some job \<and> images_match lib files job \<and>
     files FIRMWARE_PATH = Some firmware \<and> fa_flash_start (cfg_algo (config assets)) = Some flash_start \<and>
     run_chain ru until_verify (fl_init ru f) fv \<and>
     (\<forall>m. reads_from (rg_hw rig) (sw_log (dv_swd (fl_world fv))) m \<longrightarrow>
        mem_bytes m flash_start (length firmware) = firmware)"
  using swd_run_flashed [OF assms] unfolding flashed_def fam target_family.case by blast

text \<open>
  C3: when a run of an ESP32 job passes, every image the job pins has the pinned hash, and the flash
  of the target, as it reads back in the verification stage of that run, holds every configured
  image at its offset.
\<close>

theorem passed_esp_run_images:
  assumes "0 < rg_tick_us rig" and "adc_clock ad (device_rtos rig)"
    and ru: "ru = device_run rig lib env files assets sg ad fp"
    and fam: "cfg_family (config assets) = esp32_serial" and fat: "fat_sizes files"
    and run: "run_loop ru cancel 0 (fl_init ru f) = Some (ESP_OK, f')"
  shows "\<exists>job fv. am_job assets = Some job \<and> images_match lib files job \<and>
     run_chain ru until_verify (fl_init ru f) fv \<and>
     (\<forall>m. flash_reads (rg_ew rig) (eb_log (dv_esp (fl_world fv))) m \<longrightarrow>
        (\<forall>img \<in> set (used_images (config assets)).
           \<exists>c. files (im_path img) = Some c \<and> mem_bytes m (im_offset img) (length (padded c)) = padded c))"
  using esp_run_flashed [OF assms] unfolding flashed_def fam target_family.case by blast

section \<open>Runs that pass\<close>

text \<open>
  When every operation of the selected backend works in the states \<open>P\<close> and leads back to them, a run
  with no procedures, no self tests and no cancel passes.
\<close>

definition ok_in :: "('w \<Rightarrow> bool) \<Rightarrow> esp_err \<times> 'w \<Rightarrow> bool" where
  "ok_in P r \<longleftrightarrow> fst r = ESP_OK \<and> P (snd r)"

lemma ok_inE: assumes "ok_in P r" obtains w where "r = (ESP_OK, w)" "P w"
  using assms by (cases r) (simp add: ok_in_def)

definition backend_works :: "('w \<Rightarrow> bool) \<Rightarrow> (u32 \<Rightarrow> bool) \<Rightarrow> 'w rtos \<Rightarrow> 'w backend \<Rightarrow> bool" where
  "backend_works P len_ok rt be \<longleftrightarrow>
     (\<forall>w. P w \<longrightarrow> ok_in P (be_begin_session be w) \<and> ok_in P (be_detect be w) \<and> ok_in P (be_erase be w) \<and>
        (\<forall>l. \<exists>n w'. be_program be l w = (ESP_OK, n, w') \<and> len_ok n \<and> P w') \<and>
        (\<forall>n. len_ok n \<longrightarrow> ok_in P (be_verify be n w)) \<and>
        P (snd (be_reset_target be w)) \<and> P (rt_delay rt 1 w))"

lemmas one_step = run_loop.simps handle_states_def check_cancel_def run_state_def

lemma working_run_passes:
  assumes works: "backend_works P len_ok (ru_rtos ru) be" and be: "ru_backend ru (cfg_family (config (ru_assets ru))) = be"
    and load: "am_job (ru_assets ru) \<noteq> None"
      "verify_images (ru_lib ru) (ru_env ru) (ru_files ru) (ru_assets ru) = ESP_OK"
    and none: "pre_program_steps (ru_assets ru) = None" "post_program_steps (ru_assets ru) = None"
      "used_tests (config (ru_assets ru)) = []" "\<not> ru_sg_rig ru"
    and P: "P (fl_world (fl_init ru f))"
  shows "\<exists>f'. run_loop ru (\<lambda>_. False) 0 (fl_init ru f) = Some (ESP_OK, f')"
proof -
  let ?d = "rt_delay (ru_rtos ru) 1" let ?i = "fl_init ru f"
  note w = works [unfolded backend_works_def, rule_format]
  have d: "P w \<Longrightarrow> P (?d w)" for w using w by blast
  obtain w1 where w1: "be_begin_session be (?d (fl_world ?i)) = (ESP_OK, w1)" "P w1" using w [OF d [OF P]] by (auto elim: ok_inE)
  obtain w2 where w2: "be_detect be (?d w1) = (ESP_OK, w2)" "P w2" using w [OF d [OF w1(2)]] by (auto elim: ok_inE)
  obtain w3 where w3: "be_erase be (?d w2) = (ESP_OK, w3)" "P w3" using w [OF d [OF w2(2)]] by (auto elim: ok_inE)
  obtain n w4 where w4: "be_program be (fl_written_len ?i) (?d w3) = (ESP_OK, n, w4)" "P w4" "len_ok n" using w [OF d [OF w3(2)]] by blast
  obtain w5 where w5: "be_verify be n (?d w4) = (ESP_OK, w5)" "P w5" using w [OF d [OF w4(2)]] w4(3) by (metis ok_inE)
  have P6: "P (snd (be_reset_target be (?d w5)))" using w [OF d [OF w5(2)]] by blast
  obtain w7 where w7: "be_begin_session be (?d (snd (be_reset_target be (?d w5)))) = (ESP_OK, w7)"
    using w [OF d [OF P6]] by (auto elim: ok_inE)
  have dl: "detect_loop rt be' 10 (ESP_OK, w) = (ESP_OK, 10, w)" for rt be' w by (simp add: eval_nat_numeral)
  have i: "fl_state ?i = LOAD_ASSET" by (simp add: fl_init_start)
  have fam: "(case t of swd_cortex_m \<Rightarrow> swd_cortex_m | esp32_serial \<Rightarrow> esp32_serial) = t" for t
    by (cases t) simp_all
  show ?thesis
    using w1(1) w2(1) w3(1) w4(1) w5(1) w7 load be none i
    by (simp add: one_step on_load_asset_def select_backend_def fam on_pre_program_def with_backend_def on_detect_def dl
        on_erase_def on_program_def on_verify_def on_self_test_def end_self_test_def on_post_program_def after_post_def Let_def)
qed

section \<open>A passing run on an ESP32\<close>

definition sample_esp_assets :: fw_assets where
  "sample_esp_assets = \<lparr>am_cfg = Some sample_esp_cfg,
     am_job = Some (sample_esp32_job\<lparr>jb_target := (jb_target sample_esp32_job)\<lparr>tg_esp32 := sample_esp32\<lparr>es_images :=
       [\<lparr>ei_path = ''boot'', ei_offset = 0x1000, ei_sha256 = [1, 2, 3]\<rparr>,
        \<lparr>ei_path = ''app'', ei_offset = 0x2000, ei_sha256 = [4, 5, 6, 7]\<rparr>]\<rparr>\<rparr>\<rparr>),
     am_algo_bin = None, am_sha256 = [9], am_live = 1\<rparr>"

definition sample_rig :: rig where
  "sample_rig = \<lparr>rg_hw = sample_hw (\<lambda>_. 8), rg_ew = sample_ew sample_flash, rg_boot = True, rg_tick_us = 1000\<rparr>"

definition sample_device_flasher :: "device flasher" where
  "sample_device_flasher = \<lparr>fl_written_len = 0, fl_backend = None, fl_state = DETECT, fl_failed_state = DONE,
     fl_ui = [], fl_world = \<lparr>dv_swd = boot_swd, dv_esp = boot_esp32, dv_now = 0, dv_i2c_bus = False\<rparr>\<rparr>"

text \<open>A current sensor without load.\<close>

definition idle_adc :: "(int, device) adc" where
  "idle_adc = \<lparr>ad_new_bus = Pair ESP_OK, ad_call = (\<lambda>_. Pair ESP_OK), ad_read_current = (\<lambda>w. (ESP_OK, 0, w))\<rparr>"

lemma sample_adc_clock: "adc_clock idle_adc (device_rtos sample_rig)"
  by (simp add: adc_clock_def idle_adc_def device_rtos_def sample_rig_def)

definition sample_esp_run :: "device run_env" where
  "sample_esp_run = device_run sample_rig sample_lib sample_asset_env sample_esp_files sample_esp_assets False idle_adc int_fp"

lemma sample_pins_work: "prepare_pin (sample_ew m) p l s = (ESP_OK, snd (prepare_pin (sample_ew m) p l s))"
  "eb_connected (snd (prepare_pin (sample_ew m) p l s)) = eb_connected s"
  "eb_flash_limit (snd (prepare_pin (sample_ew m) p l s)) = eb_flash_limit s"
  by (simp_all add: prepare_pin_def and_then_def gcall_eq)

lemma sample_control_pins:
  "ok_in sample_linked (prepare_control_pins (sample_ew m) pin cfg s) \<longleftrightarrow> sample_linked s"
  unfolding prepare_control_pins_def check_def
  by (subst sample_pins_work(1), simp, intro conjI impI; (subst sample_pins_work(1))?)
    (simp_all add: ok_in_def sample_linked_def sample_pins_work(2,3))

lemma sample_pulse: "ok_in sample_linked (pulse_reset (sample_ew m) cfg s) \<longleftrightarrow> sample_linked s"
  by (simp add: pulse_reset_def check_def gcall_eq lnote_def lcall_eq ok_in_def sample_linked_def)

lemma sample_esp_works:
  "backend_works (\<lambda>w. sample_linked (dv_esp w)) (\<lambda>_. True) (device_rtos sample_rig)
     (device_backend sample_rig sample_esp_cfg sample_esp_files esp32_serial)"
proof -
  let ?ew = "sample_ew sample_flash"
  have c: "ok_in sample_linked (connect_locked ?ew sample_esp_cfg sample_esp_files s)" if "sample_linked s" for s
    using sample_connect [OF that, of sample_flash] by (auto simp: ok_in_def sample_linked_def)
  have p: "\<exists>n s'. esp_program ?ew sample_esp_cfg sample_esp_files l s = (ESP_OK, n, s') \<and> sample_linked s'"
    if "sample_linked s" for s l
    using sample_esp_program [OF that, of sample_flash l] by (auto simp: sample_linked_def)
  have v: "ok_in sample_linked (esp_verify ?ew sample_esp_cfg sample_esp_files n s)" if "sample_linked s" for s n
    using sample_esp_verify [OF that, of n] by (auto simp: ok_in_def sample_linked_def)
  have r: "sample_linked (snd (esp_reset_target ?ew True sample_esp_cfg s))" if "sample_linked s" for s
    using that sample_control_pins [of sample_flash True sample_esp_cfg s]
      sample_pulse [of sample_flash sample_esp_cfg "snd (prepare_control_pins ?ew True sample_esp_cfg s)"]
    by (cases "eb_connected s")
      (simp_all add: ok_in_def esp_reset_target_def check_def case_prod_unfold lnote_def lcall_eq sample_linked_def)
  show ?thesis unfolding backend_works_def
  proof (intro allI impI conjI)
    fix w :: device and l
    assume w: "sample_linked (dv_esp w)"
    let ?be = "device_backend sample_rig sample_esp_cfg sample_esp_files esp32_serial"
    note be = device_backend_def lift_backend_def esp32_serial_backend_def sample_rig_def on_part_def case_prod_unfold
      ok_in_def
    show "ok_in (\<lambda>w. sample_linked (dv_esp w)) (be_begin_session ?be w)"
      using w sample_control_pins [of sample_flash True sample_esp_cfg "dv_esp w"] by (simp add: be)
    show "ok_in (\<lambda>w. sample_linked (dv_esp w)) (be_detect ?be w)" using c [OF w] by (simp add: be)
    show "ok_in (\<lambda>w. sample_linked (dv_esp w)) (be_erase ?be w)" using w by (simp add: be)
    show "\<exists>n w'. be_program ?be l w = (ESP_OK, n, w') \<and> True \<and> sample_linked (dv_esp w')"
      using p [OF w, of l] by (auto simp: be on_part_val_def)
    show "ok_in (\<lambda>w. sample_linked (dv_esp w)) (be_verify ?be l w)" using v [OF w] by (simp add: be)
    show "sample_linked (dv_esp (snd (be_reset_target ?be w)))" using r [OF w] by (simp add: be)
    show "sample_linked (dv_esp (rt_delay (device_rtos sample_rig) 1 w))" using w by (simp add: device_rtos_def)
  qed
qed

lemma sample_esp_run_passes:
  "\<exists>f'. run_loop sample_esp_run (\<lambda>_. False) 0 (fl_init sample_esp_run sample_device_flasher) = Some (ESP_OK, f')"
proof (rule working_run_passes)
  show "backend_works (\<lambda>w. sample_linked (dv_esp w)) (\<lambda>_. True) (ru_rtos sample_esp_run)
      (device_backend sample_rig sample_esp_cfg sample_esp_files esp32_serial)"
    using sample_esp_works by (simp add: sample_esp_run_def)
  show "verify_images (ru_lib sample_esp_run) (ru_env sample_esp_run) (ru_files sample_esp_run) (ru_assets sample_esp_run) = ESP_OK"
    using images_match_verify [OF _ sample_works, of sample_lib sample_esp_files "the (am_job sample_esp_assets)"]
    by (simp add: sample_esp_run_def verify_images_def sample_esp_assets_def images_match_def pinned_images_def
        sample_esp32_job_def sample_esp_files_def sample_lib_def)
qed (simp_all add: sample_esp_run_def sample_esp_assets_def config_def sample_esp_cfg_def empty_config_def
  pre_program_steps_def post_program_steps_def non_empty_def sample_esp32_job_def sample_job_def used_tests_def
  fl_init_def release_backend_def sample_device_flasher_def sample_linked_boot)

theorem passed_esp_run_images_witness:
  "\<exists>fv. run_chain sample_esp_run until_verify (fl_init sample_esp_run sample_device_flasher) fv \<and>
     mem_bytes sample_flash 0x2000 4 = [4, 5, 6, 7]"
proof -
  obtain f' where r: "run_loop sample_esp_run (\<lambda>_. False) 0 (fl_init sample_esp_run sample_device_flasher) = Some (ESP_OK, f')"
    using sample_esp_run_passes by blast
  have cfg: "config sample_esp_assets = sample_esp_cfg" by (simp add: config_def sample_esp_assets_def)
  have h: "0 < rg_tick_us sample_rig" "cfg_family (config sample_esp_assets) = esp32_serial"
    by (simp_all add: sample_rig_def cfg sample_esp_cfg_def)
  obtain fv where u: "run_chain sample_esp_run until_verify (fl_init sample_esp_run sample_device_flasher) fv"
      and i: "\<forall>m. flash_reads (rg_ew sample_rig) (eb_log (dv_esp (fl_world fv))) m \<longrightarrow>
        (\<forall>img \<in> set (used_images sample_esp_cfg). \<exists>c. sample_esp_files (im_path img) = Some c \<and>
           mem_bytes m (im_offset img) (length (padded c)) = padded c)"
    using passed_esp_run_images [OF h(1) sample_adc_clock sample_esp_run_def h(2) sample_fat r] unfolding cfg by blast
  have rd: "flash_reads (rg_ew sample_rig) (eb_log (dv_esp (fl_world fv))) sample_flash"
    by (simp add: sample_rig_def sample_reads)
  have img: "\<lparr>im_path = ''app'', im_offset = 0x2000\<rparr> \<in> set (used_images sample_esp_cfg)" by (simp add: sample_images)
  have "\<exists>c. sample_esp_files ''app'' = Some c \<and> mem_bytes sample_flash 0x2000 (length (padded c)) = padded c"
    using i [rule_format, OF rd img] unfolding esp32_image.simps .
  moreover have "sample_esp_files ''app'' = Some [4, 5, 6, 7]" "padded [4, 5, 6, 7] = [4, 5, 6, 7]" "length [4, 5, 6, 7 :: u8] = 4"
    by (simp_all add: sample_esp_files_def padded_def padding_of_def)
  ultimately show ?thesis using u by (metis option.inject)
qed

section \<open>A passing run on a Cortex-M\<close>

definition sample_arm_cfg :: target_config where
  "sample_arm_cfg = sample_swd_cfg\<lparr>cfg_ram_regions := [\<lparr>rr_start = 0x20000000, rr_end = 0x20008000\<rparr>]\<rparr>"

definition sample_arm_files :: fs where
  "sample_arm_files = [FIRMWARE_PATH \<mapsto> [8, 8, 8, 8]]"

definition sample_arm_assets :: fw_assets where
  "sample_arm_assets = \<lparr>am_cfg = Some sample_arm_cfg, am_job = Some sample_job, am_algo_bin = Some [1, 2, 3, 4],
     am_sha256 = [7], am_live = 2\<rparr>"

definition sample_arm_run :: "device run_env" where
  "sample_arm_run = device_run sample_rig (sample_lib\<lparr>lib_sha := \<lambda>_. [8]\<rparr>) sample_asset_env sample_arm_files
     sample_arm_assets False idle_adc int_fp"

abbreviation armed :: "swd \<Rightarrow> bool" where
  "armed s \<equiv> sw_stack_canary s = 0"

lemma arm_algo: "cfg_algo sample_arm_cfg = cfg_algo sample_swd_cfg"
  by (simp add: sample_arm_cfg_def)

lemma arm_load: "armed s \<Longrightarrow> ok_in armed (load_flash_algorithm (sample_hw m) cfg s)"
  unfolding load_flash_algorithm_def by (simp add: sample_run ok_in_def)

lemma arm_init: "armed s \<Longrightarrow> ok_in armed (swd_prog_init (sample_hw m) sample_arm_cfg DEFAULT_STACK_SIZE s)"
proof -
  assume s: "armed s"
  have reg: "algo_ram_region sample_arm_cfg = Some \<lparr>rr_start = 0x20000000, rr_end = 0x20008000\<rparr>"
    by (simp add: algo_ram_region_def sample_arm_cfg_def sample_swd_cfg_def contains_range_def)
  let ?s = "vcall (sample_hw m) Swd_wait_until_halted (vcall (sample_hw m) Swd_halt_target
        (vcall (sample_hw m) (Swd_init_debug 1000)
          (s\<lparr>sw_stack_size := DEFAULT_STACK_SIZE, sw_ram_start_addr := 0x20000000, sw_ram_size := 0x8000\<rparr>)))"
  obtain s' where "load_flash_algorithm (sample_hw m) sample_arm_cfg ?s = (ESP_OK, s')"
    using arm_load [of ?s m sample_arm_cfg] s by (auto elim: ok_inE)
  then show ?thesis
    unfolding swd_prog_init_def reg
    by (simp add: sample_run rr_size_def contains_range_def arm_algo sample_swd_cfg_def empty_algorithm_def DEFAULT_STACK_SIZE_def ok_in_def)
qed

lemma arm_ensure: "armed s \<Longrightarrow> ok_in armed (ensure_inited (sample_hw m) sample_arm_cfg mode s)"
proof -
  assume s: "armed s"
  obtain s1 where l: "load_flash_algorithm (sample_hw m) sample_arm_cfg s = (ESP_OK, s1)" "armed s1"
    using arm_load [OF s, of m sample_arm_cfg] by (rule ok_inE)
  then have "ok_in armed (algo_init_loop (sample_hw m) sample_arm_cfg mode (Suc n) s)" for n
    by (simp add: sample_run arm_algo sample_swd_cfg_def ok_in_def)
  then show ?thesis using s by (simp add: ensure_inited_def run_algo_init_def ok_in_def numeral_3_eq_3)
qed

lemma arm_uninit: "armed s \<Longrightarrow> ok_in armed (run_algo_uninit (sample_hw m) sample_arm_cfg mode s)"
  unfolding run_algo_uninit_def by (simp add: sample_run arm_algo sample_swd_cfg_def ok_in_def)

lemma arm_erase: "armed s \<Longrightarrow> ok_in armed (swd_erase (sample_hw m) sample_arm_cfg s)"
proof -
  assume s: "armed s"
  obtain s1 where e: "ensure_inited (sample_hw m) sample_arm_cfg MODE_ERASE s = (ESP_OK, s1)" "armed s1"
    by (rule ok_inE [OF arm_ensure [OF s, of m MODE_ERASE]])
  let ?s = "vcall (sample_hw m) Swd_wait_until_halted (vcall (sample_hw m) Swd_halt_target s1)"
  obtain s2 where l: "erase_loop (sample_hw m) 0x20000027 0x8000000 8 2 0 ?s = (ESP_OK, s2)" "armed s2"
    by (rule works_keepingE [OF loops_work(3) [OF sample_hw_works(1), where s = ?s]]) (simp add: e(2))
  obtain s3 where "run_algo_uninit (sample_hw m) sample_arm_cfg MODE_ERASE s2 = (ESP_OK, s3)" "armed s3"
    by (rule ok_inE [OF arm_uninit [OF l(2), of m MODE_ERASE]])
  with e l show ?thesis
    by (simp add: swd_erase_def erase_chip_def erase_sector_def arm_algo sample_cfg_fields halt_target_def sample_run ok_in_def)
qed

lemma arm_program:
  assumes "armed s"
  shows "\<exists>s'. program_file (sample_hw m) sample_arm_cfg sample_arm_files FIRMWARE_PATH 0 UINT32_MAX s = (ESP_OK, 4, s') \<and> armed s'"
proof -
  let ?s = "vcall (sample_hw m) (Fopen FIRMWARE_PATH) s"
  have op: "fopen_retry (sample_hw m) sample_arm_files FIRMWARE_PATH 5 s = (Some [8, 8, 8, 8], ?s)"
    by (rule fopen_retry_works [OF sample_hw_works(1)]) (simp_all add: sample_arm_files_def)
  obtain s1 where e: "ensure_inited (sample_hw m) sample_arm_cfg MODE_PROGRAM ?s = (ESP_OK, s1)" "armed s1"
    using arm_ensure [of ?s m MODE_PROGRAM] assms by (auto elim: ok_inE)
  have cfg: "fa_page_size (cfg_algo sample_arm_cfg) = Some 8" "fa_pc_program_page (cfg_algo sample_arm_cfg) = Some 0x20000025"
      "fa_flash_start (cfg_algo sample_arm_cfg) = Some 0x8000000"
    by (simp_all add: arm_algo sample_swd_cfg_def)
  let ?pa = "\<lparr>pa_page_size = 8, pa_pc = 0x20000025, pa_addr_offset = 0x8000000\<rparr>"
  let ?d = "sw_ram_start_addr s1 + sw_ram_size s1 \<ge> sw_stack_top s1 + sw_stack_size s1 + 8 * 2"
  obtain s2 where p: "(if ?d then perform_double_buffered_program (sample_hw m) ?pa 4 [8, 8, 8, 8] s1
      else perform_simple_program (sample_hw m) ?pa 4 [8, 8, 8, 8] s1) = (ESP_OK, s2)" "armed s2"
    using programming_works [OF sample_hw_works(1), of ?pa s1 ?d m 4 "[8, 8, 8, 8]"] e(2)
    by (auto elim: works_keepingE)
  obtain s3 where "run_algo_uninit (sample_hw m) sample_arm_cfg MODE_PROGRAM s2 = (ESP_OK, s3)" "armed s3"
    by (rule ok_inE [OF arm_uninit [OF p(2), of m MODE_PROGRAM]])
  with p(1) e(1) show ?thesis
    unfolding program_file_def op cfg by (simp add: Let_def)
qed

lemma arm_verify:
  assumes "armed s"
  shows "ok_in armed (verify (sample_hw (\<lambda>_. 8)) sample_arm_cfg sample_arm_files FIRMWARE_PATH UINT32_MAX 4 s)"
  using assms
  by (simp add: verify_def sample_run ecall_def arm_algo sample_swd_cfg_def sample_arm_files_def verify_loop.simps
      ok_in_def sample_hw_def buffer_of_def mem_bytes_def upt_rec fread_def hcall_snd vcall_eq check_def)

lemma arm_begin: "armed s \<Longrightarrow> ok_in armed (swd_begin_session (sample_hw m) s)"
  by (simp add: swd_begin_session_def sample_run ecall_def ok_in_def)

lemma sample_arm_works:
  "backend_works (\<lambda>w. armed (dv_swd w)) (\<lambda>n. n = 4) (device_rtos sample_rig)
     (device_backend sample_rig sample_arm_cfg sample_arm_files swd_cortex_m)"
  unfolding backend_works_def
proof (intro allI impI conjI)
  fix w :: device and l n
  assume w: "armed (dv_swd w)"
  let ?be = "device_backend sample_rig sample_arm_cfg sample_arm_files swd_cortex_m"
  note be = device_backend_def lift_backend_def swd_cortexm_backend_def sample_rig_def on_part_def case_prod_unfold ok_in_def
  show "ok_in (\<lambda>w. armed (dv_swd w)) (be_begin_session ?be w)" using arm_begin [OF w, of "\<lambda>_. 8"] by (simp add: be)
  show "ok_in (\<lambda>w. armed (dv_swd w)) (be_detect ?be w)" using arm_init [OF w, of "\<lambda>_. 8"] by (simp add: be swd_detect_def)
  show "ok_in (\<lambda>w. armed (dv_swd w)) (be_erase ?be w)" using arm_erase [OF w, of "\<lambda>_. 8"] by (simp add: be)
  show "\<exists>n w'. be_program ?be l w = (ESP_OK, n, w') \<and> n = 4 \<and> armed (dv_swd w')"
    using arm_program [OF w, of "\<lambda>_. 8"] by (auto simp: be on_part_val_def swd_program_def)
  show "ok_in (\<lambda>w. armed (dv_swd w)) (be_verify ?be n w)" if "n = 4"
    using arm_verify [OF w] that by (simp add: be swd_verify_def)
  show "armed (dv_swd (snd (be_reset_target ?be w)))" using w by (simp add: be swd_reset_target_def trigger_nrst_def)
  show "armed (dv_swd (rt_delay (device_rtos sample_rig) 1 w))" using w by (simp add: device_rtos_def)
qed

lemma sample_arm_run_passes:
  "\<exists>f'. run_loop sample_arm_run (\<lambda>_. False) 0 (fl_init sample_arm_run sample_device_flasher) = Some (ESP_OK, f')"
proof (rule working_run_passes)
  show "backend_works (\<lambda>w. armed (dv_swd w)) (\<lambda>n. n = 4) (ru_rtos sample_arm_run)
      (device_backend sample_rig sample_arm_cfg sample_arm_files swd_cortex_m)"
    using sample_arm_works by (simp add: sample_arm_run_def)
  show "verify_images (ru_lib sample_arm_run) (ru_env sample_arm_run) (ru_files sample_arm_run) (ru_assets sample_arm_run) = ESP_OK"
    using images_match_verify [OF _ sample_works, of "sample_lib\<lparr>lib_sha := \<lambda>_. [8]\<rparr>" sample_arm_files sample_job]
    by (simp add: sample_arm_run_def verify_images_def sample_arm_assets_def images_match_def sample_pins sample_arm_files_def)
qed (simp_all add: sample_arm_run_def sample_arm_assets_def config_def sample_arm_cfg_def sample_swd_cfg_def empty_config_def
  pre_program_steps_def post_program_steps_def non_empty_def sample_job_def used_tests_def
  fl_init_def release_backend_def sample_device_flasher_def boot_swd_def)

theorem passed_swd_run_firmware_witness:
  "\<exists>fv. run_chain sample_arm_run until_verify (fl_init sample_arm_run sample_device_flasher) fv \<and>
     mem_bytes (\<lambda>_. 8) 0x8000000 4 = [8, 8, 8, 8]"
proof -
  obtain f' where r: "run_loop sample_arm_run (\<lambda>_. False) 0 (fl_init sample_arm_run sample_device_flasher) = Some (ESP_OK, f')"
    using sample_arm_run_passes by blast
  have cfg: "config sample_arm_assets = sample_arm_cfg" by (simp add: config_def sample_arm_assets_def)
  have h: "0 < rg_tick_us sample_rig" "cfg_family (config sample_arm_assets) = swd_cortex_m" "fat_sizes sample_arm_files"
    by (simp_all add: sample_rig_def cfg sample_arm_cfg_def sample_swd_cfg_def empty_config_def fat_sizes_def sample_arm_files_def)
  obtain firmware flash_start fv where i: "sample_arm_files FIRMWARE_PATH = Some firmware"
      "fa_flash_start (cfg_algo sample_arm_cfg) = Some flash_start"
      "run_chain sample_arm_run until_verify (fl_init sample_arm_run sample_device_flasher) fv"
      "\<forall>m. reads_from (rg_hw sample_rig) (sw_log (dv_swd (fl_world fv))) m \<longrightarrow> mem_bytes m flash_start (length firmware) = firmware"
    using passed_swd_run_firmware [OF h(1) sample_adc_clock sample_arm_run_def h(2,3) r] unfolding cfg by blast
  have "reads_from (rg_hw sample_rig) (sw_log (dv_swd (fl_world fv))) (\<lambda>_. 8)"
    by (simp add: sample_rig_def sample_hw_works(3))
  with i(4) have "mem_bytes (\<lambda>_. 8) flash_start (length firmware) = firmware" by blast
  moreover have "length [8, 8, 8, 8 :: u8] = 4" by simp
  moreover have "firmware = [8, 8, 8, 8]" "flash_start = 0x8000000"
    using i(1,2) by (simp_all add: sample_arm_files_def arm_algo sample_swd_cfg_def)
  ultimately show ?thesis using i(3) by metis
qed

theorem device_run_ends_idle_witness:
  "\<exists>ret f'. run_loop sample_arm_run (\<lambda>n. n = 3) 0 (fl_init sample_arm_run sample_device_flasher) = Some (ret, f') \<and>
     (\<forall>fam. fl_backend f' = Some fam \<longrightarrow> device_idle fam (fl_world f'))"
  using device_run_ends_idle [OF _ sample_adc_clock sample_arm_run_def] by (simp add: sample_rig_def)

end
