(* ===== verification/Production.thy ===== *)
theory Production
  imports Bootstrap_Fsm Device
begin

text \<open>
  The chain from the host's point of view: the programming task of \<open>bootstrap_fsm.cpp\<close> over the device, the record
  \<open>job_controller.cpp\<close> hands to the log, and the entry the host reads back. What the log tells about a run is what
  happened to the flash of the target.
\<close>

section \<open>What is relied on\<close>

text \<open>
  An entry that was appended is the next one after those that were there, and is read back unchanged by a buffer that
  is large enough.
\<close>

definition store_keeps :: "'s rstore \<Rightarrow> bool" where
  "store_keeps rs \<longleftrightarrow> (\<forall>st ty b st' cap. rs_append_entry rs st ty b = (ESP_OK, st') \<longrightarrow> length b \<le> cap \<longrightarrow>
     (\<exists>buf h. rs_read_next_entry rs st' (rs_newest_id rs st + 1) cap = (ESP_OK, buf, h) \<and>
        eh_type h = ty \<and> take (eh_len h) buf = b))"

text \<open>An encoded run record fits into the field of a log entry.\<close>

definition run_fits :: "log_pb \<Rightarrow> bool" where
  "run_fits pb \<longleftrightarrow> (\<forall>r b. pb_encode_run pb r = Some b \<longrightarrow> length b \<le> pb_record_cap pb)"

section \<open>From a run to its record\<close>

lemma run_env_of_device:
  "run_env_of (device_run rig (sl_lib sl) env (sy_files s) (sy_assets s) sg ad fp) sl s =
     device_run rig (sl_lib sl) env (sy_files s) (sy_assets s) sg ad fp"
  by (simp add: run_env_of_def device_run_def)

text \<open>The record of a run that ended with \<open>ret\<close> in a system \<open>s\<close>.\<close>

definition final_record :: "'s sys_lib \<Rightarrow> esp_err \<Rightarrow> pg_state \<Rightarrow> u32 \<Rightarrow> 's sys \<Rightarrow> run_record" where
  "final_record sl ret failed dur s =
     run_record_of sl ret (s\<lparr>sy_ctrl := finish_result ret failed dur (sy_ctrl s)\<rparr>)"

lemma final_record_simps [simp]:
  "res_run_id (rec_result (final_record sl ret failed dur s)) = jc_last_run_id (sy_ctrl s)"
  "rec_job_sha256 (final_record sl ret failed dur s) = am_sha256 (sy_assets s)"
  "res_outcome (rec_result (final_record sl ret failed dur s)) = OUTCOME_PASS \<longleftrightarrow> ret = ESP_OK"
  "ret \<noteq> ESP_OK \<Longrightarrow> res_failed_stage (rec_result (final_record sl ret failed dur s)) = to_stage failed"
  by (simp_all add: final_record_def run_record_of_def finish_result_def)

lemma finish_run_log:
  "sy_log (finish_run sl ret failed dur s) =
     add_run (sl_rstore sl) (sl_pb sl) (final_record sl ret failed dur s) (sy_log s)"
  by (simp add: finish_run_def record_run_def final_record_def Let_def)

text \<open>What the log calls the stages of a run, as the pairs a reader of it has to know.\<close>

definition log_names :: "(pg_state \<times> stage) list" where
  "log_names = [(LOAD_ASSET, STAGE_LOAD), (PRE_PROGRAM, STAGE_PRE_PROGRAM), (DETECT, STAGE_DETECT), (ERASE, STAGE_ERASE),
     (PROGRAM, STAGE_PROGRAM), (VERIFY, STAGE_VERIFY), (SELF_TEST, STAGE_SELF_TEST), (POST_PROGRAM, STAGE_POST_PROGRAM),
     (SG_CURRENT_TEST, STAGE_CURRENT_TEST)]"

text \<open>
  The run got through the stages before \<open>st\<close> and no further: \<open>st\<close> did not pass from the state it was entered in, or the
  run was cancelled there.
\<close>

definition stopped_at :: "'w run_env \<Rightarrow> (nat \<Rightarrow> bool) \<Rightarrow> 'w flasher \<Rightarrow> pg_state \<Rightarrow> bool" where
  "stopped_at ru cancel f st \<longleftrightarrow>
     (\<exists>before rest fd. stages ru = before @ st # rest \<and> run_chain ru before f fd \<and>
        (cancel (length before) \<or> (\<forall>f1. \<not> stage_passed ru st fd f1)))"

lemma run_ends_stopped:
  assumes "run_ends ru cancel 0 (stages ru) f ret f'" and "ret \<noteq> ESP_OK"
  shows "stopped_at ru cancel f (fl_failed_state f')"
proof -
  from assms(1) obtain before rest fd where e: "stages ru = before @ rest" "run_chain ru before f fd"
      "case rest of [] \<Rightarrow> ret = ESP_OK \<and> fl_failed_state f' = DONE
        | s # _ \<Rightarrow> ret = ESP_FAIL \<and> fl_failed_state f' = s \<and> (cancel (0 + length before) \<or> (\<forall>f1. \<not> stage_passed ru s fd f1))"
    unfolding run_ends_def by blast
  from e(3) assms(2) obtain l where "rest = fl_failed_state f' # l" by (cases rest) auto
  with e assms(2) show ?thesis
    unfolding stopped_at_def by (intro exI [of _ before] exI [of _ l] exI [of _ fd]) auto
qed

lemma stage_named: "is_stage ru s \<Longrightarrow> (s, to_stage s) \<in> set log_names"
  by (erule is_stage_cases) (simp_all add: log_names_def)

lemma stopped_named: "stopped_at ru cancel f st \<Longrightarrow> (st, to_stage st) \<in> set log_names"
  by (rule stage_named [of ru]) (auto simp: stopped_at_def is_stage_def)

lemma run_job_record:
  assumes "clocks_advance run" and "run_job sl run cancel b = Some b'"
  obtains ret f' dur where
    "run_loop (run_env_of run sl (bf_sys b)) cancel 0 (fl_init (run_env_of run sl (bf_sys b)) (bf_flasher b)) = Some (ret, f')"
    "bf_sys b' = finish_run sl ret (fl_failed_state f') dur (bf_sys b)"
    "ret = ESP_OK \<or> stopped_at (run_env_of run sl (bf_sys b)) cancel
       (fl_init (run_env_of run sl (bf_sys b)) (bf_flasher b)) (fl_failed_state f')"
proof -
  let ?ru = "run_env_of run sl (bf_sys b)"
  obtain ret f' where r: "run_loop ?ru cancel 0 (fl_init ?ru (bf_flasher b)) = Some (ret, f')"
      and e: "run_ends ?ru cancel 0 (stages ?ru) (fl_init ?ru (bf_flasher b)) ret f'"
    using run_from_init [of ?ru cancel "bf_flasher b"] assms(1) by (auto simp: clocks_advance_env)
  from assms(2) r obtain dur where "bf_sys b' = finish_run sl ret (fl_failed_state f') dur (bf_sys b)"
    by (auto simp: run_job_def Let_def)
  with that [OF r] run_ends_stopped [OF e] show thesis by blast
qed

section \<open>From the record to the host\<close>

lemma add_run_read_back:
  assumes "store_keeps (sl_rstore sl)" and "run_fits (sl_pb sl)"
    and "\<not> pl_write_failed (add_run (sl_rstore sl) (sl_pb sl) record l)"
  shows "\<exists>e. read_entry (sl_rstore sl) (sl_pb sl) (add_run (sl_rstore sl) (sl_pb sl) record l)
       (rs_newest_id (sl_rstore sl) (pl_store l)) = Inr e \<and>
     le_type e = LOG_ENTRY_RUN \<and> pb_encode_run (sl_pb sl) record = Some (le_record e)"
proof -
  let ?rs = "sl_rstore sl" let ?pb = "sl_pb sl" let ?i = "rs_newest_id ?rs (pl_store l) + 1"
  from assms(3) obtain b st where b: "pb_encode_run ?pb record = Some b"
      and a: "rs_append_entry ?rs (pl_store l) ENTRY_RUN b = (ESP_OK, st)"
    by (auto simp: add_run_def split: option.splits prod.splits if_splits)
  have st: "pl_store (add_run ?rs ?pb record l) = st" by (simp add: add_run_def a b)
  have "length b \<le> pb_record_cap ?pb" using assms(2) b by (simp add: run_fits_def)
  with assms(1) a obtain buf h where "rs_read_next_entry ?rs st ?i (pb_record_cap ?pb) = (ESP_OK, buf, h)"
      "eh_type h = ENTRY_RUN" "take (eh_len h) buf = b"
    unfolding store_keeps_def by metis
  with st b show ?thesis by (auto simp: read_entry_def Let_def split: option.splits)
qed

section \<open>Properties\<close>

text \<open>
  C1: The production log tells the truth. Once a run of the programming task on the device is over and its record
  could be written, the first entry after those the log held before is the record of this run, with its id and the
  hash of the active job. If it says the run passed, the images have the hashes the job pins and the flash of the
  target, as it reads back in the verification stage of this run, holds them; if not, it names the stage at which the
  run stopped: all stages before it passed, and it did not pass itself or the run was cancelled there.
\<close>

theorem log_tells_the_truth:
  assumes "0 < rg_tick_us rig" and "adc_clock ad (device_rtos rig)"
    and "store_keeps (sl_rstore sl)" and "run_fits (sl_pb sl)" and "fat_sizes (sy_files (bf_sys b))"
    and run: "run = device_run rig (sl_lib sl) env (sy_files (bf_sys b)) (sy_assets (bf_sys b)) sg ad fp"
    and "run_job sl run cancel b = Some b'" and "\<not> pl_write_failed (sy_log (bf_sys b'))"
  shows "\<exists>e record.
     read_entry (sl_rstore sl) (sl_pb sl) (sy_log (bf_sys b'))
       (rs_newest_id (sl_rstore sl) (pl_store (sy_log (bf_sys b)))) = Inr e \<and>
     le_type e = LOG_ENTRY_RUN \<and> pb_encode_run (sl_pb sl) record = Some (le_record e) \<and>
     res_run_id (rec_result record) = jc_last_run_id (sy_ctrl (bf_sys b)) \<and>
     rec_job_sha256 record = am_sha256 (sy_assets (bf_sys b)) \<and>
     (if res_outcome (rec_result record) = OUTCOME_PASS
      then \<exists>job fv. am_job (sy_assets (bf_sys b)) = Some job \<and> images_match (sl_lib sl) (sy_files (bf_sys b)) job \<and>
        run_chain run until_verify (fl_init run (bf_flasher b)) fv \<and>
        flashed rig (config (sy_assets (bf_sys b))) (sy_files (bf_sys b)) (fl_world fv)
      else \<exists>st. stopped_at run cancel (fl_init run (bf_flasher b)) st \<and>
        (st, res_failed_stage (rec_result record)) \<in> set log_names)"
proof -
  have clk: "clocks_advance run" using device_clock [OF assms(1,2)] by (simp add: run)
  obtain ret f' dur where
      r: "run_loop run cancel 0 (fl_init run (bf_flasher b)) = Some (ret, f')"
      and s: "bf_sys b' = finish_run sl ret (fl_failed_state f') dur (bf_sys b)"
      and st: "ret = ESP_OK \<or> stopped_at run cancel (fl_init run (bf_flasher b)) (fl_failed_state f')"
    by (rule run_job_record [OF clk assms(7)]) (simp add: run run_env_of_device)
  let ?rec = "final_record sl ret (fl_failed_state f') dur (bf_sys b)"
  have log: "sy_log (bf_sys b') = add_run (sl_rstore sl) (sl_pb sl) ?rec (sy_log (bf_sys b))"
    by (simp add: s finish_run_log)
  from add_run_read_back [OF assms(3,4), of ?rec "sy_log (bf_sys b)"] assms(8) log obtain e where
    e: "read_entry (sl_rstore sl) (sl_pb sl) (sy_log (bf_sys b'))
          (rs_newest_id (sl_rstore sl) (pl_store (sy_log (bf_sys b)))) = Inr e"
       "le_type e = LOG_ENTRY_RUN" "pb_encode_run (sl_pb sl) ?rec = Some (le_record e)" by auto
  show ?thesis
  proof (cases "ret = ESP_OK")
    case True
    with passed_run_flashed [OF assms(1,2) run assms(5)] r e show ?thesis by (intro exI [of _ e] exI [of _ ?rec]) simp
  next
    case False
    with st have at: "stopped_at run cancel (fl_init run (bf_flasher b)) (fl_failed_state f')" by simp
    from False e at stopped_named [OF at] show ?thesis by (intro exI [of _ e] exI [of _ ?rec]) auto
  qed
qed

lemma finished_refuses:
  assumes "bf_sys b' = finish_run sl ret failed dur s" and "pl_write_failed (sy_log (bf_sys b'))" and "am_job (sy_assets s) \<noteq> None"
  shows "fst (request_run sl (bf_sys b')) = Inl ESP_FAIL" "\<not> fst (begin_auto_run sl (bf_sys b'))"
proof -
  have "\<not> jc_running (sy_ctrl (bf_sys b'))" "sy_assets (bf_sys b') = sy_assets s"
    by (simp_all add: assms(1) finish_run_def finish_clear_def record_run_def Let_def)
  with assms(2,3) show "fst (request_run sl (bf_sys b')) = Inl ESP_FAIL" "\<not> fst (begin_auto_run sl (bf_sys b'))"
    by (simp_all add: request_run_def request_run_locked_def begin_auto_run_def check_space_def)
qed

text \<open>
  C8: A run the host has asked for comes to an end the host can see. When \<open>request_run\<close> has answered with a run id, and
  as long as the clocks advance and the current test returns (\<open>clocks_advance\<close>), the programming task finishes the run in its next turn, and the status shows a result under
  this id with no run in progress. If the record of the run could be encoded and appended, it is the first entry after
  those the log held before: under this id, started by the host, with the hash of the active job and the result the
  status shows. If it could not, the loss is not passed over: the next request is refused with \<open>ESP_FAIL\<close> and no
  detected target starts a run.
\<close>

theorem requested_run_reported:
  assumes "clocks_advance run" and "store_keeps (sl_rstore sl)" and "run_fits (sl_pb sl)"
    and "request_run sl (bf_sys b) = (Inr run_id, s)"
  shows "\<exists>b' record. run_fsm_task sl run cancel (b\<lparr>bf_sys := s\<rparr>) = Some b' \<and>
     \<not> js_running (get_status sl (bf_sys b')) \<and> js_last_result (get_status sl (bf_sys b')) = rec_result record \<and>
     res_run_id (rec_result record) = run_id \<and>
     (if run_written (sl_rstore sl) (sl_pb sl) record (sy_log (bf_sys b))
      then \<exists>e. read_entry (sl_rstore sl) (sl_pb sl) (sy_log (bf_sys b'))
            (rs_newest_id (sl_rstore sl) (pl_store (sy_log (bf_sys b)))) = Inr e \<and>
          le_type e = LOG_ENTRY_RUN \<and> pb_encode_run (sl_pb sl) record = Some (le_record e) \<and>
          rec_trigger record = TRIGGER_MANUAL \<and> rec_job_sha256 record = am_sha256 (sy_assets (bf_sys b))
      else fst (request_run sl (bf_sys b')) = Inl ESP_FAIL \<and> \<not> fst (begin_auto_run sl (bf_sys b')))"
proof -
  from assms(4) have sp: "check_space (sl_rstore sl) (sl_pb sl) (sy_log (bf_sys b)) = ESP_OK"
      and s: "s = (bf_sys b)\<lparr>sy_ctrl := start_run_locked TRIGGER_MANUAL (sy_ctrl (bf_sys b)), sy_run_bit := True\<rparr>"
      and id: "run_id = jc_last_run_id (sy_ctrl s)" and job: "am_job (sy_assets (bf_sys b)) \<noteq> None"
    by (auto simp: request_run_def request_run_locked_def Let_def ERR_RUNNING_def start_run_locked_def
        split: sum.splits prod.splits if_splits)
  let ?b = "b\<lparr>bf_connected := False, bf_sys := s\<lparr>sy_run_bit := False\<rparr>\<rparr>"
  have t: "run_fsm_task sl run cancel (b\<lparr>bf_sys := s\<rparr>) = run_job sl run cancel ?b"
    by (simp add: run_fsm_task_def Let_def s)
  obtain b' where b': "run_job sl run cancel ?b = Some b'" using run_job_finishes [OF assms(1)] by blast
  obtain ret failed dur where e: "bf_sys b' = finish_run sl ret failed dur (bf_sys ?b)"
    by (rule run_job_record [OF assms(1) b']) blast
  let ?rec = "final_record sl ret failed dur (bf_sys ?b)" let ?l = "sy_log (bf_sys b)"
  let ?w = "run_written (sl_rstore sl) (sl_pb sl) ?rec ?l"
  have log: "sy_log (bf_sys b') = add_run (sl_rstore sl) (sl_pb sl) ?rec ?l" by (simp add: e finish_run_log s)
  have w: "pl_write_failed (sy_log (bf_sys b')) = (\<not> ?w)"
    using sp by (simp add: log add_run_failed check_space_def split: if_splits)
  have rc: "rec_trigger ?rec = TRIGGER_MANUAL" "rec_job_sha256 ?rec = am_sha256 (sy_assets (bf_sys b))"
    by (simp_all add: final_record_def run_record_of_def finish_result_def s start_run_locked_def)
  have st: "\<not> js_running (get_status sl (bf_sys b'))" "js_last_result (get_status sl (bf_sys b')) = rec_result ?rec"
    by (simp_all add: e get_status_def finish_run_def finish_clear_def record_run_def final_record_def run_record_of_def
        Let_def)
  show ?thesis
  proof (cases ?w)
    case True
    with add_run_read_back [OF assms(2,3), of ?rec ?l] w log t b' rc st id show ?thesis
      by (intro exI [of _ b'] exI [of _ ?rec]) simp
  next
    case False
    with finished_refuses [OF e] w job s t b' st id show ?thesis by (intro exI [of _ b'] exI [of _ ?rec]) simp
  qed
qed

section \<open>A concrete chain\<close>

text \<open>A store that numbers its entries from one and holds up to a hundred.\<close>

type_synonym seq_store = "(u16 \<times> bytes) list"

definition seq_rstore :: "seq_store rstore" where
  "seq_rstore = \<lparr>
     rs_can_append = (\<lambda>st _. length st < 100),
     rs_append_entry = (\<lambda>st ty b. if length st < 100 then (ESP_OK, st @ [(ty, b)]) else (ESP_ERR_NO_MEM, st)),
     rs_append_time_anchor = (\<lambda>st _. (ESP_OK, st)),
     rs_read_next_entry = (\<lambda>st i n.
        if 0 < unat i \<and> unat i \<le> length st
        then case st ! (unat i - 1) of (ty, b) \<Rightarrow>
          (if length b \<le> n then ESP_OK else ESP_ERR_INVALID_SIZE, b,
           \<lparr>eh_entry_id = i, eh_type = ty, eh_len = length b, eh_uptime_us = 0\<rparr>)
        else (ESP_ERR_NOT_FOUND, [], \<lparr>eh_entry_id = 0, eh_type = 0, eh_len = 0, eh_uptime_us = 0\<rparr>)),
     rs_get_entry_utc = (\<lambda>_ _. None),
     rs_set_acked = (\<lambda>st _. (ESP_OK, st)),
     rs_newest_id = (\<lambda>st. of_nat (length st)),
     rs_acked_id = (\<lambda>_. 0),
     rs_boot_event_type = 2, rs_boot_event_size = 4, rs_reset_reason = (\<lambda>_. 0)\<rparr>"

definition seq_sys_lib :: "seq_store sys_lib" where
  "seq_sys_lib = \<lparr>sl_lib = sample_lib, sl_rstore = seq_rstore, sl_pb = byte_pb,
     sl_trigger_code = (\<lambda>t. if t = TRIGGER_AUTO_ON_DETECT then 1 else 0), sl_name_cap = 32\<rparr>"

lemma seq_store_keeps: "store_keeps seq_rstore"
proof -
  have "unat (of_nat n + 1 :: u64) = Suc n" if "n < 100" for n
    using that take_bit_nat_eq_self [of "Suc n" 64] by (simp add: unat_word_ariths unat_of_nat)
  then show ?thesis by (auto simp: store_keeps_def seq_rstore_def split: if_splits)
qed

lemma seq_lib [simp]: "sl_lib seq_sys_lib = sample_lib" "sl_rstore seq_sys_lib = seq_rstore" "sl_pb seq_sys_lib = byte_pb"
  by (simp_all add: seq_sys_lib_def)

lemma byte_run_fits: "run_fits byte_pb"
  by (simp add: run_fits_def byte_pb_def)

text \<open>A device with an ESP32 job on it.\<close>

definition esp_station :: "(seq_store, device) fsm" where
  "esp_station = \<lparr>bf_sys = \<lparr>sy_ctrl = ctrl_boot, sy_assets = sample_esp_assets, sy_store = empty_store,
       sy_files = sample_esp_files, sy_log = \<lparr>pl_store = [], pl_time_set = False, pl_write_failed = False\<rparr>,
       sy_nvs = None, sy_run_bit = False\<rparr>,
     bf_flasher = sample_device_flasher, bf_connected = False,
     bf_last_det_state = False, bf_usb_powered = False, bf_run_lock = 0, bf_usb_lock = 0,
     bf_intr = (\<lambda>_. False), bf_wake_high = (\<lambda>_. False), bf_timer = False, bf_ui = []\<rparr>"

lemma station_written: "run_written seq_rstore byte_pb record (sy_log (bf_sys esp_station))"
  by (simp add: run_written_def byte_pb_def seq_rstore_def esp_station_def)

lemma station_run: "sample_esp_run = device_run sample_rig (sl_lib seq_sys_lib) sample_asset_env
    (sy_files (bf_sys esp_station)) (sy_assets (bf_sys esp_station)) False idle_adc int_fp"
  by (simp add: sample_esp_run_def esp_station_def)

lemma station_run_passes:
  "\<exists>b'. run_job seq_sys_lib sample_esp_run (\<lambda>_. False) esp_station = Some b' \<and> \<not> pl_write_failed (sy_log (bf_sys b')) \<and>
     res_outcome (jc_last_result (sy_ctrl (bf_sys b'))) = OUTCOME_PASS"
proof -
  obtain f' where "run_loop sample_esp_run (\<lambda>_. False) 0 (fl_init sample_esp_run sample_device_flasher) = Some (ESP_OK, f')"
    using sample_esp_run_passes by blast
  moreover have "run_env_of sample_esp_run seq_sys_lib (bf_sys esp_station) = sample_esp_run"
    using station_run run_env_of_device by metis
  moreover have "bf_flasher esp_station = sample_device_flasher" by (simp add: esp_station_def)
  ultimately show ?thesis
    by (simp add: run_job_def Let_def finish_run_def finish_result_def finish_clear_def record_run_def add_run_def byte_pb_def
        seq_rstore_def esp_station_def)
qed

theorem log_tells_the_truth_witness:
  "\<exists>b' e. run_job seq_sys_lib sample_esp_run (\<lambda>_. False) esp_station = Some b' \<and>
     read_entry seq_rstore byte_pb (sy_log (bf_sys b')) 0 = Inr e \<and> le_type e = LOG_ENTRY_RUN"
proof -
  obtain b' where b': "run_job seq_sys_lib sample_esp_run (\<lambda>_. False) esp_station = Some b'"
      "\<not> pl_write_failed (sy_log (bf_sys b'))" using station_run_passes by blast
  have "0 < rg_tick_us sample_rig" "fat_sizes (sy_files (bf_sys esp_station))"
    using sample_fat by (simp_all add: sample_rig_def esp_station_def)
  with log_tells_the_truth [of sample_rig idle_adc seq_sys_lib esp_station, OF _ sample_adc_clock _ _ _ station_run b']
  obtain e where "read_entry seq_rstore byte_pb (sy_log (bf_sys b'))
      (rs_newest_id seq_rstore (pl_store (sy_log (bf_sys esp_station)))) = Inr e" "le_type e = LOG_ENTRY_RUN"
    by (auto simp: seq_store_keeps byte_run_fits)
  moreover have "rs_newest_id seq_rstore (pl_store (sy_log (bf_sys esp_station))) = 0"
    by (simp add: seq_rstore_def esp_station_def)
  ultimately show ?thesis using b'(1) by auto
qed

theorem requested_run_reported_witness:
  "\<exists>b' e. run_fsm_task seq_sys_lib sample_esp_run (\<lambda>n. n = 2)
       (esp_station\<lparr>bf_sys := snd (request_run seq_sys_lib (bf_sys esp_station))\<rparr>) = Some b' \<and>
     read_entry seq_rstore byte_pb (sy_log (bf_sys b')) 0 = Inr e \<and> le_record e = [1]"
proof -
  obtain s where s: "request_run seq_sys_lib (bf_sys esp_station) = (Inr 1, s)"
    by (simp add: request_run_def request_run_locked_def esp_station_def ctrl_boot_def start_run_locked_def
        sample_esp_assets_def check_space_def seq_rstore_def)
  have clk: "clocks_advance sample_esp_run"
    using device_clock [OF _ sample_adc_clock] by (simp add: sample_esp_run_def sample_rig_def)
  have n: "rs_newest_id seq_rstore (pl_store (sy_log (bf_sys esp_station))) = 0"
    by (simp add: seq_rstore_def esp_station_def)
  from requested_run_reported [OF clk _ _ s, where cancel = "\<lambda>n. n = 2"] obtain b' e rc where
    "run_fsm_task seq_sys_lib sample_esp_run (\<lambda>n. n = 2) (esp_station\<lparr>bf_sys := s\<rparr>) = Some b'"
    "read_entry seq_rstore byte_pb (sy_log (bf_sys b')) 0 = Inr e"
    "pb_encode_run byte_pb rc = Some (le_record e)" "res_run_id (rec_result rc) = 1"
    by (auto simp: seq_store_keeps byte_run_fits n station_written)
  then show ?thesis using s by (auto simp: byte_pb_def)
qed

end
