(* ===== verification/Modem_Manager.thy ===== *)
theory Modem_Manager
  imports Si_Prelude
begin

text \<open>
  \<open>main/comm/modem_manager.cpp\<close>: the cellular link. The modem library, the UART, GPIO, power management
  and RTOS calls are one oracle that answers a call from the history of calls, \<open>mm_log\<close>. Events of the
  network stack are handled on another task; \<open>mr_events\<close> are those that arrive while a call is in
  progress. \<open>mm_fault\<close> is set where the code would go through a null \<open>dce\<close>. Calls whose result is
  ignored and that change nothing the code reads again are still part of the history.
\<close>

section \<open>The library and the drivers\<close>

datatype modem_pin = CELL_PWRKEY_PIN | CELL_RST_PIN | CELL_DTR_PIN | CELL_LED_PIN | CELL_RTS_PIN | CELL_CTS_PIN

datatype modem_mode = COMMAND_MODE | DATA_MODE

datatype modem_call =
    Netif_init
  | Event_loop_create
  | Gpio_config "modem_pin list"
  | Gpio_set modem_pin nat
  | Gpio_reset modem_pin
  | Gpio_direction modem_pin
  | Gpio_pull modem_pin
  | Gpio_sleep_sel_dis modem_pin
  | Netif_new
  | Register_ip_event
  | Register_ppp_event
  | Event_group_create
  | Task_create
  | Pm_lock_create
  | Pm_lock_acquire
  | Pm_lock_release
  | Pm_lock_delete
  | Delay_ms nat
  | Delay_max
  | Uart_is_installed
  | Uart_driver_delete
  | Dte_create
  | Dce_build
  | Dce_sync
  | Dce_set_baud nat
  | Uart_set_baudrate nat
  | Dce_at string nat
  | Dce_set_flow_control nat nat
  | Uart_wait_tx_done
  | Uart_set_hw_flow_ctrl
  | Dce_get_imei
  | Dce_get_mode
  | Dce_set_mode modem_mode
  | Wait_connected nat
  | Wait_link_down

datatype modem_event = Ip_got | Ip_lost | Ip_other | Ppp_status int

text \<open>
  \<open>mr_err\<close> answers calls that return a code, \<open>mr_ok\<close> those that return a pointer, a flag or a
  \<open>command_result\<close>.
\<close>

record modem_resp =
  mr_err :: esp_err
  mr_ok :: bool
  mr_out :: string
  mr_mode :: modem_mode
  mr_events :: "modem_event list"

record modem_env =
  me_hw :: "modem_call list \<Rightarrow> modem_resp"
  me_PPP_ERRORNONE :: int
  me_PPP_ERRORLOOPBACK :: int

section \<open>State\<close>

record modem =
  mm_inited :: bool
  mm_evt_group :: bool
  mm_connected :: bool
  mm_link_down :: bool
  mm_netif :: bool
  mm_dce :: bool
  mm_got_ip_cb :: bool
  mm_lost_ip_cb :: bool
  mm_notified :: "modem_event list"
  mm_log :: "modem_call list"
  mm_fault :: bool

definition modem_boot :: modem where
  "modem_boot = \<lparr>mm_inited = False, mm_evt_group = False, mm_connected = False, mm_link_down = False,
     mm_netif = False, mm_dce = False, mm_got_ip_cb = False, mm_lost_ip_cb = False,
     mm_notified = [], mm_log = [], mm_fault = False\<rparr>"

section \<open>Events of the network stack\<close>

text \<open>A lost link counts only while it was up.\<close>

definition link_lost :: "modem \<Rightarrow> modem" where
  "link_lost s =
     (if mm_connected s
      then let s = s\<lparr>mm_connected := False, mm_link_down := True\<rparr>
           in if mm_lost_ip_cb s then s\<lparr>mm_notified := mm_notified s @ [Ip_lost]\<rparr> else s
      else s)"

definition ip_event_handler :: "modem_event \<Rightarrow> modem \<Rightarrow> modem" where
  "ip_event_handler ev s =
     (case ev of
        Ip_got \<Rightarrow>
          let s = s\<lparr>mm_connected := True\<rparr>
          in if mm_got_ip_cb s then s\<lparr>mm_notified := mm_notified s @ [Ip_got]\<rparr> else s
      | Ip_lost \<Rightarrow> link_lost s
      | _ \<Rightarrow> s)"

definition ppp_event_handler :: "modem_env \<Rightarrow> int \<Rightarrow> modem \<Rightarrow> modem" where
  "ppp_event_handler me evt_id s =
     (if evt_id > me_PPP_ERRORNONE me \<and> evt_id \<le> me_PPP_ERRORLOOPBACK me then link_lost s else s)"

definition on_event :: "modem_env \<Rightarrow> modem_event \<Rightarrow> modem \<Rightarrow> modem" where
  "on_event me ev s = (case ev of Ppp_status evt_id \<Rightarrow> ppp_event_handler me evt_id s | _ \<Rightarrow> ip_event_handler ev s)"

section \<open>Calls\<close>

definition mcall :: "modem_env \<Rightarrow> modem_call \<Rightarrow> modem \<Rightarrow> modem_resp \<times> modem" where
  "mcall me c s =
     (let l = mm_log s @ [c]; r = me_hw me l in (r, fold (on_event me) (mr_events r) (s\<lparr>mm_log := l\<rparr>)))"

definition mcall_err :: "modem_env \<Rightarrow> modem_call \<Rightarrow> modem \<Rightarrow> esp_err \<times> modem" where
  "mcall_err me c s = (case mcall me c s of (r, s) \<Rightarrow> (mr_err r, s))"

definition mdo :: "modem_env \<Rightarrow> modem_call \<Rightarrow> modem \<Rightarrow> modem" where
  "mdo me c s = snd (mcall me c s)"

text \<open>A call through \<open>dce->\<close>.\<close>

definition dcall :: "modem_env \<Rightarrow> modem_call \<Rightarrow> modem \<Rightarrow> modem_resp \<times> modem" where
  "dcall me c s = mcall me c (if mm_dce s then s else s\<lparr>mm_fault := True\<rparr>)"

text \<open>
  \<open>xEventGroupWaitBits\<close> returns as soon as the bit is set: at once, or after one of the events that
  arrive while it waits. \<open>None\<close> when it waits without a limit and the bit is never set.
\<close>

fun seen :: "modem_env \<Rightarrow> (modem \<Rightarrow> bool) \<Rightarrow> modem_event list \<Rightarrow> modem \<Rightarrow> bool" where
  "seen me flag [] s = flag s"
| "seen me flag (ev # evs) s = (flag s \<or> seen me flag evs (on_event me ev s))"

definition wait_connected :: "modem_env \<Rightarrow> nat \<Rightarrow> modem \<Rightarrow> bool \<times> modem" where
  "wait_connected me timeout s =
     (case mcall me (Wait_connected timeout) s of (r, s') \<Rightarrow> (seen me mm_connected (mr_events r) s, s'))"

text \<open>The bit is cleared on return; events that arrive later come with later calls.\<close>

fun until_link_down :: "modem_env \<Rightarrow> modem_event list \<Rightarrow> modem \<Rightarrow> modem option" where
  "until_link_down me evs s =
     (if mm_link_down s then Some (fold (on_event me) evs (s\<lparr>mm_link_down := False\<rparr>))
      else case evs of [] \<Rightarrow> None | ev # evs \<Rightarrow> until_link_down me evs (on_event me ev s))"

declare until_link_down.simps [simp del]

definition wait_link_down :: "modem_env \<Rightarrow> modem \<Rightarrow> modem option" where
  "wait_link_down me s =
     (let l = mm_log s @ [Wait_link_down]
      in until_link_down me (mr_events (me_hw me l)) (s\<lparr>mm_log := l\<rparr>))"

section \<open>Starting up\<close>

definition modem_init :: "modem_env \<Rightarrow> modem \<Rightarrow> esp_err \<times> modem" where
  "modem_init me s =
     (if mm_inited s then (ESP_OK, s)
      else
        let s = mdo me Event_loop_create (mdo me Netif_init s) in
        check (mcall_err me (Gpio_config [CELL_PWRKEY_PIN, CELL_RST_PIN]) s) Pair (\<lambda>s.
        let s = fold (mdo me) [Gpio_set CELL_PWRKEY_PIN 0, Gpio_set CELL_RST_PIN 0, Gpio_reset CELL_DTR_PIN,
              Gpio_direction CELL_DTR_PIN, Gpio_pull CELL_DTR_PIN, Gpio_set CELL_DTR_PIN 0,
              Gpio_sleep_sel_dis CELL_RTS_PIN, Gpio_sleep_sel_dis CELL_CTS_PIN,
              Gpio_sleep_sel_dis CELL_PWRKEY_PIN, Gpio_sleep_sel_dis CELL_RST_PIN] s in
        check (and_then (mcall_err me (Gpio_config [CELL_LED_PIN]) s) (mcall_err me (Gpio_pull CELL_LED_PIN))) Pair (\<lambda>s.
        case mcall me Netif_new (mdo me (Gpio_set CELL_LED_PIN 0) s) of (r, s) \<Rightarrow>
        let s = s\<lparr>mm_netif := mr_ok r\<rparr> in
        if \<not> mr_ok r then (ESP_ERR_NO_MEM, s)
        else
          check (and_then (mcall_err me Register_ip_event s) (mcall_err me Register_ppp_event)) Pair (\<lambda>s.
          case mcall me Event_group_create s of (r, s) \<Rightarrow>
          let s = s\<lparr>mm_evt_group := mr_ok r\<rparr> in
          if \<not> mr_ok r then (ESP_ERR_NO_MEM, s)
          else case mcall me Task_create s of (r, s) \<Rightarrow>
            if \<not> mr_ok r then (ESP_ERR_NO_MEM, s) else (ESP_OK, s\<lparr>mm_inited := True\<rparr>)))))"

definition is_connected :: "modem \<Rightarrow> bool" where
  "is_connected s \<longleftrightarrow> mm_evt_group s \<and> mm_connected s"

definition get_netif :: "modem \<Rightarrow> bool" where
  "get_netif s = mm_netif s"

definition wait_for_connect :: "modem_env \<Rightarrow> nat \<Rightarrow> modem \<Rightarrow> esp_err \<times> modem" where
  "wait_for_connect me timeout_ticks s =
     (if \<not> mm_evt_group s then (ESP_ERR_INVALID_STATE, s)
      else case wait_connected me timeout_ticks s of (up, s) \<Rightarrow> (if up then ESP_OK else ESP_ERR_TIMEOUT, s))"

definition set_got_ip_cb :: "modem \<Rightarrow> modem" where
  "set_got_ip_cb s = s\<lparr>mm_got_ip_cb := True\<rparr>"

definition set_lost_ip_cb :: "modem \<Rightarrow> modem" where
  "set_lost_ip_cb s = s\<lparr>mm_lost_ip_cb := True\<rparr>"

section \<open>Power and setup\<close>

definition MODEM_BOOT_DELAY_MS :: nat where "MODEM_BOOT_DELAY_MS = 9500"
definition SYNC_RETRY_ATTEMPTS :: nat where "SYNC_RETRY_ATTEMPTS = 20"
definition SYNC_RETRY_DELAY_MS :: nat where "SYNC_RETRY_DELAY_MS = 500"
definition BAUD_SYNC_ATTEMPTS :: nat where "BAUD_SYNC_ATTEMPTS = 10"
definition BAUD_SYNC_DELAY_MS :: nat where "BAUD_SYNC_DELAY_MS = 100"
definition CELL_BAUD_FAST :: nat where "CELL_BAUD_FAST = 921600"

definition power_on :: "modem_env \<Rightarrow> modem \<Rightarrow> modem" where
  "power_on me s = fold (mdo me) [Gpio_set CELL_RST_PIN 1, Delay_ms 30, Gpio_set CELL_PWRKEY_PIN 1, Delay_ms 500,
     Gpio_set CELL_RST_PIN 0, Delay_ms 610, Gpio_set CELL_PWRKEY_PIN 0, Delay_ms MODEM_BOOT_DELAY_MS] s"

definition power_off :: "modem_env \<Rightarrow> modem \<Rightarrow> modem" where
  "power_off me s = fold (mdo me) [Gpio_set CELL_PWRKEY_PIN 0, Delay_ms 700, Gpio_set CELL_PWRKEY_PIN 1, Delay_ms 2000] s"

definition dispose_modem :: "modem_env \<Rightarrow> modem \<Rightarrow> modem" where
  "dispose_modem me s =
     (case mcall me Uart_is_installed (s\<lparr>mm_dce := False\<rparr>) of (r, s) \<Rightarrow>
        if mr_ok r then mdo me Uart_driver_delete s else s)"

definition hardware_reset :: "modem_env \<Rightarrow> modem \<Rightarrow> modem" where
  "hardware_reset me s =
     fold (mdo me) [Gpio_set CELL_RST_PIN 1, Delay_ms 500, Gpio_set CELL_RST_PIN 0, Delay_ms MODEM_BOOT_DELAY_MS]
       (dispose_modem me s)"

fun wait_till_synced :: "modem_env \<Rightarrow> nat \<Rightarrow> nat \<Rightarrow> modem \<Rightarrow> bool \<times> modem" where
  "wait_till_synced me 0 delay_ms s = (False, s)"
| "wait_till_synced me (Suc attempts) delay_ms s =
     (case dcall me Dce_sync s of (r, s) \<Rightarrow>
        if mr_ok r then (True, s) else wait_till_synced me attempts delay_ms (mdo me (Delay_ms delay_ms) s))"

text \<open>\<open>if (!wait_till_synced(...)) return ESP_ERR_TIMEOUT;\<close>\<close>

definition synced_or_timeout ::
  "modem_env \<Rightarrow> modem \<Rightarrow> (modem \<Rightarrow> esp_err \<times> modem) \<Rightarrow> esp_err \<times> modem" where
  "synced_or_timeout me s k =
     (case wait_till_synced me BAUD_SYNC_ATTEMPTS BAUD_SYNC_DELAY_MS s of (ok, s) \<Rightarrow>
        if ok then k s else (ESP_ERR_TIMEOUT, s))"

text \<open>From \<open>AT+CFUN=0\<close> on; the answers of the commands that only warn are not looked at.\<close>

definition setup_commands :: "modem_env \<Rightarrow> modem \<Rightarrow> esp_err \<times> modem" where
  "setup_commands me s =
     (let s = snd (dcall me (Dce_at ''AT+CFUN=0'' 300000) s);
          s = snd (dcall me (Dce_at ''AT&D0'' 300) s);
          s = snd (dcall me (Dce_at ''AT+QSCLK=1'' 300) s)
      in case dcall me (Dce_set_flow_control 2 2) s of (r, s) \<Rightarrow>
        if \<not> mr_ok r then (ESP_FAIL, s)
        else
          check (mcall_err me Uart_set_hw_flow_ctrl (mdo me Uart_wait_tx_done s)) (\<lambda>_ s. (ESP_FAIL, s)) (\<lambda>s.
          synced_or_timeout me s (\<lambda>s.
            (ESP_OK, snd (dcall me Dce_get_imei (snd (dcall me (Dce_at ''AT+CFUN=1'' 300000) s)))))))"

text \<open>From the first sync on: the modem may have been left at the fast rate by a previous session.\<close>

definition raise_baud :: "modem_env \<Rightarrow> modem \<Rightarrow> esp_err \<times> modem" where
  "raise_baud me s =
     (case wait_till_synced me SYNC_RETRY_ATTEMPTS SYNC_RETRY_DELAY_MS s of (ok, s) \<Rightarrow>
        if ok then
          (case dcall me (Dce_set_baud CELL_BAUD_FAST) s of (r, s) \<Rightarrow>
             if \<not> mr_ok r then (ESP_FAIL, s)
             else check (mcall_err me (Uart_set_baudrate CELL_BAUD_FAST) s) (\<lambda>_ s. (ESP_FAIL, s)) (\<lambda>s.
               synced_or_timeout me s (setup_commands me)))
        else synced_or_timeout me (mdo me (Uart_set_baudrate CELL_BAUD_FAST) s) (setup_commands me))"

definition setup_modem :: "modem_env \<Rightarrow> modem \<Rightarrow> esp_err \<times> modem" where
  "setup_modem me s =
     (case mcall me Dte_create (dispose_modem me s) of (r, s) \<Rightarrow>
        if \<not> mr_ok r then (ESP_FAIL, s)
        else case mcall me Dce_build s of (r, s) \<Rightarrow>
          let s = s\<lparr>mm_dce := mr_ok r\<rparr> in
          if \<not> mr_ok r then (ESP_FAIL, s)
          else raise_baud me (s\<lparr>mm_connected := False, mm_link_down := False\<rparr>))"

section \<open>Registration\<close>

text \<open>C strings: up to the first NUL; \<open>strstr\<close> gives the rest of the string from the first match.\<close>

definition c_str :: "string \<Rightarrow> string" where
  "c_str s = takeWhile (\<lambda>c. c \<noteq> CHR 0x00) s"

fun strstr :: "string \<Rightarrow> string \<Rightarrow> string option" where
  "strstr [] needle = (if needle = [] then Some [] else None)"
| "strstr (c # cs) needle = (if take (length needle) (c # cs) = needle then Some (c # cs) else strstr cs needle)"

definition is_space :: "char \<Rightarrow> bool" where
  "is_space c \<longleftrightarrow> c \<in> {CHR '' '', CHR 0x09, CHR 0x0A, CHR 0x0B, CHR 0x0C, CHR 0x0D}"

definition is_digit :: "char \<Rightarrow> bool" where
  "is_digit c \<longleftrightarrow> of_char c \<ge> (48 :: nat) \<and> of_char c \<le> (57 :: nat)"

definition digits_val :: "string \<Rightarrow> nat" where
  "digits_val ds = foldl (\<lambda>n c. 10 * n + (of_char c - 48)) 0 ds"

text \<open>\<open>strtol(p, &endptr, 10)\<close> where \<open>long\<close> has 32 bits: the value, and the string at \<open>endptr\<close>.\<close>

definition LONG_MAX :: int where "LONG_MAX = 2147483647"

definition strtol :: "string \<Rightarrow> int \<times> string" where
  "strtol p =
     (let q = dropWhile is_space p;
          neg = (q \<noteq> [] \<and> hd q = CHR ''-'');
          q = (if q \<noteq> [] \<and> (hd q = CHR ''-'' \<or> hd q = CHR ''+'') then tl q else q);
          ds = takeWhile is_digit q;
          v = int (digits_val ds)
      in if ds = [] then (0, p)
         else (if neg then max (- v) (- LONG_MAX - 1) else min v LONG_MAX, dropWhile is_digit q))"

definition parse_cereg :: "string \<Rightarrow> int" where
  "parse_cereg out =
     (case strstr (c_str out) ''+CEREG: '' of
        None \<Rightarrow> -1
      | Some prefix \<Rightarrow>
          let p = drop 8 prefix; endptr = snd (strtol p) in
          if length endptr = length p \<or> endptr = [] \<or> hd endptr \<noteq> CHR '','' then -1
          else
            let p = tl endptr; (stat, endptr) = strtol p in
            if length endptr = length p then -1 else stat)"

definition REG_MAX_ATTEMPTS :: nat where "REG_MAX_ATTEMPTS = 450"
definition REG_POLL_DELAY_MS :: nat where "REG_POLL_DELAY_MS = 2000"
definition REG_MAX_READ_FAILS :: nat where "REG_MAX_READ_FAILS = 10"

definition cereg_call :: modem_call where "cereg_call = Dce_at ''AT+CEREG?'' 300"

fun reg_loop :: "modem_env \<Rightarrow> nat \<Rightarrow> nat \<Rightarrow> modem \<Rightarrow> esp_err \<times> modem" where
  "reg_loop me 0 read_fail_cnt s = (ESP_ERR_TIMEOUT, s)"
| "reg_loop me (Suc attempts) read_fail_cnt s =
     (case dcall me cereg_call s of (r, s) \<Rightarrow>
        if \<not> mr_ok r then
          (if Suc read_fail_cnt \<ge> REG_MAX_READ_FAILS then (ESP_FAIL, s)
           else reg_loop me attempts (Suc read_fail_cnt) (mdo me (Delay_ms REG_POLL_DELAY_MS) s))
        else
          let reg_stat = parse_cereg (mr_out r) in
          if reg_stat = 1 \<or> reg_stat = 5 then (ESP_OK, s)
          else reg_loop me attempts 0 (mdo me (Delay_ms REG_POLL_DELAY_MS) s))"

definition wait_for_registration :: "modem_env \<Rightarrow> modem \<Rightarrow> esp_err \<times> modem" where
  "wait_for_registration me s = reg_loop me REG_MAX_ATTEMPTS 0 s"

section \<open>Dialling\<close>

definition DIAL_RETRY_ATTEMPTS :: nat where "DIAL_RETRY_ATTEMPTS = 3"
definition DIAL_RETRY_DELAY_MS :: nat where "DIAL_RETRY_DELAY_MS = 3000"
definition IP_WAIT_TIMEOUT_MS :: nat where "IP_WAIT_TIMEOUT_MS = 60000"
definition SETUP_RETRY_DELAY_MS :: nat where "SETUP_RETRY_DELAY_MS = 3000"
definition CFUN_TIMEOUT_MS :: nat where "CFUN_TIMEOUT_MS = 20000"
definition RADIO_RECOVER_DELAY_MS :: nat where "RADIO_RECOVER_DELAY_MS = 30000"

text \<open>The query of the serving cell only feeds the log.\<close>

definition log_servingcell :: "modem_env \<Rightarrow> modem \<Rightarrow> modem" where
  "log_servingcell me s = snd (dcall me (Dce_at ''AT+QENG=\"servingcell\"'' 300) s)"

fun dial_loop :: "modem_env \<Rightarrow> nat \<Rightarrow> modem \<Rightarrow> esp_err \<times> modem" where
  "dial_loop me 0 s = (ESP_FAIL, s)"
| "dial_loop me (Suc attempts) s =
     (case dcall me (Dce_set_mode DATA_MODE) s of (r, s) \<Rightarrow>
        if mr_ok r then (ESP_OK, s)
        else dial_loop me attempts
               (mdo me (Delay_ms DIAL_RETRY_DELAY_MS) (snd (dcall me (Dce_set_mode COMMAND_MODE) s))))"

text \<open>\<open>if (get_mode() != COMMAND_MODE && !set_mode(COMMAND_MODE)) return ESP_ERR_INVALID_STATE;\<close>\<close>

definition in_command_mode ::
  "modem_env \<Rightarrow> modem \<Rightarrow> (modem \<Rightarrow> esp_err \<times> modem) \<Rightarrow> esp_err \<times> modem" where
  "in_command_mode me s k =
     (case dcall me Dce_get_mode s of (r, s) \<Rightarrow>
        if mr_mode r \<noteq> COMMAND_MODE
        then (case dcall me (Dce_set_mode COMMAND_MODE) s of (r, s) \<Rightarrow>
                if mr_ok r then k s else (ESP_ERR_INVALID_STATE, s))
        else k s)"

definition dial_out :: "modem_env \<Rightarrow> modem \<Rightarrow> esp_err \<times> modem" where
  "dial_out me s =
     in_command_mode me s (\<lambda>s.
       let s = (log_servingcell me s)\<lparr>mm_connected := False\<rparr> in
       check (dial_loop me DIAL_RETRY_ATTEMPTS s) Pair (\<lambda>s.
         case wait_connected me IP_WAIT_TIMEOUT_MS s of (up, s) \<Rightarrow>
           if \<not> up then (ESP_ERR_TIMEOUT, snd (dcall me (Dce_set_mode COMMAND_MODE) s)) else (ESP_OK, s)))"

definition recover_radio :: "modem_env \<Rightarrow> modem \<Rightarrow> modem" where
  "recover_radio me s =
     (case dcall me (Dce_set_mode COMMAND_MODE) s of (r, s) \<Rightarrow>
        if \<not> mr_ok r then s
        else case dcall me (Dce_at ''AT+CFUN=0'' CFUN_TIMEOUT_MS) s of (r, s) \<Rightarrow>
          if \<not> mr_ok r then s
          else case dcall me (Dce_at ''AT+CFUN=1'' CFUN_TIMEOUT_MS) (mdo me (Delay_ms RADIO_RECOVER_DELAY_MS) s) of (r, s) \<Rightarrow>
            if \<not> mr_ok r then s else mdo me (Delay_ms RADIO_RECOVER_DELAY_MS) s)"

section \<open>The modem task\<close>

text \<open>
  Where the task is: at the head of the outer loop with a failed setup, at the head of the inner
  loop, ended, or waiting for ever for the link to go down.
\<close>

datatype modem_pc = M_reset | M_online | M_ended | M_waiting

definition task_begin :: "modem_env \<Rightarrow> modem \<Rightarrow> modem_pc \<times> modem" where
  "task_begin me s =
     (case mcall_err me Pm_lock_create s of (ret, s) \<Rightarrow>
        if ret \<noteq> ESP_OK then (M_ended, s)
        else case mcall_err me Pm_lock_acquire s of (ret, s) \<Rightarrow>
          if ret \<noteq> ESP_OK then (M_ended, mdo me Pm_lock_delete s)
          else case setup_modem me (power_on me s) of (ret, s) \<Rightarrow>
            let s = (if ret \<noteq> ESP_OK then mdo me Delay_max s else s) in
            case mcall_err me Pm_lock_release s of (ret, s) \<Rightarrow>
              if ret \<noteq> ESP_OK then (M_ended, mdo me Pm_lock_delete s) else (M_online, s))"

definition reset_turn :: "modem_env \<Rightarrow> modem \<Rightarrow> modem_pc \<times> modem" where
  "reset_turn me s =
     (case setup_modem me (hardware_reset me (mdo me (Delay_ms SETUP_RETRY_DELAY_MS) s)) of (ret, s) \<Rightarrow>
        (if ret \<noteq> ESP_OK then M_reset else M_online, s))"

definition online_turn :: "modem_env \<Rightarrow> modem \<Rightarrow> modem_pc \<times> modem" where
  "online_turn me s =
     (case wait_for_registration me s of (ret, s) \<Rightarrow>
        if ret \<noteq> ESP_OK then (M_reset, s)
        else case dial_out me s of (ret, s) \<Rightarrow>
          if ret \<noteq> ESP_OK then (M_online, mdo me (Delay_ms DIAL_RETRY_DELAY_MS) s)
          else case wait_link_down me s of
              None \<Rightarrow> (M_waiting, s)
            | Some s \<Rightarrow> (M_online, recover_radio me s))"

definition modem_turn :: "modem_env \<Rightarrow> modem_pc \<times> modem \<Rightarrow> modem_pc \<times> modem" where
  "modem_turn me ps =
     (case fst ps of
        M_reset \<Rightarrow> reset_turn me (snd ps)
      | M_online \<Rightarrow> online_turn me (snd ps)
      | _ \<Rightarrow> ps)"

section \<open>What calls leave alone\<close>

text \<open>Events change the two bits and what was notified, nothing else.\<close>

lemma on_event_fields [simp]:
  "mm_log (on_event me ev s) = mm_log s" "mm_dce (on_event me ev s) = mm_dce s"
  "mm_fault (on_event me ev s) = mm_fault s" "mm_evt_group (on_event me ev s) = mm_evt_group s"
  by (auto simp: on_event_def ip_event_handler_def ppp_event_handler_def link_lost_def Let_def split: modem_event.split)

lemma on_events_fields [simp]:
  "mm_log (fold (on_event me) evs s) = mm_log s" "mm_dce (fold (on_event me) evs s) = mm_dce s"
  "mm_fault (fold (on_event me) evs s) = mm_fault s"
  by (induction evs arbitrary: s) simp_all

lemma on_event_link_down: "mm_link_down s \<Longrightarrow> mm_link_down (on_event me ev s)"
  by (auto simp: on_event_def ip_event_handler_def ppp_event_handler_def link_lost_def Let_def split: modem_event.split)

lemma on_events_link_down: "mm_link_down s \<Longrightarrow> mm_link_down (fold (on_event me) evs s)"
  by (induction evs arbitrary: s) (simp_all add: on_event_link_down)

lemma mcall_eq: "mcall me c s = (me_hw me (mm_log s @ [c]), snd (mcall me c s))"
  by (simp add: mcall_def Let_def)

lemma mcall_fields [simp]:
  "fst (mcall me c s) = me_hw me (mm_log s @ [c])" "mm_log (snd (mcall me c s)) = mm_log s @ [c]"
  "mm_dce (snd (mcall me c s)) = mm_dce s" "mm_fault (snd (mcall me c s)) = mm_fault s"
  by (simp_all add: mcall_def Let_def)

lemma dcall_fields [simp]:
  "fst (dcall me c s) = me_hw me (mm_log s @ [c])" "mm_log (snd (dcall me c s)) = mm_log s @ [c]"
  "mm_dce (snd (dcall me c s)) = mm_dce s" "mm_fault (snd (dcall me c s)) = (mm_fault s \<or> \<not> mm_dce s)"
  by (simp_all add: dcall_def)

lemma mdo_fields [simp]:
  "mm_log (mdo me c s) = mm_log s @ [c]" "mm_dce (mdo me c s) = mm_dce s" "mm_fault (mdo me c s) = mm_fault s"
  by (simp_all add: mdo_def)

lemma mdos_fields [simp]:
  "mm_dce (fold (mdo me) cs s) = mm_dce s" "mm_fault (fold (mdo me) cs s) = mm_fault s"
  by (induction cs arbitrary: s) simp_all

lemma mcall_err_fields [simp]:
  "mm_dce (snd (mcall_err me c s)) = mm_dce s" "mm_fault (snd (mcall_err me c s)) = mm_fault s"
  by (simp_all add: mcall_err_def case_prod_unfold)

text \<open>An operation that neither changes nor misses \<open>dce\<close>.\<close>

definition held :: "modem \<Rightarrow> modem \<Rightarrow> bool" where
  "held s s' \<longleftrightarrow> mm_dce s' = mm_dce s \<and> (mm_dce s \<longrightarrow> mm_fault s' = mm_fault s) \<and> (mm_fault s \<longrightarrow> mm_fault s')"

lemma held_refl: "held s s" by (simp add: held_def)

lemma held_trans: "held s s' \<Longrightarrow> held s' s'' \<Longrightarrow> held s s''" by (auto simp: held_def)

lemma held_calls: "held s s0 \<Longrightarrow> held s (snd (dcall me c s0))" "held s s0 \<Longrightarrow> held s (mdo me c s0)"
  "held s s0 \<Longrightarrow> held s (snd (mcall me c s0))" "held s s0 \<Longrightarrow> held s (snd (mcall_err me c s0))"
  by (auto simp: held_def)

lemma held_synced: "held s s0 \<Longrightarrow> held s (snd (wait_till_synced me n d s0))"
  by (induction n arbitrary: s0) (simp_all add: case_prod_unfold held_calls)

lemma held_synced_or: "held s s0 \<Longrightarrow> (\<And>s1. held s s1 \<Longrightarrow> held s (snd (k s1))) \<Longrightarrow> held s (snd (synced_or_timeout me s0 k))"
  by (simp add: synced_or_timeout_def case_prod_unfold held_synced)

lemma held_commands: "held s s0 \<Longrightarrow> held s (snd (setup_commands me s0))"
  unfolding setup_commands_def Let_def case_prod_unfold check_def
  by (simp add: held_calls held_synced_or)

lemma held_raise: "held s s0 \<Longrightarrow> held s (snd (raise_baud me s0))"
  unfolding raise_baud_def case_prod_unfold check_def
  by (simp add: held_calls held_synced held_synced_or held_commands)

lemma held_reg: "held s s0 \<Longrightarrow> held s (snd (reg_loop me n k s0))"
  by (induction n arbitrary: k s0) (simp_all add: case_prod_unfold held_calls Let_def)

lemma held_dial_loop: "held s s0 \<Longrightarrow> held s (snd (dial_loop me n s0))"
  by (induction n arbitrary: s0) (simp_all add: case_prod_unfold held_calls)

lemma held_wait: "held s s0 \<Longrightarrow> held s (snd (wait_connected me n s0))"
  by (simp add: wait_connected_def case_prod_unfold held_calls)

lemma held_bit: "held s (s0\<lparr>mm_connected := b\<rparr>) = held s s0" "held s (s0\<lparr>mm_link_down := b\<rparr>) = held s s0"
  "held s (s0\<lparr>mm_log := l\<rparr>) = held s s0"
  by (simp_all add: held_def)

lemma held_dial: "held s (snd (dial_out me s))"
  unfolding dial_out_def in_command_mode_def log_servingcell_def Let_def case_prod_unfold check_def
  by (simp add: held_calls held_dial_loop held_wait held_bit held_refl)

lemma held_recover: "held s s0 \<Longrightarrow> held s (recover_radio me s0)"
  by (simp add: recover_radio_def case_prod_unfold held_calls)

lemma held_until: "until_link_down me evs s0 = Some s' \<Longrightarrow> held s s0 \<Longrightarrow> held s s'"
proof (induction me evs s0 rule: until_link_down.induct)
  case (1 me evs s0)
  then show ?case
    by (subst (asm) until_link_down.simps) (auto simp: held_def split: if_splits list.splits)
qed

section \<open>The modem object is there when it is used\<close>

lemma setup_dispose: "mm_fault (dispose_modem me s) = mm_fault s"
  by (simp add: dispose_modem_def case_prod_unfold)

lemma setup_modem_dce:
  assumes "setup_modem me s = (ret, s')"
  shows "(ret = ESP_OK \<longrightarrow> mm_dce s') \<and> mm_fault s' = mm_fault s"
proof -
  let ?s1 = "snd (mcall me Dte_create (dispose_modem me s))"
  let ?s2 = "(snd (mcall me Dce_build ?s1))\<lparr>mm_dce := True, mm_connected := False, mm_link_down := False\<rparr>"
  have "held ?s2 (snd (raise_baud me ?s2))" by (rule held_raise [OF held_refl])
  moreover have "mm_fault ?s2 = mm_fault s" "mm_dce ?s2" by (simp_all add: setup_dispose)
  ultimately have "mm_dce (snd (raise_baud me ?s2)) \<and> mm_fault (snd (raise_baud me ?s2)) = mm_fault s"
    by (simp add: held_def)
  with assms show ?thesis
    by (auto simp: setup_modem_def case_prod_unfold Let_def setup_dispose split: if_splits)
qed

definition modem_inv :: "modem_pc \<times> modem \<Rightarrow> bool" where
  "modem_inv ps \<longleftrightarrow> (fst ps = M_online \<longrightarrow> mm_dce (snd ps)) \<and> \<not> mm_fault (snd ps)"

lemma online_held: "held (snd (wait_for_registration me s)) (snd (online_turn me s))"
proof -
  let ?r = "snd (wait_for_registration me s)" let ?d = "snd (dial_out me ?r)"
  have d: "held ?r ?d" by (rule held_dial)
  have w: "held ?r (recover_radio me s1)" if "wait_link_down me ?d = Some s1" for s1
  proof (rule held_recover)
    have "held ?r (?d\<lparr>mm_log := mm_log ?d @ [Wait_link_down]\<rparr>)" using d by (simp add: held_bit)
    with that show "held ?r s1" unfolding wait_link_down_def Let_def by (rule held_until)
  qed
  show ?thesis
    using d w by (auto simp: online_turn_def case_prod_unfold held_calls held_refl split: option.split)
qed

lemma modem_turn_inv: "modem_inv ps \<Longrightarrow> modem_inv (modem_turn me ps)"
proof (cases "fst ps")
  case M_reset
  assume inv: "modem_inv ps"
  let ?s = "hardware_reset me (mdo me (Delay_ms SETUP_RETRY_DELAY_MS) (snd ps))"
  obtain ret s' where r: "setup_modem me ?s = (ret, s')" by fastforce
  with setup_modem_dce [OF r] inv show ?thesis using M_reset
    by (auto simp: modem_turn_def reset_turn_def modem_inv_def hardware_reset_def setup_dispose)
next
  case M_online
  assume inv: "modem_inv ps"
  have "held (snd ps) (snd (wait_for_registration me (snd ps)))"
    by (simp add: wait_for_registration_def held_reg held_refl)
  from held_trans [OF this online_held] inv M_online show ?thesis
    by (auto simp: modem_inv_def held_def modem_turn_def)
qed (simp_all add: modem_turn_def)

text \<open>
  C37: once the first setup of the modem has succeeded, the task never reaches the modem through a
  null pointer, however often it is reset or the link drops, whatever the modem answers.
\<close>

theorem modem_used_when_there:
  assumes "\<not> mm_fault s" and "fst (setup_modem me (power_on me (snd (mcall_err me Pm_lock_acquire
      (snd (mcall_err me Pm_lock_create s)))))) = ESP_OK"
  shows "\<not> mm_fault (snd ((modem_turn me ^^ n) (task_begin me s)))"
proof -
  let ?s = "power_on me (snd (mcall_err me Pm_lock_acquire (snd (mcall_err me Pm_lock_create s))))"
  obtain s' where r: "setup_modem me ?s = (ESP_OK, s')" using assms(2) by (metis prod.collapse)
  from setup_modem_dce [OF r] assms(1) have "mm_dce s'" "\<not> mm_fault s'" by (simp_all add: power_on_def)
  with r assms(1) have "modem_inv (task_begin me s)"
    by (simp add: task_begin_def case_prod_unfold modem_inv_def)
  then have "modem_inv ((modem_turn me ^^ n) (task_begin me s))"
    by (induction n) (simp_all add: modem_turn_inv)
  then show ?thesis by (simp add: modem_inv_def)
qed

text \<open>
  When the first setup fails the task waits for a very long time, but then overwrites the error with
  the result of releasing the lock and goes online: without a modem object it ends in a null pointer.
\<close>

theorem failed_setup_reaches_null_dce:
  assumes "mr_err (me_hw me (mm_log s @ [Pm_lock_create])) = ESP_OK"
    and "fst (mcall_err me Pm_lock_acquire (snd (mcall_err me Pm_lock_create s))) = ESP_OK"
    and "\<And>l. \<not> mr_ok (me_hw me (l @ [Dte_create]))" and "\<And>l. mr_err (me_hw me (l @ [Pm_lock_release])) = ESP_OK"
  shows "mm_fault (snd (modem_turn me (task_begin me s)))"
proof -
  let ?s = "power_on me (snd (mcall_err me Pm_lock_acquire (snd (mcall_err me Pm_lock_create s))))"
  obtain s' where st: "setup_modem me ?s = (ESP_FAIL, s')" "\<not> mm_dce s'"
    using assms(3) by (simp add: setup_modem_def case_prod_unfold dispose_modem_def)
  then have b: "task_begin me s = (M_online, snd (mcall_err me Pm_lock_release (mdo me Delay_max s')))"
    using assms(1,2,4) by (simp add: task_begin_def case_prod_unfold mcall_err_def)
  have f: "mm_fault (snd (reg_loop me n k u))" if "mm_fault u" for n k u
    using that by (induction n arbitrary: k u) (simp_all add: case_prod_unfold Let_def)
  have "mm_fault (snd (reg_loop me (Suc n) k u))" if "\<not> mm_dce u" for n k u
    using that f by (simp add: case_prod_unfold Let_def)
  then have "mm_fault (snd (wait_for_registration me (snd (task_begin me s))))"
    unfolding wait_for_registration_def REG_MAX_ATTEMPTS_def
    by (metis b mcall_err_fields(1) mdo_fields(2) numeral_eq_Suc snd_conv st(2))
  with online_held [of me "snd (task_begin me s)"] b show ?thesis by (simp add: modem_turn_def held_def)
qed

section \<open>Registration ends and means what it says\<close>

text \<open>The calls of \<open>n\<close> polls without success, and the answer to the \<open>n\<close>th poll (from 0).\<close>

definition polls :: "nat \<Rightarrow> modem_call list" where
  "polls n = concat (replicate n [cereg_call, Delay_ms REG_POLL_DELAY_MS])"

definition poll_answer :: "modem_env \<Rightarrow> modem_call list \<Rightarrow> nat \<Rightarrow> modem_resp" where
  "poll_answer me l n = me_hw me (l @ polls n @ [cereg_call])"

definition registered :: "modem_resp \<Rightarrow> bool" where
  "registered r \<longleftrightarrow> mr_ok r \<and> parse_cereg (mr_out r) \<in> {1, 5}"

lemma polls_Suc: "polls (Suc n) = cereg_call # Delay_ms REG_POLL_DELAY_MS # polls n"
  by (simp add: polls_def)

lemma poll_answer_0: "poll_answer me l 0 = me_hw me (l @ [cereg_call])"
  by (simp add: poll_answer_def polls_def)

lemma poll_answer_Suc: "poll_answer me (l @ [cereg_call, Delay_ms REG_POLL_DELAY_MS]) n = poll_answer me l (Suc n)"
  by (simp add: poll_answer_def polls_Suc)

text \<open>
  How many of the reads before poll \<open>k\<close> have failed in a row up to it, when \<open>fails\<close> had failed before the first:
  a read that works starts the count again.
\<close>

fun failed_reads :: "nat \<Rightarrow> (nat \<Rightarrow> modem_resp) \<Rightarrow> nat \<Rightarrow> nat" where
  "failed_reads fails answer 0 = fails"
| "failed_reads fails answer (Suc k) = (if mr_ok (answer k) then 0 else Suc (failed_reads fails answer k))"

lemma failed_reads_Suc:
  "failed_reads fails a (Suc k) = failed_reads (if mr_ok (a 0) then 0 else Suc fails) (\<lambda>i. a (Suc i)) k"
  by (induction k) simp_all

text \<open>How a loop of \<open>n\<close> polls that starts after \<open>fails\<close> failed reads in a row ends.\<close>

definition reg_ends :: "modem_env \<Rightarrow> modem_call list \<Rightarrow> nat \<Rightarrow> nat \<Rightarrow> esp_err \<Rightarrow> modem_call list \<Rightarrow> bool" where
  "reg_ends me l n fails ret l' \<longleftrightarrow>
     (let a = poll_answer me l; row = failed_reads fails a in
      (ret = ESP_OK \<and> (\<exists>k < n. l' = l @ polls k @ [cereg_call] \<and> registered (a k) \<and>
         (\<forall>i < k. \<not> registered (a i)) \<and> (\<forall>i \<le> k. row i < REG_MAX_READ_FAILS))) \<or>
      (ret = ESP_FAIL \<and> (\<exists>k < n. l' = l @ polls k @ [cereg_call] \<and> REG_MAX_READ_FAILS \<le> row (Suc k) \<and>
         (\<forall>i \<le> k. \<not> registered (a i)) \<and> (\<forall>i \<le> k. row i < REG_MAX_READ_FAILS))) \<or>
      (ret = ESP_ERR_TIMEOUT \<and> l' = l @ polls n \<and> (\<forall>i < n. \<not> registered (a i)) \<and>
         (\<forall>i \<le> n. row i < REG_MAX_READ_FAILS)))"

lemma reg_ends_next:
  assumes "reg_ends me (l @ [cereg_call, Delay_ms REG_POLL_DELAY_MS]) n fails' ret l'"
    and "\<not> registered (poll_answer me l 0)" and "fails < REG_MAX_READ_FAILS"
    and "fails' = (if mr_ok (poll_answer me l 0) then 0 else Suc fails)"
  shows "reg_ends me l (Suc n) fails ret l'"
proof -
  have all: "(\<forall>i < Suc k. Q i) \<longleftrightarrow> Q 0 \<and> (\<forall>i < k. Q (Suc i))" "(\<forall>i \<le> Suc k. Q i) \<longleftrightarrow> Q 0 \<and> (\<forall>i \<le> k. Q (Suc i))"
    for Q :: "nat \<Rightarrow> bool" and k by (metis less_Suc_eq_0_disj, metis Suc_le_mono not0_implies_Suc zero_le)
  let ?a = "poll_answer me l" let ?row = "failed_reads fails ?a"
  have row: "?row 0 < REG_MAX_READ_FAILS" "failed_reads fails' (poll_answer me (l @ [cereg_call, Delay_ms REG_POLL_DELAY_MS])) i = ?row (Suc i)"
    for i using assms(3,4) by (simp_all add: failed_reads_Suc poll_answer_Suc [abs_def] del: failed_reads.simps(2))
  consider k where "ret = ESP_OK" "k < n" "l' = l @ polls (Suc k) @ [cereg_call]" "registered (?a (Suc k))"
      "\<forall>i < k. \<not> registered (?a (Suc i))" "\<forall>i \<le> k. ?row (Suc i) < REG_MAX_READ_FAILS"
    | k where "ret = ESP_FAIL" "k < n" "l' = l @ polls (Suc k) @ [cereg_call]" "REG_MAX_READ_FAILS \<le> ?row (Suc (Suc k))"
      "\<forall>i \<le> k. \<not> registered (?a (Suc i))" "\<forall>i \<le> k. ?row (Suc i) < REG_MAX_READ_FAILS"
    | "ret = ESP_ERR_TIMEOUT" "l' = l @ polls (Suc n)" "\<forall>i < n. \<not> registered (?a (Suc i))"
      "\<forall>i \<le> n. ?row (Suc i) < REG_MAX_READ_FAILS"
    using assms(1) unfolding reg_ends_def Let_def row(2) by (auto simp: poll_answer_Suc polls_Suc)
  then show ?thesis
  proof cases
    case 1
    with assms(2) row(1) show ?thesis unfolding reg_ends_def Let_def
      by (intro disjI1 conjI exI [of _ "Suc k"]) (simp_all only: all, simp_all)
  next
    case 2
    with assms(2) row(1) show ?thesis unfolding reg_ends_def Let_def
      by (intro disjI2 disjI1 conjI exI [of _ "Suc k"]) (simp_all only: all, simp_all)
  next
    case 3
    with assms(2) row(1) show ?thesis unfolding reg_ends_def Let_def
      by (intro disjI2 conjI) (simp_all only: all, simp_all)
  qed
qed

lemma reg_loop_ends:
  assumes "fails < REG_MAX_READ_FAILS"
  shows "reg_ends me (mm_log s) n fails (fst (reg_loop me n fails s)) (mm_log (snd (reg_loop me n fails s)))"
  using assms
proof (induction n arbitrary: fails s)
  case 0
  then show ?case by (simp add: reg_ends_def polls_def)
next
  case (Suc n)
  let ?r = "poll_answer me (mm_log s) 0" let ?s = "mdo me (Delay_ms REG_POLL_DELAY_MS) (snd (dcall me cereg_call s))"
  have lg: "mm_log ?s = mm_log s @ [cereg_call, Delay_ms REG_POLL_DELAY_MS]" by simp
  have r: "fst (dcall me cereg_call s) = ?r" by (simp add: poll_answer_0)
  consider "registered ?r" | "\<not> mr_ok ?r" "\<not> Suc fails < REG_MAX_READ_FAILS" | "\<not> mr_ok ?r" "Suc fails < REG_MAX_READ_FAILS"
    | "mr_ok ?r" "\<not> registered ?r" by (auto simp: registered_def)
  then show ?case
  proof cases
    case 1
    with Suc.prems show ?thesis
      by (auto simp: registered_def poll_answer_0 polls_def reg_ends_def case_prod_unfold Let_def intro!: exI [of _ 0])
  next
    case 2
    with Suc.prems show ?thesis
      by (auto simp: registered_def poll_answer_0 polls_def reg_ends_def case_prod_unfold Let_def intro!: exI [of _ 0])
  next
    case 3
    then have "reg_loop me (Suc n) fails s = reg_loop me n (Suc fails) ?s"
      by (simp add: case_prod_unfold poll_answer_0)
    with reg_ends_next [OF Suc.IH [OF 3(2), of ?s, unfolded lg], of fails] 3 Suc.prems show ?thesis
      by (simp add: registered_def)
  next
    case 4
    then have "reg_loop me (Suc n) fails s = reg_loop me n 0 ?s"
      by (simp add: case_prod_unfold poll_answer_0 registered_def Let_def)
    moreover have "0 < REG_MAX_READ_FAILS" by (simp add: REG_MAX_READ_FAILS_def)
    ultimately show ?thesis using reg_ends_next [OF Suc.IH [of 0 ?s, unfolded lg], of fails] 4 Suc.prems by simp
  qed
qed

text \<open>
  C38: Waiting for the registration ends after at most 450 polls, in one of three ways. It succeeds at the first poll that
  reports a registration, at home or roaming, and until then no ten reads in a row have failed; it fails at the poll
  that is the tenth failed read in a row, before any registration was reported; it times out when all 450 polls were made,
  none reported a registration and no ten in a row failed.
\<close>

theorem registration_decides:
  assumes "wait_for_registration me s = (ret, s')"
    and "answer = poll_answer me (mm_log s)" and "row = failed_reads 0 answer"
  shows "\<exists>k \<le> 450. (\<forall>i \<le> k. row i < 10) \<and> (\<forall>i < k. \<not> registered (answer i)) \<and>
     ((ret = ESP_OK \<and> k < 450 \<and> mm_log s' = mm_log s @ polls k @ [cereg_call] \<and> registered (answer k)) \<or>
      (ret = ESP_FAIL \<and> k < 450 \<and> mm_log s' = mm_log s @ polls k @ [cereg_call] \<and> row (Suc k) = 10) \<or>
      (ret = ESP_ERR_TIMEOUT \<and> k = 450 \<and> mm_log s' = mm_log s @ polls k))"
proof -
  have "reg_ends me (mm_log s) 450 0 ret (mm_log s')"
    using reg_loop_ends [of 0 me s 450] assms(1)
    by (simp add: wait_for_registration_def REG_MAX_ATTEMPTS_def REG_MAX_READ_FAILS_def)
  then consider k where "ret = ESP_OK" "k < 450" "mm_log s' = mm_log s @ polls k @ [cereg_call]" "registered (answer k)"
      "\<forall>i < k. \<not> registered (answer i)" "\<forall>i \<le> k. row i < 10"
    | k where "ret = ESP_FAIL" "k < 450" "mm_log s' = mm_log s @ polls k @ [cereg_call]" "10 \<le> row (Suc k)"
      "\<forall>i \<le> k. \<not> registered (answer i)" "\<forall>i \<le> k. row i < 10"
    | "ret = ESP_ERR_TIMEOUT" "mm_log s' = mm_log s @ polls 450" "\<forall>i < 450. \<not> registered (answer i)" "\<forall>i \<le> 450. row i < 10"
    unfolding reg_ends_def Let_def assms(2,3) REG_MAX_READ_FAILS_def by blast
  then show ?thesis
  proof cases
    case 1 then show ?thesis by (intro exI [of _ k]) simp
  next
    case 2
    then have "row (Suc k) = 10" using assms(3) by (auto split: if_splits simp: Suc_le_eq dest!: spec [of _ k])
    with 2 show ?thesis by (intro exI [of _ k]) simp
  next
    case 3 then show ?thesis by (intro exI [of _ 450]) simp
  qed
qed

section \<open>Reading a registration report\<close>

text \<open>A number in decimal digits, as the modem prints it.\<close>

fun dec :: "nat \<Rightarrow> string" where
  "dec n = (if n < 10 then [char_of (48 + n)] else dec (n div 10) @ [char_of (48 + n mod 10)])"

declare dec.simps [simp del]

lemma dec_digits: "list_all is_digit (dec n) \<and> dec n \<noteq> []"
proof (induction n rule: dec.induct)
  case (1 n)
  have d: "is_digit (char_of (48 + k))" if "k < 10" for k :: nat using that by (simp add: is_digit_def)
  show ?case
  proof (cases "n < 10")
    case True
    then show ?thesis using d by (simp add: dec.simps [of n])
  next
    case False
    then show ?thesis using 1 d [of "n mod 10"] by (simp add: dec.simps [of n])
  qed
qed

lemma digits_val_dec: "digits_val (dec n) = n"
proof (induction n rule: dec.induct)
  case (1 n)
  then show ?case by (cases "n < 10") (simp_all add: dec.simps [of n] digits_val_def)
qed

lemma not_digit_special: "\<not> is_digit (CHR '','')" "\<not> is_digit (CHR ''-'')" "\<not> is_digit (CHR ''+'')" "\<not> is_digit (CHR 0x00)"
  by (simp_all add: is_digit_def)

lemma digit_not_special: "is_digit c \<Longrightarrow> \<not> is_space c \<and> c \<noteq> CHR ''-'' \<and> c \<noteq> CHR ''+'' \<and> c \<noteq> CHR 0x00"
  by (auto simp: is_space_def is_digit_def)

lemma strtol_dec:
  assumes "rest = [] \<or> \<not> is_digit (hd rest)"
  shows "strtol (dec n @ rest) = (min (int n) LONG_MAX, rest)"
proof -
  obtain c cs where d: "dec n = c # cs" using dec_digits [of n] by (cases "dec n") auto
  have c: "is_digit c" "list_all is_digit (c # cs)" using dec_digits [of n] by (simp_all add: d)
  have "takeWhile is_digit rest = []" "dropWhile is_digit rest = rest" using assms by (cases rest; simp)+
  then have "takeWhile is_digit (c # cs @ rest) = c # cs" "dropWhile is_digit (c # cs @ rest) = rest"
    using c(2) by (simp_all add: list_all_iff)
  moreover have "int (digits_val (c # cs)) = int n" using digits_val_dec [of n] by (simp add: d)
  ultimately show ?thesis using digit_not_special [OF c(1)] by (simp add: strtol_def d Let_def)
qed

lemma strstr_first:
  assumes "needle = c # cs" and "c \<notin> set pre"
  shows "strstr (pre @ needle @ rest) needle = Some (needle @ rest)"
  using assms by (induction pre) auto

lemma c_str_append: "CHR 0x00 \<notin> set a \<Longrightarrow> c_str (a @ b) = a @ c_str b"
  by (auto simp: c_str_def takeWhile_append)

text \<open>
  the parser reads the status out of every registration report: what the modem sends before the
  report, the value of \<open>n\<close> and what follows the status make no difference.
\<close>

theorem parse_cereg_report:
  assumes "CHR ''+'' \<notin> set pre" "CHR 0x00 \<notin> set pre" and "rest = [] \<or> \<not> is_digit (hd rest)"
  shows "parse_cereg (pre @ ''+CEREG: '' @ dec n @ '','' @ dec stat @ rest) = min (int stat) LONG_MAX"
proof -
  have nz: "CHR 0x00 \<notin> set (dec k)" for k
    using dec_digits [of k] digit_not_special by (auto simp: list_all_iff)
  have r: "c_str rest = [] \<or> \<not> is_digit (hd (c_str rest))"
    using assms(3) by (cases rest) (auto simp: c_str_def)
  let ?tail = "'','' @ dec stat @ c_str rest"
  have "c_str (pre @ ''+CEREG: '' @ dec n @ '','' @ dec stat @ rest) = pre @ ''+CEREG: '' @ dec n @ ?tail"
    using assms(2) nz by (simp add: c_str_append) (simp add: c_str_def nz takeWhile_append)
  moreover have "strstr (pre @ ''+CEREG: '' @ dec n @ ?tail) ''+CEREG: '' = Some (''+CEREG: '' @ dec n @ ?tail)"
    using strstr_first [OF refl assms(1)] .
  moreover have "strtol (dec n @ ?tail) = (min (int n) LONG_MAX, ?tail)"
    by (rule strtol_dec) (simp add: not_digit_special)
  moreover have "strtol (dec stat @ c_str rest) = (min (int stat) LONG_MAX, c_str rest)" by (rule strtol_dec [OF r])
  moreover have "dec n \<noteq> []" "dec stat \<noteq> []" using dec_digits by blast+
  ultimately show ?thesis by (simp add: parse_cereg_def)
qed

section \<open>The link-down bit\<close>

lemma link_down_stays:
  "mm_link_down s \<Longrightarrow> mm_link_down (snd (dcall me c s))" "mm_link_down s \<Longrightarrow> mm_link_down (snd (mcall me c s))"
  "mm_link_down s \<Longrightarrow> mm_link_down (mdo me c s)"
  by (simp_all add: dcall_def mcall_def mdo_def Let_def on_events_link_down)

lemma link_down_dial_loop: "mm_link_down s \<Longrightarrow> mm_link_down (snd (dial_loop me n s))"
  by (induction n arbitrary: s) (simp_all add: case_prod_unfold link_down_stays)

lemma link_down_dial: "mm_link_down s \<Longrightarrow> mm_link_down (snd (dial_out me s))"
  unfolding dial_out_def in_command_mode_def log_servingcell_def wait_connected_def Let_def case_prod_unfold check_def
  by (simp add: link_down_stays link_down_dial_loop)

text \<open>
  A bit that is left over when a dial begins survives it, and the wait for the link to go down then
  returns at once although the link is up.
\<close>

lemma stale_bit_ends_wait:
  assumes "mm_link_down s"
  shows "\<exists>s'. wait_link_down me (snd (dial_out me s)) = Some s'"
  using link_down_dial [OF assms, of me] by (simp add: wait_link_down_def Let_def until_link_down.simps)

text \<open>An address that comes just after the timeout of a dial leaves such a bit.\<close>

definition late_address :: modem_env where
  "late_address = \<lparr>me_hw = (\<lambda>l. \<lparr>mr_err = ESP_OK, mr_ok = True, mr_out = [], mr_mode = COMMAND_MODE,
       mr_events = (if last l = Dce_set_mode COMMAND_MODE then [Ip_got, Ip_lost] else [])\<rparr>),
     me_PPP_ERRORNONE = 0, me_PPP_ERRORLOOPBACK = 12\<rparr>"

definition dialling :: modem where
  "dialling = modem_boot\<lparr>mm_inited := True, mm_evt_group := True, mm_netif := True, mm_dce := True\<rparr>"

text \<open>
  a dial that times out can leave the link-down bit set, and no later dial clears it: after the
  next successful dial the task does not wait for the link to drop but recovers the radio at once.
\<close>

theorem stale_link_down:
  "\<not> mm_link_down dialling \<and> fst (dial_out late_address dialling) = ESP_ERR_TIMEOUT \<and>
   (\<forall>me. \<exists>s'. wait_link_down me (snd (dial_out me (snd (dial_out late_address dialling)))) = Some s')"
proof -
  have d: "fst (dial_out late_address dialling) = ESP_ERR_TIMEOUT \<and> mm_link_down (snd (dial_out late_address dialling))"
    by (simp add: dial_out_def in_command_mode_def log_servingcell_def dial_loop.simps DIAL_RETRY_ATTEMPTS_def
        eval_nat_numeral wait_connected_def dcall_def mcall_def Let_def late_address_def dialling_def modem_boot_def
        on_event_def ip_event_handler_def link_lost_def)
  then show ?thesis using stale_bit_ends_wait by (simp add: dialling_def modem_boot_def)
qed

section \<open>A modem that works\<close>

definition working_modem :: modem_env where
  "working_modem = \<lparr>me_hw = (\<lambda>l. \<lparr>mr_err = ESP_OK, mr_ok = True, mr_out = ''+CEREG: 0,5'', mr_mode = COMMAND_MODE,
       mr_events = (if last l = Wait_connected IP_WAIT_TIMEOUT_MS then [Ip_got] else [])\<rparr>),
     me_PPP_ERRORNONE = 0, me_PPP_ERRORLOOPBACK = 12\<rparr>"

lemma working_ok: "mr_ok (me_hw working_modem l)" "mr_err (me_hw working_modem l) = ESP_OK"
  "mr_out (me_hw working_modem l) = ''+CEREG: 0,5''"
  by (simp_all add: working_modem_def)

lemma working_sync: "0 < n \<Longrightarrow> fst (wait_till_synced working_modem n d s)"
  by (cases n) (simp_all add: case_prod_unfold working_ok)

lemma working_setup: "fst (setup_modem working_modem s) = ESP_OK"
  by (simp add: setup_modem_def raise_baud_def setup_commands_def synced_or_timeout_def case_prod_unfold Let_def check_def
      mcall_err_def working_ok working_sync SYNC_RETRY_ATTEMPTS_def BAUD_SYNC_ATTEMPTS_def)

theorem modem_used_when_there_witness:
  "\<not> mm_fault (snd ((modem_turn working_modem ^^ 7) (task_begin working_modem modem_boot)))"
  by (rule modem_used_when_there) (simp_all add: modem_boot_def working_setup)

theorem parse_cereg_report_witness:
  "parse_cereg ([CHR 0x0D, CHR 0x0A] @ ''+CEREG: '' @ dec 2 @ '','' @ dec 5 @ '',\"1A2B\"'') = 5"
  using parse_cereg_report [of "[CHR 0x0D, CHR 0x0A]" "'',\"1A2B\"''" 2 5] by (simp add: not_digit_special LONG_MAX_def)

theorem registration_decides_witness:
  "\<exists>k \<le> 450. mm_log (snd (wait_for_registration working_modem dialling)) = polls k @ [cereg_call] \<and>
     registered (poll_answer working_modem [] k)"
proof -
  have "parse_cereg ''+CEREG: 0,5'' = 5" by code_simp
  then have ok: "registered (poll_answer working_modem l k)" for l k
    by (simp add: registered_def poll_answer_def working_ok)
  obtain ret s' where r: "wait_for_registration working_modem dialling = (ret, s')" by fastforce
  have "mm_log dialling = []" by (simp add: dialling_def modem_boot_def)
  with registration_decides [OF r refl refl] ok r show ?thesis by (auto dest: spec [of _ "0 :: nat"])
qed

end
