(* ===== verification/Serving_Cell.thy ===== *)
theory Serving_Cell
  imports Modem_Manager
begin

text \<open>
  \<open>log_servingcell\<close> of \<open>main/comm/modem_manager.cpp\<close>: the answer to \<open>AT+QENG="servingcell"\<close> and what is made of it. The call
  itself and its place in a dial are in \<open>Modem_Manager\<close>; here is the \<open>sscanf\<close> that takes four signal values out of a list of
  fourteen fields, and that it reads back what a modem prints.
\<close>

section \<open>Scanning\<close>

text \<open>\<open>%*[^,]\<close> and the comma after it: at least one character other than a comma is skipped.\<close>

definition skip_field :: "string \<Rightarrow> string option" where
  "skip_field s =
     (if takeWhile (\<lambda>c. c \<noteq> CHR '','') s = [] then None
      else case dropWhile (\<lambda>c. c \<noteq> CHR '','') s of [] \<Rightarrow> None | c # rest \<Rightarrow> Some rest)"

fun skip_fields :: "nat \<Rightarrow> string \<Rightarrow> string option" where
  "skip_fields 0 s = Some s"
| "skip_fields (Suc n) s = Option.bind (skip_field s) (skip_fields n)"

text \<open>\<open>%d\<close>: it fails where \<open>strtol\<close> finds no number.\<close>

definition scan_d :: "string \<Rightarrow> (int \<times> string) option" where
  "scan_d s = (case strtol s of (v, rest) \<Rightarrow> if length rest = length s then None else Some (v, rest))"

text \<open>\<open>%d,%d,...\<close> with \<open>n + 1\<close> conversions.\<close>

fun scan_ds :: "nat \<Rightarrow> string \<Rightarrow> int list option" where
  "scan_ds 0 s = map_option (\<lambda>(v, rest). [v]) (scan_d s)"
| "scan_ds (Suc n) s = Option.bind (scan_d s) (\<lambda>(v, rest).
     case rest of [] \<Rightarrow> None | c # rest \<Rightarrow> if c = CHR '','' then map_option (Cons v) (scan_ds n rest) else None)"

definition LTE_MARK :: string where "LTE_MARK = ''\"LTE\"''"

text \<open>The whole format; \<open>Some\<close> when \<open>sscanf\<close> returns 4.\<close>

definition sscanf_lte :: "string \<Rightarrow> int list option" where
  "sscanf_lte lte =
     (if take 6 lte = LTE_MARK @ '','' then Option.bind (skip_fields 10 (drop 6 lte)) (scan_ds 3) else None)"

section \<open>The report\<close>

text \<open>What goes to the log: nothing was answered, the answer as it is, or RSRP, RSRQ, RSSI and SINR.\<close>

datatype cell_report = No_answer | Cell_raw string | Cell_signal "int list"

definition servingcell_report :: "modem_resp \<Rightarrow> cell_report" where
  "servingcell_report r =
     (if \<not> mr_ok r then No_answer
      else case strstr (c_str (mr_out r)) LTE_MARK of
          None \<Rightarrow> Cell_raw (mr_out r)
        | Some lte \<Rightarrow> (case sscanf_lte lte of Some vs \<Rightarrow> Cell_signal vs | None \<Rightarrow> Cell_raw (mr_out r)))"

section \<open>Lemmas\<close>

text \<open>A number as the modem prints it.\<close>

definition sdec :: "int \<Rightarrow> string" where
  "sdec v = (if v < 0 then ''-'' @ dec (nat (- v)) else dec (nat v))"

lemma strtol_sdec:
  assumes "rest = [] \<or> \<not> is_digit (hd rest)" and "\<bar>v\<bar> \<le> LONG_MAX"
  shows "strtol (sdec v @ rest) = (v, rest)"
proof (cases "v < 0")
  case False
  with strtol_dec [OF assms(1), of "nat v"] assms(2) show ?thesis by (simp add: sdec_def)
next
  case True
  let ?n = "nat (- v)"
  have "takeWhile is_digit rest = []" "dropWhile is_digit rest = rest" using assms(1) by (cases rest; simp)+
  then have "takeWhile is_digit (dec ?n @ rest) = dec ?n" "dropWhile is_digit (dec ?n @ rest) = rest"
    using dec_digits [of ?n] by (simp_all add: list_all_iff)
  then show ?thesis
    using True assms(2) dec_digits [of ?n] by (simp add: sdec_def strtol_def is_space_def Let_def digits_val_dec)
qed

lemma scan_d_sdec:
  assumes "rest = [] \<or> \<not> is_digit (hd rest)" and "\<bar>v\<bar> \<le> LONG_MAX"
  shows "scan_d (sdec v @ rest) = Some (v, rest)"
  using strtol_sdec [OF assms] dec_digits by (auto simp: scan_d_def sdec_def)

text \<open>Values separated by commas.\<close>

fun comma_sep :: "string list \<Rightarrow> string" where
  "comma_sep [] = []"
| "comma_sep [f] = f"
| "comma_sep (f # fs) = f @ '','' @ comma_sep fs"

lemma scan_ds_sdec:
  assumes "rest = [] \<or> \<not> is_digit (hd rest)" and "length vs = Suc n" and "list_all (\<lambda>v. \<bar>v\<bar> \<le> LONG_MAX) vs"
  shows "scan_ds n (comma_sep (map sdec vs) @ rest) = Some vs"
  using assms(2,3)
proof (induction n arbitrary: vs)
  case 0
  then show ?case using scan_d_sdec [OF assms(1)] by (cases vs) auto
next
  case (Suc n)
  then obtain v w ws where vs: "vs = v # w # ws" by (metis length_Suc_conv)
  have "scan_d (sdec v @ '','' @ comma_sep (map sdec (w # ws)) @ rest) = Some (v, '','' @ comma_sep (map sdec (w # ws)) @ rest)"
    using Suc.prems vs by (intro scan_d_sdec) (simp_all add: not_digit_special)
  moreover have "scan_ds n (comma_sep (map sdec (w # ws)) @ rest) = Some (w # ws)"
    using Suc.IH [of "w # ws"] Suc.prems vs by simp
  ultimately show ?case using vs by simp
qed

definition plain_field :: "string \<Rightarrow> bool" where
  "plain_field f \<longleftrightarrow> f \<noteq> [] \<and> CHR '','' \<notin> set f \<and> CHR 0x00 \<notin> set f"

lemma skip_field_plain: "plain_field f \<Longrightarrow> skip_field (f @ '','' @ rest) = Some rest"
  by (simp add: skip_field_def plain_field_def takeWhile_append dropWhile_append)

definition with_commas :: "string list \<Rightarrow> string" where
  "with_commas fs = concat (map (\<lambda>f. f @ '','') fs)"

lemma skip_fields_plain:
  "list_all plain_field fs \<Longrightarrow> length fs = n \<Longrightarrow> skip_fields n (with_commas fs @ rest) = Some rest"
proof (induction fs arbitrary: n)
  case (Cons f fs)
  then show ?case using skip_field_plain [of f "with_commas fs @ rest"] by (cases n) (auto simp: with_commas_def)
qed (simp add: with_commas_def)

lemma strstr_skip:
  assumes "needle \<noteq> []" and "strstr (pre @ butlast needle) needle = None"
  shows "strstr (pre @ needle @ rest) needle = Some (needle @ rest)"
  using assms(2)
proof (induction pre)
  case Nil
  obtain c cs where "needle = c # cs" using assms(1) by (cases needle) auto
  then show ?case by simp
next
  case (Cons c pre)
  have n: "needle @ rest = butlast needle @ [last needle] @ rest" using assms(1) by (simp flip: append_assoc)
  have "length needle \<le> length (c # pre @ butlast needle)" using assms(1) by (simp add: Suc_leI)
  then have "take (length needle) (c # pre @ needle @ rest) = take (length needle) (c # pre @ butlast needle)"
    unfolding n using take_append [of "length needle" "c # pre @ butlast needle" "[last needle] @ rest"] by simp
  with Cons show ?case by (auto split: if_splits)
qed

lemma nul_free: "CHR 0x00 \<notin> set (sdec v)" "list_all plain_field fs \<Longrightarrow> CHR 0x00 \<notin> set (with_commas fs)"
  "CHR 0x00 \<notin> set (comma_sep (map sdec vs))"
proof -
  have d: "CHR 0x00 \<notin> set (dec n)" for n
    using dec_digits [of n] digit_not_special by (auto simp: list_all_iff)
  then show s: "CHR 0x00 \<notin> set (sdec v)" for v by (simp add: sdec_def)
  show "list_all plain_field fs \<Longrightarrow> CHR 0x00 \<notin> set (with_commas fs)"
    by (auto simp: with_commas_def list_all_iff plain_field_def)
  show "CHR 0x00 \<notin> set (comma_sep (map sdec vs))"
  proof (induction vs)
    case (Cons v vs)
    then show ?case using s by (cases vs) auto
  qed simp
qed

section \<open>What is read\<close>

text \<open>
  The signal values are read out of every report of an LTE cell: whatever comes before the mark and after the values,
  and whatever the ten fields between them hold, as long as none of them is empty.
\<close>

lemma servingcell_roundtrip:
  assumes "mr_ok r" and "mr_out r = pre @ LTE_MARK @ '','' @ with_commas fs @ comma_sep (map sdec vs) @ rest"
    and "strstr (pre @ butlast LTE_MARK) LTE_MARK = None" and "CHR 0x00 \<notin> set pre"
    and "length fs = 10" and "list_all plain_field fs"
    and "length vs = 4" and "list_all (\<lambda>v. \<bar>v\<bar> \<le> LONG_MAX) vs" and "rest = [] \<or> \<not> is_digit (hd rest)"
  shows "servingcell_report r = Cell_signal vs"
proof -
  let ?tail = "'','' @ with_commas fs @ comma_sep (map sdec vs) @ c_str rest"
  have "CHR 0x00 \<notin> set (LTE_MARK @ '','')" by (simp add: LTE_MARK_def)
  with assms(4) nul_free(2) [OF assms(6)] nul_free(3) [of vs]
  have "CHR 0x00 \<notin> set (pre @ LTE_MARK @ '','' @ with_commas fs @ comma_sep (map sdec vs))" by simp
  from c_str_append [OF this, of rest] have c: "c_str (mr_out r) = pre @ LTE_MARK @ ?tail" by (simp add: assms(2))
  have s: "strstr (c_str (mr_out r)) LTE_MARK = Some (LTE_MARK @ ?tail)"
    unfolding c by (rule strstr_skip [OF _ assms(3)]) (simp add: LTE_MARK_def)
  have r: "c_str rest = [] \<or> \<not> is_digit (hd (c_str rest))"
    using assms(9) by (cases rest) (auto simp: c_str_def)
  have "length LTE_MARK = 5" by (simp add: LTE_MARK_def)
  then have "sscanf_lte (LTE_MARK @ ?tail) = Option.bind (skip_fields 10 (with_commas fs @ comma_sep (map sdec vs) @ c_str rest))
      (scan_ds 3)"
    by (simp add: sscanf_lte_def)
  also have "\<dots> = Some vs"
    using skip_fields_plain [OF assms(6,5)] scan_ds_sdec [OF r _ assms(8), of 3] assms(7) by simp
  finally show ?thesis using s assms(1) by (simp add: servingcell_report_def)
qed

text \<open>An empty field makes the scan fail: \<open>%[^,]\<close> does not match the empty string, so the values after it are not read.\<close>

lemma empty_field_not_read:
  assumes "list_all plain_field fs" and "length fs < 10"
  shows "sscanf_lte (LTE_MARK @ '','' @ with_commas fs @ '','' @ rest) = None"
proof -
  have "skip_fields n (with_commas fs @ '','' @ rest) = None" if "length fs < n" for n
    using assms(1) that
  proof (induction fs arbitrary: n)
    case Nil
    then show ?case by (cases n) (simp_all add: with_commas_def skip_field_def)
  next
    case (Cons f fs)
    then show ?case
      using skip_field_plain [of f "with_commas fs @ '','' @ rest"] by (cases n) (auto simp: with_commas_def)
  qed
  with assms(2) show ?thesis by (simp add: sscanf_lte_def LTE_MARK_def)
qed

end
