(* ===== verification/Esp32_Pins.thy ===== *)
theory Esp32_Pins
  imports Esp32_Backend
begin

text \<open>
  The two control lines of an Espressif target. A chip looks at its boot line at the moment reset is released: asserted, it
  starts its serial loader, released, it starts the application. What the callbacks and the reset pulse of
  \<open>main/prog/esp32_serial_backend.cpp\<close> make of that, for every polarity of the two lines.
\<close>

section \<open>The lines\<close>

text \<open>The levels the firmware drives, and for every release of reset whether the chip starts its loader.\<close>

record lines =
  ln_reset :: nat
  ln_boot :: nat
  ln_starts :: "bool list"

definition set_line :: "target_config \<Rightarrow> ctl_pin \<Rightarrow> nat \<Rightarrow> lines \<Rightarrow> lines" where
  "set_line cfg pin l p =
     (case pin of
        BOOT_PIN \<Rightarrow> p\<lparr>ln_boot := l\<rparr>
      | RESET_PIN \<Rightarrow>
          if l = deasserted (cfg_reset_assert_level cfg) \<and> ln_reset p = asserted (cfg_reset_assert_level cfg)
          then p\<lparr>ln_reset := l, ln_starts := ln_starts p @ [ln_boot p = asserted (cfg_boot_assert_level cfg)]\<rparr>
          else p\<lparr>ln_reset := l\<rparr>)"

fun line_step :: "target_config \<Rightarrow> esp_call \<Rightarrow> lines \<Rightarrow> lines" where
  "line_step cfg (Gpio_set_level pin l) p = set_line cfg pin l p"
| "line_step cfg c p = p"

definition lines_after :: "target_config \<Rightarrow> esp_call list \<Rightarrow> lines \<Rightarrow> lines" where
  "lines_after cfg cs p = fold (line_step cfg) cs p"

text \<open>The lines as a session leaves them: both released.\<close>

definition at_rest :: "target_config \<Rightarrow> lines \<Rightarrow> bool" where
  "at_rest cfg p \<longleftrightarrow> ln_reset p = deasserted (cfg_reset_assert_level cfg) \<and> ln_boot p = deasserted (cfg_boot_assert_level cfg)"

definition new_calls :: "esp32 \<Rightarrow> esp32 \<Rightarrow> esp_call list" where
  "new_calls s s' = drop (length (eb_log s)) (eb_log s')"

section \<open>Lemmas\<close>

lemma levels_differ [simp]: "asserted l \<noteq> deasserted l" "deasserted l \<noteq> asserted l"
  by (simp_all add: asserted_def deasserted_def)

lemmas call_logs = lnote_def lcall_def gcall_def new_calls_def Let_def

lemmas line_defs = lines_after_def set_line_def at_rest_def

lemma prepare_pin_log:
  "prepare_pin ew pin l s = (ESP_OK, s') \<Longrightarrow>
     eb_log s' = eb_log s @ [Gpio_reset_pin pin, Gpio_pullup pin, Gpio_set_level pin l, Gpio_output pin]"
  by (auto simp: prepare_pin_def and_then_OK gcall_def lcall_def Let_def)

text \<open>Both lines end up released when the pins could be prepared, and no reset is released on the way.\<close>

lemma prepared_lines:
  assumes "prepare_control_pins ew True cfg s = (ESP_OK, s')" and "ln_reset p \<noteq> asserted (cfg_reset_assert_level cfg)"
  shows "at_rest cfg (lines_after cfg (new_calls s s') p) \<and> ln_starts (lines_after cfg (new_calls s s') p) = ln_starts p"
proof -
  from assms(1) obtain s1 where
      "prepare_pin ew RESET_PIN (deasserted (cfg_reset_assert_level cfg)) s = (ESP_OK, s1)"
      "prepare_pin ew BOOT_PIN (deasserted (cfg_boot_assert_level cfg)) s1 = (ESP_OK, s')"
    by (auto simp: prepare_control_pins_def split: check_split_asm)
  from prepare_pin_log [OF this(1)] prepare_pin_log [OF this(2)] assms(2) show ?thesis
    by (simp add: new_calls_def line_defs)
qed

section \<open>Starting the target\<close>

text \<open>
  With the lines at rest, \<open>enter_bootloader\<close> starts the target once and in its loader, \<open>reset_target\<close> and a reset pulse that
  succeeds start it once and in its application, and all three leave the lines at rest.
\<close>

lemma target_starts:
  assumes "at_rest cfg p"
  shows "let b = lines_after cfg (new_calls s (esp32_backend_enter_bootloader ew cfg s)) p;
      r = lines_after cfg (new_calls s (esp32_backend_reset_target ew cfg s)) p;
      u = lines_after cfg (new_calls s (snd (pulse_reset ew cfg s))) p in
    at_rest cfg b \<and> ln_starts b = ln_starts p @ [True] \<and>
    at_rest cfg r \<and> ln_starts r = ln_starts p @ [False] \<and>
    (fst (pulse_reset ew cfg s) = ESP_OK \<longrightarrow> at_rest cfg u \<and> ln_starts u = ln_starts p @ [False])"
  using assms
  by (simp add: esp32_backend_enter_bootloader_def esp32_backend_reset_target_def pulse_reset_def check_def call_logs line_defs)

end
