(* ===== verification/Ui_Lvgl.thy ===== *)
theory Ui_Lvgl
  imports Si_Prelude
begin

text \<open>
  What the screens of \<open>main/ui\<close> need of LVGL and of its port, neither of which is under
  \<open>main/\<close>. LVGL is a parameter \<open>lv_env\<close>: which object a creation returns (\<open>None\<close> is
  \<open>nullptr\<close>) and whether \<open>lvgl_port_lock\<close> gets the lock, as functions of the calls made so far.
  What the code does to the library is the sequence of calls it makes. The documented effect of
  those calls on the widget tree is written down once, as \<open>heap_step\<close>: creating, deleting with all
  children, setting a text, a colour, a range, a value. Two predicates on a sequence of calls follow:
  \<open>safe\<close>, every call is given live objects only, and \<open>guarded\<close>, widgets are touched only
  while the lock is held. \<open>snprintf\<close> is modelled for the conversions the composers use.
\<close>

section \<open>Calls\<close>

type_synonym ptr = "nat option"

datatype lv_color = lv_color_make u8 u8 u8 | lv_color_hex u32 | lv_color_white | lv_color_black

datatype lv_part = LV_PART_MAIN | LV_PART_INDICATOR

datatype lv_align = LV_ALIGN_TOP_LEFT | LV_TEXT_ALIGN_CENTER

datatype lv_style =
    Bg_color lv_color | Bg_opa nat | Pad_left int | Pad_right int | Pad_top int | Pad_bottom int
  | Border_width int | Radius int | Align lv_align | Text_font nat | Text_color lv_color
  | Text_align lv_align

datatype lv_call =
    Port_lock nat bool
  | Port_unlock
  | Obj_create ptr
  | Label_create ptr ptr
  | Bar_create ptr ptr
  | Obj_del ptr
  | Set_pos ptr int int
  | Set_size ptr int int
  | Label_set_recolor ptr bool
  | Label_set_text ptr "string option"
  | Set_style ptr lv_style lv_part
  | Bar_set_range ptr int int
  | Bar_set_value ptr int

text \<open>\<open>fmt_g8\<close> is the conversion \<open>%.8g\<close> of a \<open>double\<close>.\<close>

record 'd lv_env =
  lv_new :: "lv_call list \<Rightarrow> ptr"
  lv_locks :: "lv_call list \<Rightarrow> bool"
  fmt_g8 :: "'d \<Rightarrow> string"

section \<open>The widget tree\<close>

text \<open>A widget knows its ancestors, nearest first.\<close>

record widget =
  w_anc :: "nat list"
  w_text :: "string option"
  w_bg :: "lv_color option"
  w_indicator :: "lv_color option"
  w_text_color :: "lv_color option"
  w_range :: "(int \<times> int) option"
  w_value :: "int option"

type_synonym heap = "nat \<rightharpoonup> widget"

definition new_widget :: "nat list \<Rightarrow> widget" where
  "new_widget anc = \<lparr>w_anc = anc, w_text = None, w_bg = None, w_indicator = None,
     w_text_color = None, w_range = None, w_value = None\<rparr>"

definition ancestors :: "heap \<Rightarrow> nat \<Rightarrow> nat list" where
  "ancestors hp p = (case hp p of None \<Rightarrow> [] | Some w \<Rightarrow> w_anc w)"

definition create_below :: "ptr \<Rightarrow> ptr \<Rightarrow> heap \<Rightarrow> heap" where
  "create_below parent res hp =
     (case res of
        None \<Rightarrow> hp
      | Some h \<Rightarrow> hp(h \<mapsto> new_widget (case parent of None \<Rightarrow> [] | Some p \<Rightarrow> p # ancestors hp p)))"

definition kill :: "nat \<Rightarrow> heap \<Rightarrow> heap" where
  "kill h hp = (\<lambda>x. if x = h \<or> h \<in> set (ancestors hp x) then None else hp x)"

definition upd_widget :: "ptr \<Rightarrow> (widget \<Rightarrow> widget) \<Rightarrow> heap \<Rightarrow> heap" where
  "upd_widget p f hp = (case p of None \<Rightarrow> hp | Some h \<Rightarrow> hp(h := map_option f (hp h)))"

fun style_step :: "lv_style \<Rightarrow> lv_part \<Rightarrow> widget \<Rightarrow> widget" where
  "style_step (Bg_color c) LV_PART_MAIN w = w\<lparr>w_bg := Some c\<rparr>"
| "style_step (Bg_color c) LV_PART_INDICATOR w = w\<lparr>w_indicator := Some c\<rparr>"
| "style_step (Text_color c) LV_PART_MAIN w = w\<lparr>w_text_color := Some c\<rparr>"
| "style_step _ _ w = w"

text \<open>\<open>lv_label_set_text\<close> with \<open>NULL\<close> keeps the current text.\<close>

fun heap_step :: "lv_call \<Rightarrow> heap \<Rightarrow> heap" where
  "heap_step (Obj_create res) hp = create_below None res hp"
| "heap_step (Label_create p res) hp = create_below p res hp"
| "heap_step (Bar_create p res) hp = create_below p res hp"
| "heap_step (Obj_del (Some h)) hp = kill h hp"
| "heap_step (Label_set_text p (Some t)) hp = upd_widget p (\<lambda>w. w\<lparr>w_text := Some t\<rparr>) hp"
| "heap_step (Set_style p st part) hp = upd_widget p (style_step st part) hp"
| "heap_step (Bar_set_range p lo hi) hp = upd_widget p (\<lambda>w. w\<lparr>w_range := Some (lo, hi)\<rparr>) hp"
| "heap_step (Bar_set_value p v) hp = upd_widget p (\<lambda>w. w\<lparr>w_value := Some v\<rparr>) hp"
| "heap_step _ hp = hp"

definition heap_of :: "lv_call list \<Rightarrow> heap" where
  "heap_of tr = fold heap_step tr Map.empty"

section \<open>Well-behaved sequences of calls\<close>

definition live :: "heap \<Rightarrow> ptr \<Rightarrow> bool" where
  "live hp p \<longleftrightarrow> (case p of None \<Rightarrow> False | Some h \<Rightarrow> hp h \<noteq> None)"

fun uses :: "lv_call \<Rightarrow> ptr list" where
  "uses (Label_create p res) = [p]"
| "uses (Bar_create p res) = [p]"
| "uses (Obj_del p) = [p]"
| "uses (Set_pos p x y) = [p]"
| "uses (Set_size p x y) = [p]"
| "uses (Label_set_recolor p on) = [p]"
| "uses (Label_set_text p t) = [p]"
| "uses (Set_style p st part) = [p]"
| "uses (Bar_set_range p lo hi) = [p]"
| "uses (Bar_set_value p v) = [p]"
| "uses _ = []"

fun safe_from :: "heap \<Rightarrow> lv_call list \<Rightarrow> bool" where
  "safe_from hp [] = True"
| "safe_from hp (c # cs) = (list_all (live hp) (uses c) \<and> safe_from (heap_step c hp) cs)"

text \<open>No call is given a null pointer or an object that has been deleted.\<close>

definition safe :: "lv_call list \<Rightarrow> bool" where
  "safe tr = safe_from Map.empty tr"

text \<open>The port's lock is recursive: how often it is held.\<close>

fun lock_step :: "lv_call \<Rightarrow> nat \<Rightarrow> nat" where
  "lock_step (Port_lock ms ok) d = (if ok then d + 1 else d)"
| "lock_step Port_unlock d = d - 1"
| "lock_step _ d = d"

definition lock_depth :: "lv_call list \<Rightarrow> nat" where
  "lock_depth tr = fold lock_step tr 0"

fun needs_lock :: "lv_call \<Rightarrow> bool" where
  "needs_lock (Port_lock ms ok) = False"
| "needs_lock _ = True"

fun guarded_from :: "nat \<Rightarrow> lv_call list \<Rightarrow> bool" where
  "guarded_from d [] = True"
| "guarded_from d (c # cs) = ((needs_lock c \<longrightarrow> 0 < d) \<and> guarded_from (lock_step c d) cs)"

text \<open>Widgets are touched, and the lock given back, only by a task that holds it.\<close>

definition guarded :: "lv_call list \<Rightarrow> bool" where
  "guarded tr = guarded_from 0 tr"

section \<open>What the code relies on\<close>

text \<open>A creation returns memory that holds no live object.\<close>

definition lv_fresh :: "'d lv_env \<Rightarrow> bool" where
  "lv_fresh env \<longleftrightarrow> (\<forall>tr h. lv_new env tr = Some h \<longrightarrow> heap_of tr h = None)"

text \<open>There is always memory for another widget.\<close>

definition lv_has_memory :: "'d lv_env \<Rightarrow> bool" where
  "lv_has_memory env \<longleftrightarrow> (\<forall>tr. lv_new env tr \<noteq> None)"

section \<open>Formatting\<close>

fun udec :: "nat \<Rightarrow> string" where
  "udec n = (if n < 10 then [char_of (48 + n)] else udec (n div 10) @ [char_of (48 + n mod 10)])"

declare udec.simps [simp del]

text \<open>The zero-padded conversion \<open>%0<width>u\<close>.\<close>

definition udec0 :: "nat \<Rightarrow> nat \<Rightarrow> string" where
  "udec0 width n = replicate (width - length (udec n)) (CHR ''0'') @ udec n"

text \<open>\<open>snprintf(buf, n, ...)\<close> keeps the first \<open>n - 1\<close> characters.\<close>

definition snprintf :: "nat \<Rightarrow> string \<Rightarrow> string" where
  "snprintf n text = take (n - 1) text"

section \<open>Facts on calls\<close>

named_theorems lv \<open>evaluation of a sequence of calls\<close>

lemma heap_of_Nil [lv]: "heap_of [] = Map.empty"
  by (simp add: heap_of_def)

lemma heap_of_append [lv]: "heap_of (tr @ cs) = fold heap_step cs (heap_of tr)"
  by (simp add: heap_of_def)

lemma safe_from_append: "safe_from hp (xs @ ys) = (safe_from hp xs \<and> safe_from (fold heap_step xs hp) ys)"
  by (induction xs arbitrary: hp) auto

lemma safe_Nil [lv]: "safe []"
  by (simp add: safe_def)

lemma safe_append [lv]: "safe (tr @ cs) = (safe tr \<and> safe_from (heap_of tr) cs)"
  by (simp add: safe_def heap_of_def safe_from_append)

lemma guarded_from_append:
  "guarded_from d (xs @ ys) = (guarded_from d xs \<and> guarded_from (fold lock_step xs d) ys)"
  by (induction xs arbitrary: d) auto

lemma guarded_append: "guarded (tr @ cs) = (guarded tr \<and> guarded_from (lock_depth tr) cs)"
  by (simp add: guarded_def lock_depth_def guarded_from_append)

lemma lock_depth_append: "lock_depth (tr @ cs) = fold lock_step cs (lock_depth tr)"
  by (simp add: lock_depth_def)

lemma heap_of_snoc_lock [simp]: "heap_of (tr @ [Port_lock ms ok]) = heap_of tr"
  by (simp add: lv)

lemma live_Some [lv]: "live hp (Some h) = (hp h \<noteq> None)"
  by (simp add: live_def)

lemma upd_widget_Some [lv]: "upd_widget (Some h) f hp = hp(h := map_option f (hp h))"
  by (simp add: upd_widget_def)

lemma create_below_Some [lv]:
  "create_below None (Some h) hp = hp(h \<mapsto> new_widget [])"
  "create_below (Some p) (Some h) hp = hp(h \<mapsto> new_widget (p # ancestors hp p))"
  by (simp_all add: create_below_def)

lemma create_below_None [lv]: "create_below p None hp = hp"
  by (simp add: create_below_def)

lemma new_widget_anc [simp]: "w_anc (new_widget a) = a"
  by (simp add: new_widget_def)

lemma style_step_anc [simp]: "w_anc (style_step st part w) = w_anc w"
  by (cases "(st, part, w)" rule: style_step.cases) simp_all

lemma lv_newE:
  assumes "lv_has_memory env" and "lv_fresh env"
  obtains h where "lv_new env tr = Some h" and "heap_of tr h = None"
  using assms unfolding lv_has_memory_def lv_fresh_def by blast

text \<open>
  Calls that set properties of one widget: they change that widget only, keep its ancestors, and
  are safe on a live widget.
\<close>

fun sets :: "ptr \<Rightarrow> lv_call \<Rightarrow> bool" where
  "sets p (Set_pos q x y) = (q = p)"
| "sets p (Set_size q x y) = (q = p)"
| "sets p (Label_set_recolor q on) = (q = p)"
| "sets p (Label_set_text q t) = (q = p)"
| "sets p (Set_style q st part) = (q = p)"
| "sets p (Bar_set_range q lo hi) = (q = p)"
| "sets p (Bar_set_value q v) = (q = p)"
| "sets p _ = False"

fun widget_step :: "lv_call \<Rightarrow> widget \<Rightarrow> widget" where
  "widget_step (Label_set_text p (Some t)) w = w\<lparr>w_text := Some t\<rparr>"
| "widget_step (Set_style p st part) w = style_step st part w"
| "widget_step (Bar_set_range p lo hi) w = w\<lparr>w_range := Some (lo, hi)\<rparr>"
| "widget_step (Bar_set_value p v) w = w\<lparr>w_value := Some v\<rparr>"
| "widget_step _ w = w"

lemma widget_step_anc [simp]: "w_anc (widget_step c w) = w_anc w"
  by (cases "(c, w)" rule: widget_step.cases) simp_all

lemma widget_steps_anc [simp]: "w_anc (fold widget_step cs w) = w_anc w"
  by (induction cs arbitrary: w) simp_all

lemma sets_step:
  assumes "sets (Some h) c" and "hp h = Some w"
  shows "heap_step c hp = hp(h \<mapsto> widget_step c w)" and "uses c = [Some h]"
proof -
  show "heap_step c hp = hp(h \<mapsto> widget_step c w)"
  proof (cases c)
    case (Label_set_text q t)
    then show ?thesis using assms by (cases t) (auto simp: upd_widget_Some fun_upd_idem)
  qed (use assms in \<open>auto simp: upd_widget_Some fun_upd_idem\<close>)
  show "uses c = [Some h]" using assms(1) by (cases c) auto
qed

lemma sets_heap:
  assumes "list_all (sets (Some h)) cs" and "hp h = Some w"
  shows "fold heap_step cs hp = hp(h \<mapsto> fold widget_step cs w) \<and> safe_from hp cs"
  using assms
proof (induction cs arbitrary: hp w)
  case Nil
  then show ?case by (simp add: fun_upd_idem)
next
  case (Cons c cs)
  let ?hp1 = "hp(h \<mapsto> widget_step c w)"
  have "list_all (sets (Some h)) cs" "?hp1 h = Some (widget_step c w)"
    using Cons.prems by simp_all
  from Cons.IH [of ?hp1 "widget_step c w", OF this]
  have "fold heap_step cs ?hp1 = ?hp1(h \<mapsto> fold widget_step cs (widget_step c w))" "safe_from ?hp1 cs"
    by blast+
  with sets_step [of h c hp w] Cons.prems show ?case by (simp add: live_Some)
qed

text \<open>An LVGL that numbers its objects and never runs out of memory meets both hypotheses.\<close>

fun above :: "lv_call \<Rightarrow> nat" where
  "above (Obj_create (Some h)) = Suc h"
| "above (Label_create p (Some h)) = Suc h"
| "above (Bar_create p (Some h)) = Suc h"
| "above _ = 0"

definition next_number :: "lv_call list \<Rightarrow> nat" where
  "next_number tr = sum_list (map above tr)"

definition counting_env :: "('d \<Rightarrow> string) \<Rightarrow> 'd lv_env" where
  "counting_env fmt = \<lparr>lv_new = (\<lambda>tr. Some (next_number tr)), lv_locks = (\<lambda>tr. True), fmt_g8 = fmt\<rparr>"

lemma heap_step_dom: "heap_step c hp h \<noteq> None \<Longrightarrow> hp h \<noteq> None \<or> h < above c"
  by (cases "(c, hp)" rule: heap_step.cases)
    (auto simp: create_below_def kill_def upd_widget_def split: option.splits if_splits)

lemma heap_of_below: "heap_of tr h \<noteq> None \<Longrightarrow> h < next_number tr"
proof (induction tr rule: rev_induct)
  case Nil
  then show ?case by (simp add: lv)
next
  case (snoc c tr)
  then have "heap_of tr h \<noteq> None \<or> h < above c"
    by (metis heap_of_append heap_step_dom fold_simps)
  with snoc.IH show ?case by (auto simp: next_number_def)
qed

lemma counting_env_fresh: "lv_fresh (counting_env fmt)"
  using heap_of_below by (fastforce simp: lv_fresh_def counting_env_def)

lemma counting_env_memory: "lv_has_memory (counting_env fmt)"
  by (simp add: lv_has_memory_def counting_env_def)

end
