(* ===== verification/Ui_Screens.thy ===== *)
theory Ui_Screens
  imports Ui_Lvgl
begin

text \<open>
  The three screens of \<open>main/ui\<close>: \<open>ui_screen_message\<close>, \<open>ui_screen_progress\<close> and
  \<open>ui_screen_current\<close>, translated from the files for the 2.79 inch panel. The positions and sizes in which the
  classes for the 1.14 inch panel differ are the fields of \<open>ui_class\<close>, which also records the one difference between
  the two composers; theory \<open>Ui_114\<close> translates the other files on their own. Each \<open>init\<close> creates its widgets one after the
  other and returns at the first \<open>nullptr\<close>; a screen keeps the pointers it had got so far.
  The lemmas give the widget tree each \<open>init\<close> leaves when memory lasts.
\<close>

section \<open>The two families\<close>

record ui_class =
  cl_unlock_on_fail :: bool
  cl_w :: int
  cl_h :: int
  cl_comment_h :: int
  cl_current_y :: int
  cl_current_h :: int
  cl_state_y :: int

definition ui_class_114 :: ui_class where
  "ui_class_114 = \<lparr>cl_unlock_on_fail = False, cl_w = 240, cl_h = 135, cl_comment_h = 82,
     cl_current_y = 40, cl_current_h = 40, cl_state_y = 87\<rparr>"

definition ui_class_279 :: ui_class where
  "ui_class_279 = \<lparr>cl_unlock_on_fail = True, cl_w = 428, cl_h = 142, cl_comment_h = 89,
     cl_current_y = 37, cl_current_h = 57, cl_state_y = 94\<rparr>"

section \<open>Message screen\<close>

record ui_screen_message =
  ms_base :: ptr
  ms_header :: ptr
  ms_comment :: ptr

text \<open>The properties both text screens give their header and comment labels.\<close>

definition header_style :: "ui_class \<Rightarrow> ptr \<Rightarrow> lv_call list" where
  "header_style cl h =
     [Set_pos h 0 16, Set_size h (cl_w cl) 36, Label_set_recolor h True,
      Label_set_text h (Some ''UNKNOWN''),
      Set_style h (Align LV_ALIGN_TOP_LEFT) LV_PART_MAIN,
      Set_style h (Text_font 28) LV_PART_MAIN,
      Set_style h (Text_color (lv_color_hex 0xff000000)) LV_PART_MAIN,
      Set_style h (Text_align LV_TEXT_ALIGN_CENTER) LV_PART_MAIN]"

definition comment_style :: "ui_class \<Rightarrow> ptr \<Rightarrow> ptr \<Rightarrow> lv_call list" where
  "comment_style cl h c =
     [Set_pos c 0 53, Set_size c (cl_w cl) (cl_comment_h cl), Label_set_text c (Some ''0%''),
      Set_style h (Align LV_ALIGN_TOP_LEFT) LV_PART_MAIN,
      Set_style c (Text_color (lv_color_hex 0xff000000)) LV_PART_MAIN,
      Set_style c (Text_font 16) LV_PART_MAIN,
      Set_style c (Text_align LV_TEXT_ALIGN_CENTER) LV_PART_MAIN]"

definition message_init ::
  "ui_class \<Rightarrow> 'd lv_env \<Rightarrow> ptr \<Rightarrow> ui_screen_message \<times> lv_call list \<Rightarrow>
     esp_err \<times> ui_screen_message \<times> lv_call list" where
  "message_init cl env base_obj = (\<lambda>(m, tr).
     if base_obj = None then (ESP_ERR_INVALID_ARG, m, tr)
     else
       let h = lv_new env tr;
           m = m\<lparr>ms_base := base_obj, ms_header := h\<rparr>;
           tr = tr @ [Label_create base_obj h] in
       if h = None then (ESP_ERR_NO_MEM, m, tr)
       else
         let tr = tr @ header_style cl h;
             c = lv_new env tr;
             m = m\<lparr>ms_comment := c\<rparr>;
             tr = tr @ [Label_create base_obj c] in
         if c = None then (ESP_ERR_NO_MEM, m, tr)
         else (ESP_OK, m, tr @ comment_style cl h c))"

definition message_deinit :: "ui_screen_message \<Rightarrow> lv_call list" where
  "message_deinit m = (if ms_base m \<noteq> None then [Obj_del (ms_base m)] else [])"

definition message_set_header_text :: "ui_screen_message \<Rightarrow> string option \<Rightarrow> lv_call list" where
  "message_set_header_text m text =
     (if text = None \<or> ms_header m = None then [] else [Label_set_text (ms_header m) text])"

definition message_set_comment_text :: "ui_screen_message \<Rightarrow> string option \<Rightarrow> lv_call list" where
  "message_set_comment_text m text =
     (if text = None \<or> ms_comment m = None then [] else [Label_set_text (ms_comment m) text])"

definition message_set_color :: "ui_screen_message \<Rightarrow> lv_color \<Rightarrow> lv_color \<Rightarrow> lv_call list" where
  "message_set_color m background text =
     (if ms_comment m = None \<or> ms_header m = None \<or> ms_base m = None then []
      else [Set_style (ms_base m) (Bg_color background) LV_PART_MAIN,
            Set_style (ms_header m) (Text_color text) LV_PART_MAIN,
            Set_style (ms_comment m) (Text_color text) LV_PART_MAIN])"

section \<open>Progress screen\<close>

record ui_screen_progress =
  ps_base :: ptr
  ps_bar :: ptr
  ps_header :: ptr
  ps_comment :: ptr

definition bar_style :: "ui_class \<Rightarrow> ptr \<Rightarrow> lv_call list" where
  "bar_style cl p =
     [Set_pos p 0 0, Set_size p (cl_w cl) (cl_h cl), Bar_set_value p 25,
      Set_style p (Radius 0) LV_PART_MAIN,
      Set_style p (Bg_color (lv_color_hex 0xffffffff)) LV_PART_MAIN,
      Set_style p (Bg_opa 255) LV_PART_MAIN,
      Set_style p (Radius 0) LV_PART_INDICATOR]"

definition progress_init ::
  "ui_class \<Rightarrow> 'd lv_env \<Rightarrow> ptr \<Rightarrow> ui_screen_progress \<times> lv_call list \<Rightarrow>
     esp_err \<times> ui_screen_progress \<times> lv_call list" where
  "progress_init cl env base_obj = (\<lambda>(m, tr).
     if base_obj = None then (ESP_ERR_INVALID_ARG, m, tr)
     else
       let p = lv_new env tr;
           m = m\<lparr>ps_base := base_obj, ps_bar := p\<rparr>;
           tr = tr @ [Bar_create base_obj p] in
       if p = None then (ESP_ERR_NO_MEM, m, tr)
       else
         let tr = tr @ bar_style cl p;
             h = lv_new env tr;
             m = m\<lparr>ps_header := h\<rparr>;
             tr = tr @ [Label_create p h] in
         if h = None then (ESP_ERR_NO_MEM, m, tr)
         else
           let tr = tr @ header_style cl h;
               c = lv_new env tr;
               m = m\<lparr>ps_comment := c\<rparr>;
               tr = tr @ [Label_create p c] in
           if c = None then (ESP_ERR_NO_MEM, m, tr)
           else (ESP_OK, m, tr @ comment_style cl h c))"

definition progress_deinit :: "ui_screen_progress \<Rightarrow> lv_call list" where
  "progress_deinit m = (if ps_base m \<noteq> None then [Obj_del (ps_base m)] else [])"

text \<open>The casts \<open>(int32_t)full\<close> and \<open>(int32_t)done\<close> of the 32-bit counts.\<close>

definition progress_set_progress :: "ui_screen_progress \<Rightarrow> u32 \<Rightarrow> u32 \<Rightarrow> lv_call list" where
  "progress_set_progress m done full =
     (if ps_bar m = None then []
      else [Bar_set_range (ps_bar m) 0 (sint full), Bar_set_value (ps_bar m) (sint done)])"

definition progress_set_header_text :: "ui_screen_progress \<Rightarrow> string option \<Rightarrow> lv_call list" where
  "progress_set_header_text m text =
     (if text = None \<or> ps_header m = None then [] else [Label_set_text (ps_header m) text])"

definition progress_set_comment_text :: "ui_screen_progress \<Rightarrow> string option \<Rightarrow> lv_call list" where
  "progress_set_comment_text m text =
     (if text = None \<or> ps_comment m = None then [] else [Label_set_text (ps_comment m) text])"

definition progress_set_bar_color :: "ui_screen_progress \<Rightarrow> lv_color \<Rightarrow> lv_color \<Rightarrow> lv_call list" where
  "progress_set_bar_color m indicator_color bg_color =
     (if ps_bar m = None then []
      else [Set_style (ps_bar m) (Bg_color indicator_color) LV_PART_INDICATOR,
            Set_style (ps_bar m) (Bg_color bg_color) LV_PART_MAIN])"

section \<open>Current screen\<close>

record ui_screen_current =
  us_base :: ptr
  us_header :: ptr
  us_current :: ptr
  us_state :: ptr

definition title_style :: "ui_class \<Rightarrow> ptr \<Rightarrow> lv_call list" where
  "title_style cl h =
     [Set_pos h 0 0, Set_size h (cl_w cl) 36, Label_set_text h (Some ''Current Test''),
      Set_style h (Text_align LV_TEXT_ALIGN_CENTER) LV_PART_MAIN,
      Set_style h (Text_font 32) LV_PART_MAIN]"

definition reading_style :: "ui_class \<Rightarrow> ptr \<Rightarrow> lv_call list" where
  "reading_style cl c =
     [Set_pos c 0 (cl_current_y cl), Set_size c (cl_w cl) (cl_current_h cl),
      Label_set_text c (Some ''0.000000 uA''),
      Set_style c (Text_align LV_TEXT_ALIGN_CENTER) LV_PART_MAIN,
      Set_style c (Text_font 12) LV_PART_MAIN]"

definition state_style :: "ui_class \<Rightarrow> ptr \<Rightarrow> lv_call list" where
  "state_style cl s =
     [Set_pos s 0 (cl_state_y cl), Set_size s (cl_w cl) 48, Label_set_text s (Some ''PENDING''),
      Set_style s (Text_align LV_TEXT_ALIGN_CENTER) LV_PART_MAIN,
      Set_style s (Text_font 48) LV_PART_MAIN,
      Set_style s (Bg_color (lv_color_hex 0xffffff00)) LV_PART_MAIN,
      Set_style s (Bg_opa 255) LV_PART_MAIN]"

definition current_init ::
  "ui_class \<Rightarrow> 'd lv_env \<Rightarrow> ptr \<Rightarrow> ui_screen_current \<times> lv_call list \<Rightarrow>
     esp_err \<times> ui_screen_current \<times> lv_call list" where
  "current_init cl env base_obj = (\<lambda>(m, tr).
     if base_obj = None then (ESP_ERR_INVALID_ARG, m, tr)
     else
       let tr = tr @ [Set_style base_obj (Bg_color lv_color_white) LV_PART_MAIN,
                      Set_style base_obj (Bg_opa 255) LV_PART_MAIN];
           h = lv_new env tr;
           m = m\<lparr>us_base := base_obj, us_header := h\<rparr>;
           tr = tr @ [Label_create base_obj h] in
       if h = None then (ESP_ERR_NO_MEM, m, tr)
       else
         let tr = tr @ title_style cl h;
             c = lv_new env tr;
             m = m\<lparr>us_current := c\<rparr>;
             tr = tr @ [Label_create base_obj c] in
         if c = None then (ESP_ERR_NO_MEM, m, tr)
         else
           let tr = tr @ reading_style cl c;
               s = lv_new env tr;
               m = m\<lparr>us_state := s\<rparr>;
               tr = tr @ [Label_create base_obj s] in
           if s = None then (ESP_ERR_NO_MEM, m, tr)
           else (ESP_OK, m, tr @ state_style cl s))"

definition current_deinit :: "ui_screen_current \<Rightarrow> lv_call list" where
  "current_deinit m = (if us_base m \<noteq> None then [Obj_del (us_base m)] else [])"

definition current_set_current_main :: "ui_screen_current \<Rightarrow> string option \<Rightarrow> lv_call list" where
  "current_set_current_main m text =
     (if us_current m = None then [] else [Label_set_text (us_current m) text])"

definition current_set_state :: "ui_screen_current \<Rightarrow> string option \<Rightarrow> lv_color \<Rightarrow> lv_call list" where
  "current_set_state m text bg_color =
     (if us_state m = None then []
      else [Label_set_text (us_state m) text,
            Set_style (us_state m) (Bg_color bg_color) LV_PART_MAIN])"

section \<open>What an initialised screen looks like\<close>

definition attr :: "(widget \<Rightarrow> 'a option) \<Rightarrow> heap \<Rightarrow> ptr \<Rightarrow> 'a option" where
  "attr f hp p = (case p of None \<Rightarrow> None | Some h \<Rightarrow> (case hp h of None \<Rightarrow> None | Some w \<Rightarrow> f w))"

text \<open>The tree without the widgets' properties: each live widget with its ancestors.\<close>

definition shape :: "heap \<Rightarrow> nat \<rightharpoonup> nat list" where
  "shape hp = (\<lambda>x. map_option w_anc (hp x))"

lemma shape_update [simp]: "shape (hp(x \<mapsto> w)) = (shape hp)(x \<mapsto> w_anc w)"
  by (simp add: shape_def fun_eq_iff)

lemma shape_empty [simp]: "shape Map.empty = Map.empty"
  by (simp add: shape_def)

lemma shape_widget: "shape hp x = Some a \<longleftrightarrow> (\<exists>w. hp x = Some w \<and> w_anc w = a)"
  by (auto simp: shape_def)

lemma ancestors_shape: "ancestors hp x = (case shape hp x of None \<Rightarrow> [] | Some a \<Rightarrow> a)"
  by (simp add: ancestors_def shape_def split: option.split)

lemma live_shape: "hp x = None \<longleftrightarrow> shape hp x = None"
  by (simp add: shape_def)

definition message_tree :: "heap \<Rightarrow> ui_screen_message \<Rightarrow> ptr \<Rightarrow> bool" where
  "message_tree hp m base \<longleftrightarrow>
     (\<exists>b h c. base = Some b \<and> ms_base m = Some b \<and> ms_header m = Some h \<and> ms_comment m = Some c \<and>
        distinct [b, h, c] \<and> shape hp = [b \<mapsto> [], h \<mapsto> [b], c \<mapsto> [b]])"

definition progress_tree :: "heap \<Rightarrow> ui_screen_progress \<Rightarrow> ptr \<Rightarrow> bool" where
  "progress_tree hp m base \<longleftrightarrow>
     (\<exists>b p h c. base = Some b \<and>
        ps_base m = Some b \<and> ps_bar m = Some p \<and> ps_header m = Some h \<and> ps_comment m = Some c \<and>
        distinct [b, p, h, c] \<and> shape hp = [b \<mapsto> [], p \<mapsto> [b], h \<mapsto> [p, b], c \<mapsto> [p, b]])"

definition current_tree :: "heap \<Rightarrow> ui_screen_current \<Rightarrow> ptr \<Rightarrow> bool" where
  "current_tree hp m base \<longleftrightarrow>
     (\<exists>b h c s. base = Some b \<and>
        us_base m = Some b \<and> us_header m = Some h \<and> us_current m = Some c \<and> us_state m = Some s \<and>
        distinct [b, h, c, s] \<and> shape hp = [b \<mapsto> [], h \<mapsto> [b], c \<mapsto> [b], s \<mapsto> [b]])"

definition base_tree :: "heap \<Rightarrow> ptr \<Rightarrow> bool" where
  "base_tree hp base \<longleftrightarrow> (\<exists>b wb. base = Some b \<and> hp = [b \<mapsto> wb] \<and> w_anc wb = [])"

text \<open>The comment label's styling also touches the header label, without effect on the tree.\<close>

lemma comment_style_heap:
  assumes "hp c = Some w" and "hp h = Some v" and "h \<noteq> c"
  shows "\<exists>w'. fold heap_step (comment_style cl (Some h) (Some c)) hp = hp(c \<mapsto> w') \<and> w_anc w' = w_anc w \<and>
      w_text w' = Some ''0%''"
    and "safe_from hp (comment_style cl (Some h) (Some c))"
  using assms by (auto simp: comment_style_def lv fun_upd_twist [of c h] fun_upd_idem)

text \<open>A widget created below an object, then styled by a known sequence of calls.\<close>

lemma create_styled:
  assumes env: "lv_has_memory env" "lv_fresh env"
    and p: "heap_of tr p = Some wp"
    and style: "\<And>h w. heap_of tr h = None \<Longrightarrow>
      (\<exists>w'. fold heap_step (style h) ((heap_of tr)(h \<mapsto> w)) = (heap_of tr)(h \<mapsto> w') \<and>
         w_anc w' = w_anc w \<and> Q w') \<and>
      safe_from ((heap_of tr)(h \<mapsto> w)) (style h)"
    and call: "call = Label_create \<or> call = Bar_create" and sf: "safe tr"
  obtains h w where "lv_new env tr = Some h" and "heap_of tr h = None"
    and "heap_of (tr @ call (Some p) (Some h) # style h) = (heap_of tr)(h \<mapsto> w)"
    and "w_anc w = p # w_anc wp" and "Q w" and "safe (tr @ call (Some p) (Some h) # style h)"
proof -
  from env obtain h where h: "lv_new env tr = Some h" "heap_of tr h = None"
    by (rule lv_newE)
  let ?hp = "(heap_of tr)(h \<mapsto> new_widget (p # w_anc wp))"
  have step: "heap_step (call (Some p) (Some h)) (heap_of tr) = ?hp"
    using call p by (auto simp: lv ancestors_def)
  have use_p: "uses (call (Some p) (Some h)) = [Some p]"
    using call by auto
  from style [OF h(2), of "new_widget (p # w_anc wp)"]
  obtain w where w: "fold heap_step (style h) ?hp = (heap_of tr)(h \<mapsto> w)" "w_anc w = p # w_anc wp" "Q w"
      and st: "safe_from ?hp (style h)"
    by auto
  show ?thesis
  proof (rule that [OF h _ w(2,3)])
    show "heap_of (tr @ call (Some p) (Some h) # style h) = (heap_of tr)(h \<mapsto> w)"
      using w(1) step by (simp add: lv)
    show "safe (tr @ call (Some p) (Some h) # style h)"
      using sf p step st use_p by (simp add: lv)
  qed
qed

lemma create_widget:
  assumes "lv_has_memory env" "lv_fresh env" "heap_of tr p = Some wp" "safe tr"
    and "call = Label_create \<or> call = Bar_create"
    and "\<And>h. list_all (sets (Some h)) (style (Some h))"
    and "\<And>h w. Q (fold widget_step (style (Some h)) w)"
  obtains h w where "lv_new env tr = Some h" and "heap_of tr h = None"
    and "heap_of (tr @ call (Some p) (Some h) # style (Some h)) = (heap_of tr)(h \<mapsto> w)"
    and "w_anc w = p # w_anc wp" and "Q w"
    and "safe (tr @ call (Some p) (Some h) # style (Some h))"
proof (rule create_styled [OF assms(1-3), where style = "\<lambda>h. style (Some h)" and call = call and Q = Q])
  fix h w
  let ?hp = "(heap_of tr)(h \<mapsto> w)"
  show "(\<exists>w'. fold heap_step (style (Some h)) ?hp = (heap_of tr)(h \<mapsto> w') \<and> w_anc w' = w_anc w \<and> Q w') \<and>
      safe_from ?hp (style (Some h))"
    using sets_heap [OF assms(6), of ?hp h w] assms(7)
    by (intro conjI exI [of _ "fold widget_step (style (Some h)) w"]) simp_all
qed (use assms(4,5) that in auto)

lemmas style_defs = header_style_def bar_style_def title_style_def reading_style_def state_style_def

lemma style_sets:
  "list_all (sets (Some h)) (header_style cl (Some h))"
  "list_all (sets (Some h)) (bar_style cl (Some h))"
  "list_all (sets (Some h)) (title_style cl (Some h))"
  "list_all (sets (Some h)) (reading_style cl (Some h))"
  "list_all (sets (Some h)) (state_style cl (Some h))"
  by (simp_all add: style_defs)

lemma style_text:
  "w_text (fold widget_step (header_style cl (Some h)) w) = Some ''UNKNOWN''"
  "w_text (fold widget_step (state_style cl (Some h)) w) = Some ''PENDING''"
  by (simp_all add: style_defs)

lemmas create_header =
  create_widget [where call = Label_create and style = "header_style cl" and Q = "\<lambda>w. w_text w = Some ''UNKNOWN''",
    OF _ _ _ _ disjI1 [OF refl] style_sets(1) style_text(1)] for cl

lemmas create_bar =
  create_widget [where call = Bar_create and style = "bar_style cl" and Q = "\<lambda>_. True",
    OF _ _ _ _ disjI2 [OF refl] style_sets(2) TrueI] for cl

lemmas create_title =
  create_widget [where call = Label_create and style = "title_style cl" and Q = "\<lambda>_. True",
    OF _ _ _ _ disjI1 [OF refl] style_sets(3) TrueI] for cl

lemmas create_reading =
  create_widget [where call = Label_create and style = "reading_style cl" and Q = "\<lambda>_. True",
    OF _ _ _ _ disjI1 [OF refl] style_sets(4) TrueI] for cl

lemmas create_state =
  create_widget [where call = Label_create and style = "state_style cl" and Q = "\<lambda>w. w_text w = Some ''PENDING''",
    OF _ _ _ _ disjI1 [OF refl] style_sets(5) style_text(2)] for cl

lemma create_comment:
  assumes "lv_has_memory env" "lv_fresh env" "heap_of tr p = Some wp" "safe tr" "heap_of tr h = Some wh"
  obtains c w where "lv_new env tr = Some c" and "heap_of tr c = None"
    and "heap_of (tr @ Label_create (Some p) (Some c) # comment_style cl (Some h) (Some c)) = (heap_of tr)(c \<mapsto> w)"
    and "w_anc w = p # w_anc wp" and "w_text w = Some ''0%''"
    and "safe (tr @ Label_create (Some p) (Some c) # comment_style cl (Some h) (Some c))"
proof (rule create_styled [OF assms(1-3), where style = "\<lambda>c. comment_style cl (Some h) (Some c)"
      and call = Label_create and Q = "\<lambda>w. w_text w = Some ''0%''"])
  fix c w
  let ?hp = "(heap_of tr)(c \<mapsto> w)"
  assume "heap_of tr c = None"
  then have "h \<noteq> c" using assms(5) by auto
  then show "(\<exists>w'. fold heap_step (comment_style cl (Some h) (Some c)) ?hp = (heap_of tr)(c \<mapsto> w') \<and>
        w_anc w' = w_anc w \<and> w_text w' = Some ''0%'') \<and>
      safe_from ?hp (comment_style cl (Some h) (Some c))"
    using comment_style_heap [of ?hp c w h wh cl] assms(5) by simp
qed (use assms(4) that in auto)

lemma message_init_ok:
  assumes env: "lv_has_memory env" "lv_fresh env"
    and base: "base_tree (heap_of tr) base" and sf: "safe tr"
  shows "\<exists>m' tr'. message_init cl env base (m, tr) = (ESP_OK, m', tr') \<and>
     message_tree (heap_of tr') m' base \<and> safe tr' \<and>
     attr w_text (heap_of tr') (ms_header m') = Some ''UNKNOWN'' \<and>
     attr w_text (heap_of tr') (ms_comment m') = Some ''0%''"
proof -
  from base obtain b wb where b: "base = Some b" "heap_of tr = [b \<mapsto> wb]" "w_anc wb = []"
    by (auto simp: base_tree_def)
  obtain h wh where h: "lv_new env tr = Some h" "heap_of tr h = None"
      "heap_of (tr @ Label_create (Some b) (Some h) # header_style cl (Some h)) = (heap_of tr)(h \<mapsto> wh)"
      "w_anc wh = b # w_anc wb" "safe (tr @ Label_create (Some b) (Some h) # header_style cl (Some h))"
      "w_text wh = Some ''UNKNOWN''"
    using b by (auto intro: create_header [OF env _ sf, of b wb cl])
  let ?tr = "tr @ Label_create (Some b) (Some h) # header_style cl (Some h)"
  have hb: "h \<noteq> b" using h(2) b(2) by auto
  obtain c wc where c: "lv_new env ?tr = Some c" "heap_of ?tr c = None"
      "heap_of (?tr @ Label_create (Some b) (Some c) # comment_style cl (Some h) (Some c)) =
         (heap_of ?tr)(c \<mapsto> wc)"
      "w_anc wc = b # w_anc wb"
      "safe (?tr @ Label_create (Some b) (Some c) # comment_style cl (Some h) (Some c))"
      "w_text wc = Some ''0%''"
    using h(3) b hb by (auto intro: create_comment [OF env _ h(5), of b wb h wh cl])
  have cb: "c \<noteq> b" "c \<noteq> h" using c(2) h(3) b hb by (auto split: if_splits)
  show ?thesis
    using b h c hb cb by (auto simp: message_init_def message_tree_def attr_def Let_def intro!: exI)
qed

lemma progress_init_ok:
  assumes env: "lv_has_memory env" "lv_fresh env"
    and base: "base_tree (heap_of tr) base" and sf: "safe tr"
  shows "\<exists>m' tr'. progress_init cl env base (m, tr) = (ESP_OK, m', tr') \<and>
     progress_tree (heap_of tr') m' base \<and> safe tr'"
proof -
  from base obtain b wb where b: "base = Some b" "heap_of tr = [b \<mapsto> wb]" "w_anc wb = []"
    by (auto simp: base_tree_def)
  obtain p wp where p: "lv_new env tr = Some p" "heap_of tr p = None"
      "heap_of (tr @ Bar_create (Some b) (Some p) # bar_style cl (Some p)) = (heap_of tr)(p \<mapsto> wp)"
      "w_anc wp = b # w_anc wb" "safe (tr @ Bar_create (Some b) (Some p) # bar_style cl (Some p))"
    using b by (auto intro: create_bar [OF env _ sf, of b wb cl])
  let ?tr1 = "tr @ Bar_create (Some b) (Some p) # bar_style cl (Some p)"
  have pb: "p \<noteq> b" using p(2) b(2) by auto
  obtain h wh where h: "lv_new env ?tr1 = Some h" "heap_of ?tr1 h = None"
      "heap_of (?tr1 @ Label_create (Some p) (Some h) # header_style cl (Some h)) = (heap_of ?tr1)(h \<mapsto> wh)"
      "w_anc wh = p # w_anc wp" "safe (?tr1 @ Label_create (Some p) (Some h) # header_style cl (Some h))"
    using p(3) by (auto intro: create_header [OF env _ p(5), of p wp cl])
  let ?tr = "?tr1 @ Label_create (Some p) (Some h) # header_style cl (Some h)"
  have hb: "h \<noteq> b" "h \<noteq> p" using h(2) p(3) b pb by (auto split: if_splits)
  obtain c wc where c: "lv_new env ?tr = Some c" "heap_of ?tr c = None"
      "heap_of (?tr @ Label_create (Some p) (Some c) # comment_style cl (Some h) (Some c)) =
         (heap_of ?tr)(c \<mapsto> wc)"
      "w_anc wc = p # w_anc wp"
      "safe (?tr @ Label_create (Some p) (Some c) # comment_style cl (Some h) (Some c))"
    using h(3) p(3) hb by (auto intro: create_comment [OF env _ h(5), of p wp h wh cl])
  have cb: "c \<noteq> b" "c \<noteq> p" "c \<noteq> h" using c(2) h(3) p(3) b pb hb by (auto split: if_splits)
  show ?thesis
    using b p h c pb hb cb by (auto simp: progress_init_def progress_tree_def Let_def intro!: exI)
qed

lemma current_init_ok:
  assumes env: "lv_has_memory env" "lv_fresh env"
    and base: "base_tree (heap_of tr) base" and sf: "safe tr"
  shows "\<exists>m' tr'. current_init cl env base (m, tr) = (ESP_OK, m', tr') \<and>
     current_tree (heap_of tr') m' base \<and> safe tr' \<and>
     attr w_text (heap_of tr') (us_state m') = Some ''PENDING''"
proof -
  from base obtain b w0 where b0: "base = Some b" "heap_of tr = [b \<mapsto> w0]" "w_anc w0 = []"
    by (auto simp: base_tree_def)
  let ?tr0 = "tr @ [Set_style (Some b) (Bg_color lv_color_white) LV_PART_MAIN,
    Set_style (Some b) (Bg_opa 255) LV_PART_MAIN]"
  obtain wb where b: "heap_of ?tr0 = [b \<mapsto> wb]" "w_anc wb = []"
    using b0 by (simp add: lv)
  have sf0: "safe ?tr0" using sf b0 by (simp add: lv)
  obtain h wh where h: "lv_new env ?tr0 = Some h" "heap_of ?tr0 h = None"
      "heap_of (?tr0 @ Label_create (Some b) (Some h) # title_style cl (Some h)) = (heap_of ?tr0)(h \<mapsto> wh)"
      "w_anc wh = b # w_anc wb" "safe (?tr0 @ Label_create (Some b) (Some h) # title_style cl (Some h))"
    using b by (auto intro: create_title [OF env _ sf0, of b wb cl])
  let ?tr1 = "?tr0 @ Label_create (Some b) (Some h) # title_style cl (Some h)"
  have hb: "h \<noteq> b" using h(2) b by auto
  obtain c wc where c: "lv_new env ?tr1 = Some c" "heap_of ?tr1 c = None"
      "heap_of (?tr1 @ Label_create (Some b) (Some c) # reading_style cl (Some c)) = (heap_of ?tr1)(c \<mapsto> wc)"
      "w_anc wc = b # w_anc wb" "safe (?tr1 @ Label_create (Some b) (Some c) # reading_style cl (Some c))"
    using b h(3) hb by (auto intro: create_reading [OF env _ h(5), of b wb cl])
  let ?tr2 = "?tr1 @ Label_create (Some b) (Some c) # reading_style cl (Some c)"
  have cb: "c \<noteq> b" "c \<noteq> h" using c(2) h(3) b hb by (auto split: if_splits)
  obtain s ws where s: "lv_new env ?tr2 = Some s" "heap_of ?tr2 s = None"
      "heap_of (?tr2 @ Label_create (Some b) (Some s) # state_style cl (Some s)) = (heap_of ?tr2)(s \<mapsto> ws)"
      "w_anc ws = b # w_anc wb" "safe (?tr2 @ Label_create (Some b) (Some s) # state_style cl (Some s))"
      "w_text ws = Some ''PENDING''"
    using b h(3) c(3) hb cb by (auto intro: create_state [OF env _ c(5), of b wb cl])
  have sb: "s \<noteq> b" "s \<noteq> h" "s \<noteq> c" using s(2) c(3) h(3) b hb cb by (auto split: if_splits)
  show ?thesis
    using b0(1) b h c s hb cb sb by (auto simp: current_init_def current_tree_def attr_def Let_def intro!: exI)
qed

end
