(* ===== verification/Ui_Composer.thy ===== *)
theory Ui_Composer
  imports Ui_Screens
begin

text \<open>
  The composers \<open>ui_composer_279\<close> and \<open>ui_composer_noop\<close> of \<open>main/ui\<close>, implementations of the abstract class
  \<open>ui_composer\<close> that the rest of the program draws with. The definitions are translated from \<open>ui_composer_279.cpp\<close> and
  written over \<open>ui_class\<close>; the 1.14 inch composer has its own translation in \<open>Ui_114\<close>, where it is shown to be
  this code with other values. Their state holds the calls made to LVGL.
\<close>

section \<open>State\<close>

datatype screen_state = CLEAR | MESSAGE | PROGRESS | CURRENT

record ui_composer =
  uc_message :: ui_screen_message
  uc_progress :: ui_screen_progress
  uc_current :: ui_screen_current
  uc_base_obj :: ptr
  uc_screen :: screen_state
  uc_calls :: "lv_call list"

definition new_composer :: ui_composer where
  "new_composer = \<lparr>uc_message = \<lparr>ms_base = None, ms_header = None, ms_comment = None\<rparr>,
     uc_progress = \<lparr>ps_base = None, ps_bar = None, ps_header = None, ps_comment = None\<rparr>,
     uc_current = \<lparr>us_base = None, us_header = None, us_current = None, us_state = None\<rparr>,
     uc_base_obj = None, uc_screen = CLEAR, uc_calls = []\<rparr>"

definition emit :: "lv_call list \<Rightarrow> ui_composer \<Rightarrow> ui_composer" where
  "emit cs u = u\<lparr>uc_calls := uc_calls u @ cs\<rparr>"

text \<open>The calls of the abstract class; a null string is \<open>None\<close>.\<close>

datatype 'd ui_call =
    Display_init
  | Display_erase u8
  | Display_test u32 u32 "string option"
  | Display_program u8
  | Display_done
  | Display_error "string option" "string option"
  | Display_config
  | Display_current 'd 'd 'd "string option" lv_color

section \<open>Helpers\<close>

definition composer_init :: "ui_composer \<Rightarrow> esp_err \<times> ui_composer" where
  "composer_init u = (ESP_OK, u)"

definition wait_for_ui_mod :: "'d lv_env \<Rightarrow> nat \<Rightarrow> ui_composer \<Rightarrow> esp_err \<times> ui_composer" where
  "wait_for_ui_mod env wait_ms u =
     (let got = lv_locks env (uc_calls u) in
      (if got then ESP_OK else ESP_ERR_TIMEOUT, emit [Port_lock wait_ms got] u))"

definition base_style :: "ui_class \<Rightarrow> ptr \<Rightarrow> lv_call list" where
  "base_style cl b =
     [Set_pos b 0 0, Set_size b (cl_w cl) (cl_h cl),
      Set_style b (Bg_color (lv_color_hex 0xff000000)) LV_PART_MAIN,
      Set_style b (Pad_left 0) LV_PART_MAIN, Set_style b (Pad_right 0) LV_PART_MAIN,
      Set_style b (Pad_top 0) LV_PART_MAIN, Set_style b (Pad_bottom 0) LV_PART_MAIN,
      Set_style b (Bg_opa 255) LV_PART_MAIN, Set_style b (Border_width 0) LV_PART_MAIN,
      Set_style b (Radius 0) LV_PART_MAIN]"

definition reload_base_obj :: "ui_class \<Rightarrow> 'd lv_env \<Rightarrow> ui_composer \<Rightarrow> ui_composer" where
  "reload_base_obj cl env u =
     (let u = (if uc_base_obj u \<noteq> None then (emit [Obj_del (uc_base_obj u)] u)\<lparr>uc_base_obj := None\<rparr> else u);
          b = lv_new env (uc_calls u) in
      emit (Obj_create b # base_style cl b) (u\<lparr>uc_base_obj := b\<rparr>))"

text \<open>The early return when a screen cannot be set up.\<close>

definition setup_failed :: "ui_class \<Rightarrow> ui_composer \<Rightarrow> esp_err \<times> ui_composer" where
  "setup_failed cl u = (ESP_ERR_NO_MEM, if cl_unlock_on_fail cl then emit [Port_unlock] u else u)"

text \<open>
  The block \<open>if (screen_state != ...) { reload_base_obj(); ... init(base_obj) ... }\<close> that starts
  every call, before the rest \<open>k\<close> of the function; \<open>once\<close> is what follows \<open>init\<close> inside the
  block.
\<close>

definition with_message ::
  "ui_class \<Rightarrow> 'd lv_env \<Rightarrow> (ui_composer \<Rightarrow> esp_err \<times> ui_composer) \<Rightarrow> ui_composer \<Rightarrow>
     esp_err \<times> ui_composer" where
  "with_message cl env k u =
     (if uc_screen u \<noteq> MESSAGE then
        let u = reload_base_obj cl env u;
            (ret, m, tr) = message_init cl env (uc_base_obj u) (uc_message u, uc_calls u);
            u = u\<lparr>uc_message := m, uc_calls := tr\<rparr> in
        if ret \<noteq> ESP_OK then setup_failed cl u else k (u\<lparr>uc_screen := MESSAGE\<rparr>)
      else k u)"

definition with_progress ::
  "ui_class \<Rightarrow> 'd lv_env \<Rightarrow> (ui_composer \<Rightarrow> ui_composer) \<Rightarrow> (ui_composer \<Rightarrow> esp_err \<times> ui_composer) \<Rightarrow>
     ui_composer \<Rightarrow> esp_err \<times> ui_composer" where
  "with_progress cl env once k u =
     (if uc_screen u \<noteq> PROGRESS then
        let u = reload_base_obj cl env u;
            (ret, m, tr) = progress_init cl env (uc_base_obj u) (uc_progress u, uc_calls u);
            u = u\<lparr>uc_progress := m, uc_calls := tr\<rparr> in
        if ret \<noteq> ESP_OK then setup_failed cl u else k (once (u\<lparr>uc_screen := PROGRESS\<rparr>))
      else k u)"

definition with_current ::
  "ui_class \<Rightarrow> 'd lv_env \<Rightarrow> (ui_composer \<Rightarrow> esp_err \<times> ui_composer) \<Rightarrow> ui_composer \<Rightarrow>
     esp_err \<times> ui_composer" where
  "with_current cl env k u =
     (if uc_screen u \<noteq> CURRENT then
        let u = reload_base_obj cl env u;
            (ret, m, tr) = current_init cl env (uc_base_obj u) (uc_current u, uc_calls u);
            u = u\<lparr>uc_current := m, uc_calls := tr\<rparr> in
        if ret \<noteq> ESP_OK then setup_failed cl u else k (u\<lparr>uc_screen := CURRENT\<rparr>)
      else k u)"

definition unlock_ok :: "ui_composer \<Rightarrow> esp_err \<times> ui_composer" where
  "unlock_ok u = (ESP_OK, emit [Port_unlock] u)"

text \<open>Header, comment and colours of the message screen, then \<open>lvgl_port_unlock(); return ESP_OK;\<close>\<close>

definition put_message ::
  "string option \<Rightarrow> string option \<Rightarrow> lv_color \<Rightarrow> ui_composer \<Rightarrow> esp_err \<times> ui_composer" where
  "put_message header comment background u =
     unlock_ok (emit (message_set_color (uc_message u) background lv_color_black)
       (emit (message_set_comment_text (uc_message u) comment)
         (emit (message_set_header_text (uc_message u) header) u)))"

definition put_header :: "string \<Rightarrow> lv_color \<Rightarrow> ui_composer \<Rightarrow> ui_composer" where
  "put_header header indicator u =
     emit (progress_set_bar_color (uc_progress u) indicator lv_color_white)
       (emit (progress_set_header_text (uc_progress u) (Some header)) u)"

definition put_progress :: "string \<Rightarrow> u32 \<Rightarrow> u32 \<Rightarrow> ui_composer \<Rightarrow> esp_err \<times> ui_composer" where
  "put_progress comment done full u =
     unlock_ok (emit (progress_set_progress (uc_progress u) done full)
       (emit (progress_set_comment_text (uc_progress u) (Some comment)) u))"

definition put_current :: "string \<Rightarrow> string option \<Rightarrow> lv_color \<Rightarrow> ui_composer \<Rightarrow> esp_err \<times> ui_composer" where
  "put_current reading state state_color u =
     unlock_ok (emit (current_set_state (uc_current u) state state_color)
       (emit (current_set_current_main (uc_current u) (Some reading)) u))"

definition percent_text :: "u8 \<Rightarrow> string" where
  "percent_text percentage = snprintf 32 (udec0 3 (unat percentage) @ '' %'')"

definition count_text :: "u32 \<Rightarrow> u32 \<Rightarrow> string" where
  "count_text done tot = snprintf 32 (udec (unat done) @ '' of '' @ udec (unat tot))"

definition reading_text :: "'d lv_env \<Rightarrow> 'd \<Rightarrow> 'd \<Rightarrow> 'd \<Rightarrow> string" where
  "reading_text env min_ua max_ua avg_ua =
     snprintf 128 (''Avg '' @ fmt_g8 env avg_ua @ '' uA'' @ [CHR 0x0A] @
       ''Min '' @ fmt_g8 env min_ua @ '' uA'' @ [CHR 0x0A] @
       ''Max '' @ fmt_g8 env max_ua @ '' uA'')"

text \<open>\<open>if (wait_for_ui_mod() != ESP_OK) return ESP_ERR_TIMEOUT;\<close> with the default of one second.\<close>

definition when_locked ::
  "'d lv_env \<Rightarrow> (ui_composer \<Rightarrow> esp_err \<times> ui_composer) \<Rightarrow> ui_composer \<Rightarrow> esp_err \<times> ui_composer" where
  "when_locked env k u = check (wait_for_ui_mod env 1000 u) (\<lambda>_ u. (ESP_ERR_TIMEOUT, u)) k"

section \<open>The calls\<close>

definition display_init :: "ui_class \<Rightarrow> 'd lv_env \<Rightarrow> ui_composer \<Rightarrow> esp_err \<times> ui_composer" where
  "display_init cl env = when_locked env
     (with_message cl env (put_message (Some ''READY'') (Some ''Detecting target'') lv_color_white))"

definition display_erase :: "ui_class \<Rightarrow> 'd lv_env \<Rightarrow> u8 \<Rightarrow> ui_composer \<Rightarrow> esp_err \<times> ui_composer" where
  "display_erase cl env percentage = when_locked env
     (if percentage = 255
      then with_message cl env
        (put_message (Some ''ERASING'') (Some ''Full chip erase'') (lv_color_make 0x7a 0xff 0xff))
      else with_progress cl env (put_header ''ERASING'' (lv_color_make 0x7a 0xff 0xff))
        (put_progress (percent_text percentage) (ucast percentage) 100))"

definition display_test ::
  "ui_class \<Rightarrow> 'd lv_env \<Rightarrow> u32 \<Rightarrow> u32 \<Rightarrow> string option \<Rightarrow> ui_composer \<Rightarrow> esp_err \<times> ui_composer" where
  "display_test cl env done tot test_msg = when_locked env
     (with_progress cl env id (\<lambda>u.
        put_progress (case test_msg of None \<Rightarrow> count_text done tot | Some m \<Rightarrow> m) done tot
          (put_header ''TESTING'' (lv_color_make 0xcb 0xc3 0xe3) u)))"

definition display_program :: "ui_class \<Rightarrow> 'd lv_env \<Rightarrow> u8 \<Rightarrow> ui_composer \<Rightarrow> esp_err \<times> ui_composer" where
  "display_program cl env percentage = when_locked env
     (if percentage = 255
      then with_message cl env
        (put_message (Some ''PROGRAMMING'') (Some ''Just wait'') (lv_color_make 255 255 0))
      else with_progress cl env (put_header ''PROGRAMMING'' (lv_color_make 255 255 0))
        (put_progress (percent_text percentage) (ucast percentage) 100))"

definition display_done :: "ui_class \<Rightarrow> 'd lv_env \<Rightarrow> ui_composer \<Rightarrow> esp_err \<times> ui_composer" where
  "display_done cl env = when_locked env
     (with_message cl env
       (put_message (Some ''DONE'') (Some ''Move to next one'') (lv_color_make 0x10 0xf0 0x10)))"

definition display_error ::
  "ui_class \<Rightarrow> 'd lv_env \<Rightarrow> string option \<Rightarrow> string option \<Rightarrow> ui_composer \<Rightarrow> esp_err \<times> ui_composer" where
  "display_error cl env header err_msg = when_locked env
     (with_message cl env (put_message header err_msg (lv_color_make 0xff 0x10 0x10)))"

definition display_config :: "ui_class \<Rightarrow> 'd lv_env \<Rightarrow> ui_composer \<Rightarrow> esp_err \<times> ui_composer" where
  "display_config cl env = when_locked env
     (with_message cl env (put_message (Some ''CONFIG'') (Some ''Connect me to USB'') lv_color_white))"

definition display_current ::
  "ui_class \<Rightarrow> 'd lv_env \<Rightarrow> 'd \<Rightarrow> 'd \<Rightarrow> 'd \<Rightarrow> string option \<Rightarrow> lv_color \<Rightarrow> ui_composer \<Rightarrow>
     esp_err \<times> ui_composer" where
  "display_current cl env min_ua max_ua avg_ua state state_color = when_locked env
     (with_current cl env (put_current (reading_text env min_ua max_ua avg_ua) state state_color))"

text \<open>The virtual call.\<close>

fun composer_call :: "ui_class \<Rightarrow> 'd lv_env \<Rightarrow> 'd ui_call \<Rightarrow> ui_composer \<Rightarrow> esp_err \<times> ui_composer" where
  "composer_call cl env Display_init = display_init cl env"
| "composer_call cl env (Display_erase p) = display_erase cl env p"
| "composer_call cl env (Display_test d n m) = display_test cl env d n m"
| "composer_call cl env (Display_program p) = display_program cl env p"
| "composer_call cl env Display_done = display_done cl env"
| "composer_call cl env (Display_error h m) = display_error cl env h m"
| "composer_call cl env Display_config = display_config cl env"
| "composer_call cl env (Display_current lo hi av st c) = display_current cl env lo hi av st c"

section \<open>The composer without a display\<close>

fun composer_call_noop :: "'d ui_call \<Rightarrow> ui_composer \<Rightarrow> esp_err \<times> ui_composer" where
  "composer_call_noop Display_init u = (ESP_OK, u)"
| "composer_call_noop (Display_erase p) u = (ESP_OK, u)"
| "composer_call_noop (Display_test d n m) u = (ESP_OK, u)"
| "composer_call_noop (Display_program p) u = (ESP_OK, u)"
| "composer_call_noop Display_done u = (ESP_OK, u)"
| "composer_call_noop (Display_error h m) u = (ESP_OK, u)"
| "composer_call_noop Display_config u = (ESP_OK, u)"
| "composer_call_noop (Display_current lo hi av st c) u = (ESP_OK, u)"

end
