(* ===== verification/Ui_114.thy ===== *)
theory Ui_114
  imports Ui_Composer
begin

text \<open>
  The composer of the 1.14 inch panel and its screens, translated on their own from \<open>main/ui/ui_composer_114.cpp\<close>,
  \<open>ui_screen_message_114.cpp\<close>, \<open>ui_screen_progress_114.cpp\<close> and \<open>ui_screen_current_114.cpp\<close>: every size and position is
  the literal of these files, and every function has the body it has there. The classes have the same members as
  those of the 2.79 inch panel, so the records of \<open>Ui_Screens\<close> and \<open>Ui_Composer\<close> are their state. The lemmas show that
  this code and the code of the other panel are the same up to the values in \<open>ui_class_114\<close>.
\<close>

section \<open>Message screen\<close>

definition message_init_114 ::
  "'d lv_env \<Rightarrow> ptr \<Rightarrow> ui_screen_message \<times> lv_call list \<Rightarrow> esp_err \<times> ui_screen_message \<times> lv_call list" where
  "message_init_114 env base_obj = (\<lambda>(m, tr).
     if base_obj = None then (ESP_ERR_INVALID_ARG, m, tr)
     else
       let m = m\<lparr>ms_base := base_obj\<rparr>;
           header_label = lv_new env tr;
           tr = tr @ [Label_create base_obj header_label];
           m = m\<lparr>ms_header := header_label\<rparr> in
       if header_label = None then (ESP_ERR_NO_MEM, m, tr)
       else
         let tr = tr @
               [Set_pos header_label 0 16, Set_size header_label 240 36, Label_set_recolor header_label True,
                Label_set_text header_label (Some ''UNKNOWN''),
                Set_style header_label (Align LV_ALIGN_TOP_LEFT) LV_PART_MAIN,
                Set_style header_label (Text_font 28) LV_PART_MAIN,
                Set_style header_label (Text_color (lv_color_hex 0xff000000)) LV_PART_MAIN,
                Set_style header_label (Text_align LV_TEXT_ALIGN_CENTER) LV_PART_MAIN];
             comment_label = lv_new env tr;
             tr = tr @ [Label_create base_obj comment_label];
             m = m\<lparr>ms_comment := comment_label\<rparr> in
         if comment_label = None then (ESP_ERR_NO_MEM, m, tr)
         else (ESP_OK, m, tr @
               [Set_pos comment_label 0 53, Set_size comment_label 240 82,
                Label_set_text comment_label (Some ''0%''),
                Set_style header_label (Align LV_ALIGN_TOP_LEFT) LV_PART_MAIN,
                Set_style comment_label (Text_color (lv_color_hex 0xff000000)) LV_PART_MAIN,
                Set_style comment_label (Text_font 16) LV_PART_MAIN,
                Set_style comment_label (Text_align LV_TEXT_ALIGN_CENTER) LV_PART_MAIN]))"

definition message_deinit_114 :: "ui_screen_message \<Rightarrow> lv_call list" where
  "message_deinit_114 m = (case ms_base m of None \<Rightarrow> [] | Some b \<Rightarrow> [Obj_del (Some b)])"

definition message_set_header_text_114 :: "ui_screen_message \<Rightarrow> string option \<Rightarrow> lv_call list" where
  "message_set_header_text_114 m text =
     (case (text, ms_header m) of (Some t, Some h) \<Rightarrow> [Label_set_text (Some h) (Some t)] | _ \<Rightarrow> [])"

definition message_set_comment_text_114 :: "ui_screen_message \<Rightarrow> string option \<Rightarrow> lv_call list" where
  "message_set_comment_text_114 m text =
     (case (text, ms_comment m) of (Some t, Some c) \<Rightarrow> [Label_set_text (Some c) (Some t)] | _ \<Rightarrow> [])"

definition message_set_color_114 :: "ui_screen_message \<Rightarrow> lv_color \<Rightarrow> lv_color \<Rightarrow> lv_call list" where
  "message_set_color_114 m background text =
     (case (ms_comment m, ms_header m, ms_base m) of
        (Some c, Some h, Some b) \<Rightarrow>
          [Set_style (Some b) (Bg_color background) LV_PART_MAIN,
           Set_style (Some h) (Text_color text) LV_PART_MAIN,
           Set_style (Some c) (Text_color text) LV_PART_MAIN]
      | _ \<Rightarrow> [])"

section \<open>Progress screen\<close>

definition progress_init_114 ::
  "'d lv_env \<Rightarrow> ptr \<Rightarrow> ui_screen_progress \<times> lv_call list \<Rightarrow> esp_err \<times> ui_screen_progress \<times> lv_call list" where
  "progress_init_114 env base_obj = (\<lambda>(m, tr).
     if base_obj = None then (ESP_ERR_INVALID_ARG, m, tr)
     else
       let m = m\<lparr>ps_base := base_obj\<rparr>;
           progress_bar = lv_new env tr;
           tr = tr @ [Bar_create base_obj progress_bar];
           m = m\<lparr>ps_bar := progress_bar\<rparr> in
       if progress_bar = None then (ESP_ERR_NO_MEM, m, tr)
       else
         let tr = tr @
               [Set_pos progress_bar 0 0, Set_size progress_bar 240 135, Bar_set_value progress_bar 25,
                Set_style progress_bar (Radius 0) LV_PART_MAIN,
                Set_style progress_bar (Bg_color (lv_color_hex 0xffffffff)) LV_PART_MAIN,
                Set_style progress_bar (Bg_opa 255) LV_PART_MAIN,
                Set_style progress_bar (Radius 0) LV_PART_INDICATOR];
             header_label = lv_new env tr;
             tr = tr @ [Label_create progress_bar header_label];
             m = m\<lparr>ps_header := header_label\<rparr> in
         if header_label = None then (ESP_ERR_NO_MEM, m, tr)
         else
           let tr = tr @
                 [Set_pos header_label 0 16, Set_size header_label 240 36, Label_set_recolor header_label True,
                  Label_set_text header_label (Some ''UNKNOWN''),
                  Set_style header_label (Align LV_ALIGN_TOP_LEFT) LV_PART_MAIN,
                  Set_style header_label (Text_font 28) LV_PART_MAIN,
                  Set_style header_label (Text_color (lv_color_hex 0xff000000)) LV_PART_MAIN,
                  Set_style header_label (Text_align LV_TEXT_ALIGN_CENTER) LV_PART_MAIN];
               comment_label = lv_new env tr;
               tr = tr @ [Label_create progress_bar comment_label];
               m = m\<lparr>ps_comment := comment_label\<rparr> in
           if comment_label = None then (ESP_ERR_NO_MEM, m, tr)
           else (ESP_OK, m, tr @
                 [Set_pos comment_label 0 53, Set_size comment_label 240 82,
                  Label_set_text comment_label (Some ''0%''),
                  Set_style header_label (Align LV_ALIGN_TOP_LEFT) LV_PART_MAIN,
                  Set_style comment_label (Text_color (lv_color_hex 0xff000000)) LV_PART_MAIN,
                  Set_style comment_label (Text_font 16) LV_PART_MAIN,
                  Set_style comment_label (Text_align LV_TEXT_ALIGN_CENTER) LV_PART_MAIN]))"

definition progress_deinit_114 :: "ui_screen_progress \<Rightarrow> lv_call list" where
  "progress_deinit_114 m = (case ps_base m of None \<Rightarrow> [] | Some b \<Rightarrow> [Obj_del (Some b)])"

definition progress_set_progress_114 :: "ui_screen_progress \<Rightarrow> u32 \<Rightarrow> u32 \<Rightarrow> lv_call list" where
  "progress_set_progress_114 m done full =
     (case ps_bar m of None \<Rightarrow> []
      | Some b \<Rightarrow> [Bar_set_range (Some b) 0 (sint full), Bar_set_value (Some b) (sint done)])"

definition progress_set_header_text_114 :: "ui_screen_progress \<Rightarrow> string option \<Rightarrow> lv_call list" where
  "progress_set_header_text_114 m text =
     (case (text, ps_header m) of (Some t, Some h) \<Rightarrow> [Label_set_text (Some h) (Some t)] | _ \<Rightarrow> [])"

definition progress_set_comment_text_114 :: "ui_screen_progress \<Rightarrow> string option \<Rightarrow> lv_call list" where
  "progress_set_comment_text_114 m text =
     (case (text, ps_comment m) of (Some t, Some c) \<Rightarrow> [Label_set_text (Some c) (Some t)] | _ \<Rightarrow> [])"

definition progress_set_bar_color_114 :: "ui_screen_progress \<Rightarrow> lv_color \<Rightarrow> lv_color \<Rightarrow> lv_call list" where
  "progress_set_bar_color_114 m indicator_color bg_color =
     (case ps_bar m of None \<Rightarrow> []
      | Some b \<Rightarrow> [Set_style (Some b) (Bg_color indicator_color) LV_PART_INDICATOR,
                  Set_style (Some b) (Bg_color bg_color) LV_PART_MAIN])"

section \<open>Current screen\<close>

definition current_init_114 ::
  "'d lv_env \<Rightarrow> ptr \<Rightarrow> ui_screen_current \<times> lv_call list \<Rightarrow> esp_err \<times> ui_screen_current \<times> lv_call list" where
  "current_init_114 env base_obj = (\<lambda>(m, tr).
     if base_obj = None then (ESP_ERR_INVALID_ARG, m, tr)
     else
       let m = m\<lparr>us_base := base_obj\<rparr>;
           tr = tr @
             [Set_style base_obj (Bg_color lv_color_white) LV_PART_MAIN, Set_style base_obj (Bg_opa 255) LV_PART_MAIN];
           header_label = lv_new env tr;
           tr = tr @ [Label_create base_obj header_label];
           m = m\<lparr>us_header := header_label\<rparr> in
       if header_label = None then (ESP_ERR_NO_MEM, m, tr)
       else
         let tr = tr @
               [Set_pos header_label 0 0, Set_size header_label 240 36,
                Label_set_text header_label (Some ''Current Test''),
                Set_style header_label (Text_align LV_TEXT_ALIGN_CENTER) LV_PART_MAIN,
                Set_style header_label (Text_font 32) LV_PART_MAIN];
             current_label = lv_new env tr;
             tr = tr @ [Label_create base_obj current_label];
             m = m\<lparr>us_current := current_label\<rparr> in
         if current_label = None then (ESP_ERR_NO_MEM, m, tr)
         else
           let tr = tr @
                 [Set_pos current_label 0 40, Set_size current_label 240 40,
                  Label_set_text current_label (Some ''0.000000 uA''),
                  Set_style current_label (Text_align LV_TEXT_ALIGN_CENTER) LV_PART_MAIN,
                  Set_style current_label (Text_font 12) LV_PART_MAIN];
               state_label = lv_new env tr;
               tr = tr @ [Label_create base_obj state_label];
               m = m\<lparr>us_state := state_label\<rparr> in
           if state_label = None then (ESP_ERR_NO_MEM, m, tr)
           else (ESP_OK, m, tr @
                 [Set_pos state_label 0 87, Set_size state_label 240 48,
                  Label_set_text state_label (Some ''PENDING''),
                  Set_style state_label (Text_align LV_TEXT_ALIGN_CENTER) LV_PART_MAIN,
                  Set_style state_label (Text_font 48) LV_PART_MAIN,
                  Set_style state_label (Bg_color (lv_color_hex 0xffffff00)) LV_PART_MAIN,
                  Set_style state_label (Bg_opa 255) LV_PART_MAIN]))"

definition current_deinit_114 :: "ui_screen_current \<Rightarrow> lv_call list" where
  "current_deinit_114 m = (case us_base m of None \<Rightarrow> [] | Some b \<Rightarrow> [Obj_del (Some b)])"

definition current_set_current_main_114 :: "ui_screen_current \<Rightarrow> string option \<Rightarrow> lv_call list" where
  "current_set_current_main_114 m text =
     (case us_current m of None \<Rightarrow> [] | Some c \<Rightarrow> [Label_set_text (Some c) text])"

definition current_set_state_114 :: "ui_screen_current \<Rightarrow> string option \<Rightarrow> lv_color \<Rightarrow> lv_call list" where
  "current_set_state_114 m text bg_color =
     (case us_state m of None \<Rightarrow> []
      | Some s \<Rightarrow> [Label_set_text (Some s) text, Set_style (Some s) (Bg_color bg_color) LV_PART_MAIN])"

section \<open>Composer\<close>

definition wait_for_ui_mod_114 :: "'d lv_env \<Rightarrow> nat \<Rightarrow> ui_composer \<Rightarrow> esp_err \<times> ui_composer" where
  "wait_for_ui_mod_114 env wait_ticks u =
     (if lv_locks env (uc_calls u) then (ESP_OK, emit [Port_lock wait_ticks True] u)
      else (ESP_ERR_TIMEOUT, emit [Port_lock wait_ticks False] u))"

definition reload_base_obj_114 :: "'d lv_env \<Rightarrow> ui_composer \<Rightarrow> ui_composer" where
  "reload_base_obj_114 env u =
     (let u = (case uc_base_obj u of None \<Rightarrow> u | Some b \<Rightarrow> (emit [Obj_del (Some b)] u)\<lparr>uc_base_obj := None\<rparr>);
          base_obj = lv_new env (uc_calls u);
          u = (emit [Obj_create base_obj] u)\<lparr>uc_base_obj := base_obj\<rparr> in
      emit [Set_pos base_obj 0 0, Set_size base_obj 240 135,
        Set_style base_obj (Bg_color (lv_color_hex 0xff000000)) LV_PART_MAIN,
        Set_style base_obj (Pad_left 0) LV_PART_MAIN, Set_style base_obj (Pad_right 0) LV_PART_MAIN,
        Set_style base_obj (Pad_top 0) LV_PART_MAIN, Set_style base_obj (Pad_bottom 0) LV_PART_MAIN,
        Set_style base_obj (Bg_opa 255) LV_PART_MAIN, Set_style base_obj (Border_width 0) LV_PART_MAIN,
        Set_style base_obj (Radius 0) LV_PART_MAIN] u)"

text \<open>
  The block \<open>if (screen_state != ...)\<close> at the start of a function; what it returns is the return value of
  the function when it is not \<open>ESP_OK\<close>. The lock is not given back.
\<close>

definition setup_message_114 :: "'d lv_env \<Rightarrow> ui_composer \<Rightarrow> esp_err \<times> ui_composer" where
  "setup_message_114 env u =
     (if uc_screen u = MESSAGE then (ESP_OK, u)
      else
        let u = reload_base_obj_114 env u;
            (ret, m, tr) = message_init_114 env (uc_base_obj u) (uc_message u, uc_calls u);
            u = u\<lparr>uc_message := m, uc_calls := tr\<rparr> in
        if ret \<noteq> ESP_OK then (ESP_ERR_NO_MEM, u) else (ESP_OK, u\<lparr>uc_screen := MESSAGE\<rparr>))"

definition setup_progress_114 :: "'d lv_env \<Rightarrow> ui_composer \<Rightarrow> esp_err \<times> ui_composer" where
  "setup_progress_114 env u =
     (if uc_screen u = PROGRESS then (ESP_OK, u)
      else
        let u = reload_base_obj_114 env u;
            (ret, m, tr) = progress_init_114 env (uc_base_obj u) (uc_progress u, uc_calls u);
            u = u\<lparr>uc_progress := m, uc_calls := tr\<rparr> in
        if ret \<noteq> ESP_OK then (ESP_ERR_NO_MEM, u) else (ESP_OK, u\<lparr>uc_screen := PROGRESS\<rparr>))"

definition setup_current_114 :: "'d lv_env \<Rightarrow> ui_composer \<Rightarrow> esp_err \<times> ui_composer" where
  "setup_current_114 env u =
     (if uc_screen u = CURRENT then (ESP_OK, u)
      else
        let u = reload_base_obj_114 env u;
            (ret, m, tr) = current_init_114 env (uc_base_obj u) (uc_current u, uc_calls u);
            u = u\<lparr>uc_current := m, uc_calls := tr\<rparr> in
        if ret \<noteq> ESP_OK then (ESP_ERR_NO_MEM, u) else (ESP_OK, u\<lparr>uc_screen := CURRENT\<rparr>))"

text \<open>\<open>lvgl_port_unlock(); return ESP_OK;\<close>\<close>

definition unlocked_114 :: "ui_composer \<Rightarrow> esp_err \<times> ui_composer" where
  "unlocked_114 u = (ESP_OK, emit [Port_unlock] u)"

definition display_init_114 :: "'d lv_env \<Rightarrow> ui_composer \<Rightarrow> esp_err \<times> ui_composer" where
  "display_init_114 env u =
     (let (got, u) = wait_for_ui_mod_114 env 1000 u in
      if got \<noteq> ESP_OK then (ESP_ERR_TIMEOUT, u)
      else
        let (ret, u) = setup_message_114 env u in
        if ret \<noteq> ESP_OK then (ret, u)
        else
          let u = emit (message_set_header_text_114 (uc_message u) (Some ''READY'')) u;
              u = emit (message_set_comment_text_114 (uc_message u) (Some ''Detecting target'')) u;
              u = emit (message_set_color_114 (uc_message u) lv_color_white lv_color_black) u in
          unlocked_114 u)"

definition display_erase_114 :: "'d lv_env \<Rightarrow> u8 \<Rightarrow> ui_composer \<Rightarrow> esp_err \<times> ui_composer" where
  "display_erase_114 env percentage u =
     (let (got, u) = wait_for_ui_mod_114 env 1000 u in
      if got \<noteq> ESP_OK then (ESP_ERR_TIMEOUT, u)
      else if percentage = 255 then
        let (ret, u) = setup_message_114 env u in
        if ret \<noteq> ESP_OK then (ret, u)
        else
          let u = emit (message_set_header_text_114 (uc_message u) (Some ''ERASING'')) u;
              u = emit (message_set_comment_text_114 (uc_message u) (Some ''Full chip erase'')) u;
              u = emit (message_set_color_114 (uc_message u) (lv_color_make 0x7a 0xff 0xff) lv_color_black) u in
          unlocked_114 u
      else
        let switched = (uc_screen u \<noteq> PROGRESS);
            (ret, u) = setup_progress_114 env u in
        if ret \<noteq> ESP_OK then (ret, u)
        else
          let u = (if switched
                   then let u = emit (progress_set_header_text_114 (uc_progress u) (Some ''ERASING'')) u in
                     emit (progress_set_bar_color_114 (uc_progress u) (lv_color_make 0x7a 0xff 0xff) lv_color_white) u
                   else u);
              comment = snprintf 32 (udec0 3 (unat percentage) @ '' %'');
              u = emit (progress_set_comment_text_114 (uc_progress u) (Some comment)) u;
              u = emit (progress_set_progress_114 (uc_progress u) (ucast percentage) 100) u in
          unlocked_114 u)"

definition display_test_114 ::
  "'d lv_env \<Rightarrow> u32 \<Rightarrow> u32 \<Rightarrow> string option \<Rightarrow> ui_composer \<Rightarrow> esp_err \<times> ui_composer" where
  "display_test_114 env done tot test_msg u =
     (let (got, u) = wait_for_ui_mod_114 env 1000 u in
      if got \<noteq> ESP_OK then (ESP_ERR_TIMEOUT, u)
      else
        let (ret, u) = setup_progress_114 env u in
        if ret \<noteq> ESP_OK then (ret, u)
        else
          let u = emit (progress_set_header_text_114 (uc_progress u) (Some ''TESTING'')) u;
              u = emit (progress_set_bar_color_114 (uc_progress u) (lv_color_make 0xcb 0xc3 0xe3) lv_color_white) u;
              u = (case test_msg of
                     None \<Rightarrow>
                       let comment = snprintf 32 (udec (unat done) @ '' of '' @ udec (unat tot)) in
                       emit (progress_set_comment_text_114 (uc_progress u) (Some comment)) u
                   | Some msg \<Rightarrow> emit (progress_set_comment_text_114 (uc_progress u) (Some msg)) u);
              u = emit (progress_set_progress_114 (uc_progress u) done tot) u in
          unlocked_114 u)"

definition display_program_114 :: "'d lv_env \<Rightarrow> u8 \<Rightarrow> ui_composer \<Rightarrow> esp_err \<times> ui_composer" where
  "display_program_114 env percentage u =
     (let (got, u) = wait_for_ui_mod_114 env 1000 u in
      if got \<noteq> ESP_OK then (ESP_ERR_TIMEOUT, u)
      else if percentage = 255 then
        let (ret, u) = setup_message_114 env u in
        if ret \<noteq> ESP_OK then (ret, u)
        else
          let u = emit (message_set_header_text_114 (uc_message u) (Some ''PROGRAMMING'')) u;
              u = emit (message_set_comment_text_114 (uc_message u) (Some ''Just wait'')) u;
              u = emit (message_set_color_114 (uc_message u) (lv_color_make 255 255 0) lv_color_black) u in
          unlocked_114 u
      else
        let switched = (uc_screen u \<noteq> PROGRESS);
            (ret, u) = setup_progress_114 env u in
        if ret \<noteq> ESP_OK then (ret, u)
        else
          let u = (if switched
                   then let u = emit (progress_set_header_text_114 (uc_progress u) (Some ''PROGRAMMING'')) u in
                     emit (progress_set_bar_color_114 (uc_progress u) (lv_color_make 255 255 0) lv_color_white) u
                   else u);
              comment = snprintf 32 (udec0 3 (unat percentage) @ '' %'');
              u = emit (progress_set_comment_text_114 (uc_progress u) (Some comment)) u;
              u = emit (progress_set_progress_114 (uc_progress u) (ucast percentage) 100) u in
          unlocked_114 u)"

definition display_done_114 :: "'d lv_env \<Rightarrow> ui_composer \<Rightarrow> esp_err \<times> ui_composer" where
  "display_done_114 env u =
     (let (got, u) = wait_for_ui_mod_114 env 1000 u in
      if got \<noteq> ESP_OK then (ESP_ERR_TIMEOUT, u)
      else
        let (ret, u) = setup_message_114 env u in
        if ret \<noteq> ESP_OK then (ret, u)
        else
          let u = emit (message_set_header_text_114 (uc_message u) (Some ''DONE'')) u;
              u = emit (message_set_comment_text_114 (uc_message u) (Some ''Move to next one'')) u;
              u = emit (message_set_color_114 (uc_message u) (lv_color_make 0x10 0xf0 0x10) lv_color_black) u in
          unlocked_114 u)"

definition display_error_114 ::
  "'d lv_env \<Rightarrow> string option \<Rightarrow> string option \<Rightarrow> ui_composer \<Rightarrow> esp_err \<times> ui_composer" where
  "display_error_114 env header err_msg u =
     (let (got, u) = wait_for_ui_mod_114 env 1000 u in
      if got \<noteq> ESP_OK then (ESP_ERR_TIMEOUT, u)
      else
        let (ret, u) = setup_message_114 env u in
        if ret \<noteq> ESP_OK then (ret, u)
        else
          let u = emit (message_set_header_text_114 (uc_message u) header) u;
              u = emit (message_set_comment_text_114 (uc_message u) err_msg) u;
              u = emit (message_set_color_114 (uc_message u) (lv_color_make 0xff 0x10 0x10) lv_color_black) u in
          unlocked_114 u)"

definition display_config_114 :: "'d lv_env \<Rightarrow> ui_composer \<Rightarrow> esp_err \<times> ui_composer" where
  "display_config_114 env u =
     (let (got, u) = wait_for_ui_mod_114 env 1000 u in
      if got \<noteq> ESP_OK then (ESP_ERR_TIMEOUT, u)
      else
        let (ret, u) = setup_message_114 env u in
        if ret \<noteq> ESP_OK then (ret, u)
        else
          let u = emit (message_set_header_text_114 (uc_message u) (Some ''CONFIG'')) u;
              u = emit (message_set_comment_text_114 (uc_message u) (Some ''Connect me to USB'')) u;
              u = emit (message_set_color_114 (uc_message u) lv_color_white lv_color_black) u in
          unlocked_114 u)"

definition display_current_114 ::
  "'d lv_env \<Rightarrow> 'd \<Rightarrow> 'd \<Rightarrow> 'd \<Rightarrow> string option \<Rightarrow> lv_color \<Rightarrow> ui_composer \<Rightarrow> esp_err \<times> ui_composer" where
  "display_current_114 env min_ua max_ua avg_ua state state_color u =
     (let (got, u) = wait_for_ui_mod_114 env 1000 u in
      if got \<noteq> ESP_OK then (ESP_ERR_TIMEOUT, u)
      else
        let (ret, u) = setup_current_114 env u in
        if ret \<noteq> ESP_OK then (ret, u)
        else
          let i_reading = snprintf 128 (''Avg '' @ fmt_g8 env avg_ua @ '' uA'' @ [CHR 0x0A] @
                ''Min '' @ fmt_g8 env min_ua @ '' uA'' @ [CHR 0x0A] @ ''Max '' @ fmt_g8 env max_ua @ '' uA'');
              u = emit (current_set_current_main_114 (uc_current u) (Some i_reading)) u;
              u = emit (current_set_state_114 (uc_current u) state state_color) u in
          unlocked_114 u)"

fun composer_call_114 :: "'d lv_env \<Rightarrow> 'd ui_call \<Rightarrow> ui_composer \<Rightarrow> esp_err \<times> ui_composer" where
  "composer_call_114 env Display_init = display_init_114 env"
| "composer_call_114 env (Display_erase p) = display_erase_114 env p"
| "composer_call_114 env (Display_test d n m) = display_test_114 env d n m"
| "composer_call_114 env (Display_program p) = display_program_114 env p"
| "composer_call_114 env Display_done = display_done_114 env"
| "composer_call_114 env (Display_error h m) = display_error_114 env h m"
| "composer_call_114 env Display_config = display_config_114 env"
| "composer_call_114 env (Display_current lo hi av st c) = display_current_114 env lo hi av st c"

section \<open>The same code as that of the 2.79 inch panel\<close>

lemma class_114_simps:
  "cl_unlock_on_fail ui_class_114 = False" "cl_w ui_class_114 = 240" "cl_h ui_class_114 = 135"
  "cl_comment_h ui_class_114 = 82" "cl_current_y ui_class_114 = 40" "cl_current_h ui_class_114 = 40"
  "cl_state_y ui_class_114 = 87"
  by (simp_all add: ui_class_114_def)

lemma screen_init_114:
  "message_init_114 env = message_init ui_class_114 env"
  "progress_init_114 env = progress_init ui_class_114 env"
  "current_init_114 env = current_init ui_class_114 env"
  unfolding message_init_114_def message_init_def progress_init_114_def progress_init_def
    current_init_114_def current_init_def style_defs comment_style_def class_114_simps Let_def
  by (rule ext refl)+

lemma screen_set_114:
  "message_set_header_text_114 = message_set_header_text" "message_set_comment_text_114 = message_set_comment_text"
  "message_set_color_114 = message_set_color" "progress_set_progress_114 = progress_set_progress"
  "progress_set_header_text_114 = progress_set_header_text" "progress_set_comment_text_114 = progress_set_comment_text"
  "progress_set_bar_color_114 = progress_set_bar_color" "current_set_current_main_114 = current_set_current_main"
  "current_set_state_114 = current_set_state"
  by (auto simp: fun_eq_iff message_set_header_text_114_def message_set_header_text_def
      message_set_comment_text_114_def message_set_comment_text_def message_set_color_114_def message_set_color_def
      progress_set_progress_114_def progress_set_progress_def progress_set_header_text_114_def
      progress_set_header_text_def progress_set_comment_text_114_def progress_set_comment_text_def
      progress_set_bar_color_114_def progress_set_bar_color_def current_set_current_main_114_def
      current_set_current_main_def current_set_state_114_def current_set_state_def split: option.split)

lemma screen_deinit_114:
  "message_deinit_114 = message_deinit" "progress_deinit_114 = progress_deinit" "current_deinit_114 = current_deinit"
  by (auto simp: fun_eq_iff message_deinit_114_def message_deinit_def progress_deinit_114_def progress_deinit_def
      current_deinit_114_def current_deinit_def split: option.split)

lemma reload_base_obj_114: "reload_base_obj_114 env = reload_base_obj ui_class_114 env"
  by (auto simp: fun_eq_iff reload_base_obj_114_def reload_base_obj_def base_style_def ui_class_114_def emit_def Let_def
      split: option.split)

lemma wait_for_ui_mod_114: "wait_for_ui_mod_114 = wait_for_ui_mod"
  by (simp add: fun_eq_iff wait_for_ui_mod_114_def wait_for_ui_mod_def)

text \<open>A function of the form all of them have: the lock, a screen, the widgets' new contents.\<close>

lemma locked_114:
  "(let (got, u) = wait_for_ui_mod_114 env 1000 u in if got \<noteq> ESP_OK then (ESP_ERR_TIMEOUT, u) else k u) =
     when_locked env k u"
  by (simp add: when_locked_def check_def wait_for_ui_mod_114 split: prod.split)

lemma with_message_114:
  "(let (ret, u) = setup_message_114 env u in if ret \<noteq> ESP_OK then (ret, u) else k u) = with_message ui_class_114 env k u"
  by (auto simp: setup_message_114_def with_message_def setup_failed_def reload_base_obj_114 screen_init_114
      ui_class_114_def Let_def split: prod.split)

lemma with_progress_114:
  "(let (ret, v) = setup_progress_114 env u in
     if ret \<noteq> ESP_OK then (ret, v) else k (if uc_screen u \<noteq> PROGRESS then once v else v)) =
     with_progress ui_class_114 env once k u"
  by (auto simp: setup_progress_114_def with_progress_def setup_failed_def reload_base_obj_114 screen_init_114
      ui_class_114_def Let_def split: prod.split)

lemma with_current_114:
  "(let (ret, u) = setup_current_114 env u in if ret \<noteq> ESP_OK then (ret, u) else k u) = with_current ui_class_114 env k u"
  by (auto simp: setup_current_114_def with_current_def setup_failed_def reload_base_obj_114 screen_init_114
      ui_class_114_def Let_def split: prod.split)

lemma put_114:
  "put_message h c bg u =
     unlocked_114 (emit (message_set_color_114 (uc_message u) bg lv_color_black)
       (emit (message_set_comment_text_114 (uc_message u) c) (emit (message_set_header_text_114 (uc_message u) h) u)))"
  by (simp add: put_message_def unlocked_114_def unlock_ok_def screen_set_114)

lemma put_progress_114:
  "put_progress t d n u =
     unlocked_114 (emit (progress_set_progress_114 (uc_progress u) d n)
       (emit (progress_set_comment_text_114 (uc_progress u) (Some t)) u))"
  "put_header h col u =
     emit (progress_set_bar_color_114 (uc_progress u) col lv_color_white)
       (emit (progress_set_header_text_114 (uc_progress u) (Some h)) u)"
  by (simp_all add: put_progress_def put_header_def unlocked_114_def unlock_ok_def screen_set_114)

lemma put_current_114:
  "put_current r st col u =
     unlocked_114 (emit (current_set_state_114 (uc_current u) st col)
       (emit (current_set_current_main_114 (uc_current u) (Some r)) u))"
  by (simp add: put_current_def unlocked_114_def unlock_ok_def screen_set_114)

lemma uc_emit_114: "uc_progress (emit cs u) = uc_progress u" "uc_message (emit cs u) = uc_message u"
  "uc_current (emit cs u) = uc_current u"
  by (simp_all add: emit_def)

lemmas shown_114 = locked_114 [symmetric] with_message_114 [symmetric] with_progress_114 [symmetric]
  with_current_114 [symmetric] put_114 put_progress_114 put_current_114 uc_emit_114

lemma message_calls_114:
  "display_init_114 env u = display_init ui_class_114 env u"
  "display_done_114 env u = display_done ui_class_114 env u"
  "display_error_114 env h m u = display_error ui_class_114 env h m u"
  "display_config_114 env u = display_config ui_class_114 env u"
  "display_current_114 env lo hi av st col u = display_current ui_class_114 env lo hi av st col u"
  unfolding display_init_114_def display_init_def display_done_114_def display_done_def display_error_114_def
    display_error_def display_config_114_def display_config_def display_current_114_def display_current_def
    shown_114 reading_text_def Let_def
  by (rule refl)+

lemma progress_calls_114:
  "display_erase_114 env p u = display_erase ui_class_114 env p u"
  "display_program_114 env p u = display_program ui_class_114 env p u"
  "display_test_114 env d n msg u = display_test ui_class_114 env d n msg u"
  unfolding display_erase_114_def display_erase_def display_program_114_def display_program_def
    display_test_114_def display_test_def shown_114 percent_text_def count_text_def Let_def
  by (simp_all add: uc_emit_114 split: prod.split option.split)

lemma call_114: "composer_call_114 env c u = composer_call ui_class_114 env c u"
  by (cases c) (simp_all add: message_calls_114 progress_calls_114)

section \<open>Properties\<close>

text \<open>
  C15: The two composers, written twice in the source, are the same program but for the panel: in any state, with any memory and
  whether or not it gets the lock, a call to the 1.14 inch composer makes exactly the LVGL calls that the 2.79 inch
  composer would make with seven values replaced (the screen size, four places of labels, and no
  \<open>lvgl_port_unlock\<close> when a screen cannot be set up), returns the same error code and leaves the same state.
\<close>

theorem composers_agree:
  "composer_call_114 env c u =
     composer_call (ui_class_279\<lparr>cl_unlock_on_fail := False, cl_w := 240, cl_h := 135, cl_comment_h := 82,
       cl_current_y := 40, cl_current_h := 40, cl_state_y := 87\<rparr>) env c u"
  by (simp add: call_114 ui_class_114_def ui_class_279_def)

end
