(* ===== verification/Ui_Correct.thy ===== *)
theory Ui_Correct
  imports Ui_114
begin

text \<open>
  What the composers promise. \<open>view\<close> is what a user reads on the panel and \<open>spec_call\<close> how a call
  changes it; the composers are shown to implement that specification as long as LVGL has memory, to use live
  widgets only, and to keep nothing on the heap but the current screen. Independently of memory, the
  LVGL lock is held around every widget access, and given back except on the failure path of
  the 1.14 inch composer.
\<close>

section \<open>Specification\<close>

datatype view =
    Blank
  | Message_view "string option" "string option" "lv_color option"
  | Progress_view "string option" "string option" "lv_color option" "lv_color option"
      "(int \<times> int) option" "int option"
  | Current_view "string option" "string option" "lv_color option"

fun message_text :: "string option \<Rightarrow> string option \<Rightarrow> lv_color \<Rightarrow> view \<Rightarrow> view" where
  "message_text h c col (Message_view h0 c0 col0) =
     Message_view (if h = None then h0 else h) (if c = None then c0 else c) (Some col)"
| "message_text h c col v =
     Message_view (if h = None then Some ''UNKNOWN'' else h) (if c = None then Some ''0%'' else c) (Some col)"

fun progress_text :: "string \<Rightarrow> lv_color \<Rightarrow> view \<Rightarrow> view" where
  "progress_text h col v = (case v of
     Progress_view h0 c0 i0 b0 r0 v0 \<Rightarrow> v
   | _ \<Rightarrow> Progress_view (Some h) None (Some col) (Some lv_color_white) None None)"

fun progress_value :: "string \<Rightarrow> u32 \<Rightarrow> u32 \<Rightarrow> view \<Rightarrow> view" where
  "progress_value c d n (Progress_view h0 c0 i0 b0 r0 v0) =
     Progress_view h0 (Some c) i0 b0 (Some (0, sint n)) (Some (sint d))"
| "progress_value c d n v = v"

fun current_text :: "string \<Rightarrow> string option \<Rightarrow> lv_color \<Rightarrow> view \<Rightarrow> view" where
  "current_text r st col (Current_view r0 s0 c0) =
     Current_view (Some r) (if st = None then s0 else st) (Some col)"
| "current_text r st col v = Current_view (Some r) (if st = None then Some ''PENDING'' else st) (Some col)"

fun spec_call :: "'d lv_env \<Rightarrow> 'd ui_call \<Rightarrow> view \<Rightarrow> view" where
  "spec_call env Display_init v =
     message_text (Some ''READY'') (Some ''Detecting target'') lv_color_white v"
| "spec_call env (Display_erase p) v =
     (if p = 255
      then message_text (Some ''ERASING'') (Some ''Full chip erase'') (lv_color_make 0x7a 0xff 0xff) v
      else progress_value (percent_text p) (ucast p) 100
        (progress_text ''ERASING'' (lv_color_make 0x7a 0xff 0xff) v))"
| "spec_call env (Display_test d n m) v =
     progress_value (case m of None \<Rightarrow> count_text d n | Some t \<Rightarrow> t) d n
       (progress_text ''TESTING'' (lv_color_make 0xcb 0xc3 0xe3) Blank)"
| "spec_call env (Display_program p) v =
     (if p = 255
      then message_text (Some ''PROGRAMMING'') (Some ''Just wait'') (lv_color_make 255 255 0) v
      else progress_value (percent_text p) (ucast p) 100
        (progress_text ''PROGRAMMING'' (lv_color_make 255 255 0) v))"
| "spec_call env Display_done v =
     message_text (Some ''DONE'') (Some ''Move to next one'') (lv_color_make 0x10 0xf0 0x10) v"
| "spec_call env (Display_error h m) v = message_text h m (lv_color_make 0xff 0x10 0x10) v"
| "spec_call env Display_config v =
     message_text (Some ''CONFIG'') (Some ''Connect me to USB'') lv_color_white v"
| "spec_call env (Display_current lo hi av st c) v =
     current_text (reading_text env lo hi av) st c v"

section \<open>Abstraction and invariant\<close>

definition view_of :: "ui_composer \<Rightarrow> view" where
  "view_of u = (let hp = heap_of (uc_calls u) in
     case uc_screen u of
       CLEAR \<Rightarrow> Blank
     | MESSAGE \<Rightarrow> Message_view (attr w_text hp (ms_header (uc_message u)))
         (attr w_text hp (ms_comment (uc_message u))) (attr w_bg hp (uc_base_obj u))
     | PROGRESS \<Rightarrow> Progress_view (attr w_text hp (ps_header (uc_progress u)))
         (attr w_text hp (ps_comment (uc_progress u))) (attr w_indicator hp (ps_bar (uc_progress u)))
         (attr w_bg hp (ps_bar (uc_progress u))) (attr w_range hp (ps_bar (uc_progress u)))
         (attr w_value hp (ps_bar (uc_progress u)))
     | CURRENT \<Rightarrow> Current_view (attr w_text hp (us_current (uc_current u)))
         (attr w_text hp (us_state (uc_current u))) (attr w_bg hp (us_state (uc_current u))))"

text \<open>
  The widgets alive are exactly those of the screen that \<open>screen_state\<close> names, and the composer's
  pointers point to them.
\<close>

definition screen_ok :: "ui_composer \<Rightarrow> bool" where
  "screen_ok u \<longleftrightarrow> (let hp = heap_of (uc_calls u) in
     case uc_screen u of
       CLEAR \<Rightarrow> uc_base_obj u = None \<and> hp = Map.empty
     | MESSAGE \<Rightarrow> message_tree hp (uc_message u) (uc_base_obj u)
     | PROGRESS \<Rightarrow> progress_tree hp (uc_progress u) (uc_base_obj u)
     | CURRENT \<Rightarrow> current_tree hp (uc_current u) (uc_base_obj u))"

definition composer_wf :: "ui_composer \<Rightarrow> bool" where
  "composer_wf u \<longleftrightarrow> screen_ok u \<and> safe (uc_calls u)"

definition lv_ok :: "'d lv_env \<Rightarrow> bool" where
  "lv_ok env \<longleftrightarrow> lv_has_memory env \<and> lv_fresh env"

lemma emit_simps [simp]:
  "uc_calls (emit cs u) = uc_calls u @ cs" "uc_message (emit cs u) = uc_message u"
  "uc_progress (emit cs u) = uc_progress u" "uc_current (emit cs u) = uc_current u"
  "uc_base_obj (emit cs u) = uc_base_obj u" "uc_screen (emit cs u) = uc_screen u"
  by (simp_all add: emit_def)

lemma new_composer_wf: "composer_wf new_composer"
  by (simp add: composer_wf_def screen_ok_def new_composer_def lv)

text \<open>Deleting the base object deletes the whole screen.\<close>

lemma screen_ok_reload:
  assumes "screen_ok u"
  shows "uc_base_obj u = None \<and> heap_of (uc_calls u) = Map.empty \<or>
    (\<exists>b. uc_base_obj u = Some b \<and> heap_of (uc_calls u) b \<noteq> None \<and> kill b (heap_of (uc_calls u)) = Map.empty)"
  using assms
  by (cases "uc_screen u")
    (auto simp: screen_ok_def message_tree_def progress_tree_def current_tree_def kill_def ancestors_shape
      live_shape Let_def intro!: ext split: if_splits)

lemma base_style_sets: "list_all (sets (Some b)) (base_style cl (Some b))"
  by (simp add: base_style_def)

lemma new_base_tree:
  assumes "lv_ok env" and "heap_of tr = Map.empty" and "safe tr"
  shows "\<exists>b. lv_new env tr = Some b \<and> base_tree (heap_of (tr @ Obj_create (Some b) # base_style cl (Some b))) (Some b) \<and>
    safe (tr @ Obj_create (Some b) # base_style cl (Some b))"
proof -
  from assms(1) obtain b where b: "lv_new env tr = Some b"
    by (metis lv_newE lv_ok_def)
  from sets_heap [of b "base_style cl (Some b)" "[b \<mapsto> new_widget []]" "new_widget []"] base_style_sets b assms(2,3)
  show ?thesis by (auto simp: base_tree_def lv)
qed

lemma reload_base_obj_ok:
  assumes "lv_ok env" and "composer_wf u"
  shows "base_tree (heap_of (uc_calls (reload_base_obj cl env u))) (uc_base_obj (reload_base_obj cl env u)) \<and>
    safe (uc_calls (reload_base_obj cl env u))"
proof -
  have sc: "screen_ok u" and sf: "safe (uc_calls u)"
    using assms(2) by (simp_all add: composer_wf_def)
  from screen_ok_reload [OF sc] show ?thesis
  proof (elim disjE conjE exE)
    assume "uc_base_obj u = None" "heap_of (uc_calls u) = Map.empty"
    with new_base_tree [OF assms(1) _ sf, of cl] show ?thesis
      by (auto simp: reload_base_obj_def Let_def)
  next
    fix b assume b: "uc_base_obj u = Some b" "heap_of (uc_calls u) b \<noteq> None"
      "kill b (heap_of (uc_calls u)) = Map.empty"
    then have "heap_of (uc_calls u @ [Obj_del (Some b)]) = Map.empty" "safe (uc_calls u @ [Obj_del (Some b)])"
      using sf by (simp_all add: lv)
    from new_base_tree [OF assms(1) this, of cl] b(1) show ?thesis
      by (auto simp: reload_base_obj_def Let_def)
  qed
qed

section \<open>Each step keeps the invariant and shows what the specification says\<close>

text \<open>Setting properties of live widgets keeps the tree, and with it the invariant.\<close>

definition sets_live :: "heap \<Rightarrow> lv_call \<Rightarrow> bool" where
  "sets_live hp c \<longleftrightarrow> (\<exists>h. sets (Some h) c \<and> hp h \<noteq> None)"

lemma sets_live_steps:
  "list_all (sets_live hp) cs \<Longrightarrow> shape (fold heap_step cs hp) = shape hp \<and> safe_from hp cs"
proof (induction cs arbitrary: hp)
  case Nil
  then show ?case by simp
next
  case (Cons c cs)
  then obtain h w where h: "sets (Some h) c" "hp h = Some w"
    by (auto simp: sets_live_def)
  have step: "shape (heap_step c hp) = shape hp"
    using sets_step(1) [of h c hp w, OF h] h(2) by (simp add: shape_def fun_eq_iff)
  then have "list_all (sets_live (heap_step c hp)) cs"
    using Cons.prems by (auto simp: sets_live_def list_all_iff live_shape)
  with Cons.IH [of "heap_step c hp"] step sets_step(2) [of h c hp w, OF h] h(2) show ?case
    by (simp add: live_Some)
qed

lemma screen_ok_shape:
  assumes "shape (heap_of (uc_calls u')) = shape (heap_of (uc_calls u))" and "uc_screen u' = uc_screen u"
    and "uc_message u' = uc_message u" "uc_progress u' = uc_progress u" "uc_current u' = uc_current u"
    and "uc_base_obj u' = uc_base_obj u"
  shows "screen_ok u' = screen_ok u"
proof -
  have "(heap_of (uc_calls u') = Map.empty) = (heap_of (uc_calls u) = Map.empty)"
    using assms(1) by (metis ext live_shape)
  with assms show ?thesis
    by (simp add: screen_ok_def message_tree_def progress_tree_def current_tree_def Let_def
        split: screen_state.split)
qed

lemma emit_wf:
  assumes "composer_wf u" and "list_all (sets_live (heap_of (uc_calls u))) cs"
  shows "composer_wf (emit cs u)"
  using assms sets_live_steps [OF assms(2)] screen_ok_shape [of "emit cs u" u]
  by (simp add: composer_wf_def lv)

lemma emit_lock_wf:
  assumes "composer_wf u" and "c = Port_unlock \<or> c = Port_lock ms ok"
  shows "composer_wf (emit [c] u)" and "view_of (emit [c] u) = view_of u"
  using assms screen_ok_shape [of "emit [c] u" u] by (auto simp: composer_wf_def view_of_def Let_def lv split: screen_state.split)

text \<open>Reading a property after a step.\<close>

lemma attr_Some: "hp x = Some w \<Longrightarrow> attr f hp (Some x) = f w"
  by (simp add: attr_def)

lemma shape_get: "shape hp x = Some a \<Longrightarrow> \<exists>w. hp x = Some w"
  by (auto simp: shape_def)

text \<open>The outcome of a call that got the lock.\<close>

definition draws :: "view \<Rightarrow> esp_err \<times> ui_composer \<Rightarrow> bool" where
  "draws v res \<longleftrightarrow> fst res = ESP_OK \<and> composer_wf (snd res) \<and> view_of (snd res) = v"

lemma unlock_ok_draws: "composer_wf u \<Longrightarrow> draws (view_of u) (unlock_ok u)"
  by (simp add: draws_def unlock_ok_def emit_lock_wf)

lemmas message_setters = message_set_header_text_def message_set_comment_text_def message_set_color_def
lemmas progress_setters = progress_set_progress_def progress_set_header_text_def
  progress_set_comment_text_def progress_set_bar_color_def
lemmas current_setters = current_set_current_main_def current_set_state_def

lemma message_screenE:
  assumes "composer_wf u" and "uc_screen u = MESSAGE"
  obtains b h c wb wh wc where "uc_base_obj u = Some b"
    "ms_base (uc_message u) = Some b" "ms_header (uc_message u) = Some h" "ms_comment (uc_message u) = Some c"
     "distinct [b, h, c]"
    "heap_of (uc_calls u) b = Some wb" "heap_of (uc_calls u) h = Some wh" "heap_of (uc_calls u) c = Some wc"
proof -
  from assms obtain b h c where u: "uc_base_obj u = Some b"
    "ms_base (uc_message u) = Some b" "ms_header (uc_message u) = Some h" "ms_comment (uc_message u) = Some c"
     "distinct [b, h, c]"
    and sh: "shape (heap_of (uc_calls u)) = [b \<mapsto> [], h \<mapsto> [b], c \<mapsto> [b]]"
    by (auto simp: composer_wf_def screen_ok_def message_tree_def Let_def)
  from u(5) have "shape (heap_of (uc_calls u)) b = Some []" "shape (heap_of (uc_calls u)) h = Some [b]"
    "shape (heap_of (uc_calls u)) c = Some [b]"
    by (simp_all add: sh)
  with u show ?thesis by (auto dest!: shape_get intro: that)
qed

lemma put_message_draws:
  assumes wf: "composer_wf u" and m: "uc_screen u = MESSAGE"
  shows "draws (message_text h c col (view_of u)) (put_message h c col u)"
proof -
  from wf m obtain b hl cl wb wh wc where u: "uc_base_obj u = Some b"
    "ms_base (uc_message u) = Some b" "ms_header (uc_message u) = Some hl" "ms_comment (uc_message u) = Some cl"
     "distinct [b, hl, cl]"
    "heap_of (uc_calls u) b = Some wb" "heap_of (uc_calls u) hl = Some wh" "heap_of (uc_calls u) cl = Some wc"
    by (rule message_screenE)
  let ?cs = "message_set_header_text (uc_message u) h @ message_set_comment_text (uc_message u) c @
    message_set_color (uc_message u) col lv_color_black"
  have "list_all (sets_live (heap_of (uc_calls u))) ?cs"
    using u by (simp add: message_setters sets_live_def)
  from emit_wf [OF wf this] have wf': "composer_wf (emit ?cs u)" .
  have "view_of (emit ?cs u) = message_text h c col (view_of u)"
    using u m by (cases h; cases c) (simp_all add: view_of_def message_setters attr_def Let_def lv)
  moreover have "put_message h c col u = unlock_ok (emit ?cs u)"
    by (simp add: put_message_def emit_def)
  ultimately show ?thesis using unlock_ok_draws [OF wf'] by simp
qed

lemma progress_screenE:
  assumes "composer_wf u" and "uc_screen u = PROGRESS"
  obtains b p h c wb wp wh wc where "uc_base_obj u = Some b"
    "ps_base (uc_progress u) = Some b" "ps_bar (uc_progress u) = Some p"
    "ps_header (uc_progress u) = Some h" "ps_comment (uc_progress u) = Some c" "distinct [b, p, h, c]"
    "heap_of (uc_calls u) b = Some wb" "heap_of (uc_calls u) p = Some wp"
    "heap_of (uc_calls u) h = Some wh" "heap_of (uc_calls u) c = Some wc"
proof -
  from assms obtain b p h c where u: "uc_base_obj u = Some b"
    "ps_base (uc_progress u) = Some b" "ps_bar (uc_progress u) = Some p"
    "ps_header (uc_progress u) = Some h" "ps_comment (uc_progress u) = Some c" "distinct [b, p, h, c]"
    and sh: "shape (heap_of (uc_calls u)) = [b \<mapsto> [], p \<mapsto> [b], h \<mapsto> [p, b], c \<mapsto> [p, b]]"
    by (auto simp: composer_wf_def screen_ok_def progress_tree_def Let_def)
  from u(6) have "shape (heap_of (uc_calls u)) b = Some []" "shape (heap_of (uc_calls u)) p = Some [b]"
    "shape (heap_of (uc_calls u)) h = Some [p, b]" "shape (heap_of (uc_calls u)) c = Some [p, b]"
    by (simp_all add: sh)
  with u show ?thesis by (auto dest!: shape_get intro: that)
qed

lemma put_header_draws:
  assumes wf: "composer_wf u" and m: "uc_screen u = PROGRESS"
  shows "composer_wf (put_header h col u)" and "uc_screen (put_header h col u) = PROGRESS"
    and "\<exists>c r v. view_of (put_header h col u) =
      Progress_view (Some h) c (Some col) (Some lv_color_white) r v"
proof -
  from wf m obtain b p hl cl wb wp wh wc where u: "uc_base_obj u = Some b"
    "ps_base (uc_progress u) = Some b" "ps_bar (uc_progress u) = Some p"
    "ps_header (uc_progress u) = Some hl" "ps_comment (uc_progress u) = Some cl" "distinct [b, p, hl, cl]"
    "heap_of (uc_calls u) b = Some wb" "heap_of (uc_calls u) p = Some wp"
    "heap_of (uc_calls u) hl = Some wh" "heap_of (uc_calls u) cl = Some wc"
    by (rule progress_screenE)
  let ?cs = "progress_set_header_text (uc_progress u) (Some h) @
    progress_set_bar_color (uc_progress u) col lv_color_white"
  have put: "put_header h col u = emit ?cs u"
    by (simp add: put_header_def emit_def)
  have "list_all (sets_live (heap_of (uc_calls u))) ?cs"
    using u by (simp add: progress_setters sets_live_def)
  from emit_wf [OF wf this] show "composer_wf (put_header h col u)" by (simp only: put)
  show "uc_screen (put_header h col u) = PROGRESS" using m by (simp add: put)
  show "\<exists>c r v. view_of (put_header h col u) =
      Progress_view (Some h) c (Some col) (Some lv_color_white) r v"
    using u m by (simp add: put view_of_def progress_setters attr_def Let_def lv)
qed

lemma put_progress_draws:
  assumes wf: "composer_wf u" and m: "uc_screen u = PROGRESS"
  shows "draws (progress_value c d n (view_of u)) (put_progress c d n u)"
proof -
  from wf m obtain b p hl cl wb wp wh wc where u: "uc_base_obj u = Some b"
    "ps_base (uc_progress u) = Some b" "ps_bar (uc_progress u) = Some p"
    "ps_header (uc_progress u) = Some hl" "ps_comment (uc_progress u) = Some cl" "distinct [b, p, hl, cl]"
    "heap_of (uc_calls u) b = Some wb" "heap_of (uc_calls u) p = Some wp"
    "heap_of (uc_calls u) hl = Some wh" "heap_of (uc_calls u) cl = Some wc"
    by (rule progress_screenE)
  let ?cs = "progress_set_comment_text (uc_progress u) (Some c) @ progress_set_progress (uc_progress u) d n"
  have "list_all (sets_live (heap_of (uc_calls u))) ?cs"
    using u by (simp add: progress_setters sets_live_def)
  from emit_wf [OF wf this] have wf': "composer_wf (emit ?cs u)" .
  have "view_of (emit ?cs u) = progress_value c d n (view_of u)"
    using u m by (simp add: view_of_def progress_setters attr_def Let_def lv)
  moreover have "put_progress c d n u = unlock_ok (emit ?cs u)"
    by (simp add: put_progress_def emit_def)
  ultimately show ?thesis using unlock_ok_draws [OF wf'] by simp
qed

lemma put_current_draws:
  assumes wf: "composer_wf u" and m: "uc_screen u = CURRENT"
  shows "draws (current_text r st col (view_of u)) (put_current r st col u)"
proof -
  let ?cs = "current_set_current_main (uc_current u) (Some r) @ current_set_state (uc_current u) st col"
  from wf m obtain b h c s where u: "us_header (uc_current u) = Some h"
    "us_current (uc_current u) = Some c" "us_state (uc_current u) = Some s" "distinct [b, h, c, s]"
    and sh: "shape (heap_of (uc_calls u)) = [b \<mapsto> [], h \<mapsto> [b], c \<mapsto> [b], s \<mapsto> [b]]"
    by (auto simp: composer_wf_def screen_ok_def current_tree_def Let_def)
  from u(4) have "shape (heap_of (uc_calls u)) c = Some [b]" "shape (heap_of (uc_calls u)) s = Some [b]"
    by (simp_all add: sh)
  then obtain wc ws where w: "heap_of (uc_calls u) c = Some wc" "heap_of (uc_calls u) s = Some ws"
    by (auto dest!: shape_get)
  have "list_all (sets_live (heap_of (uc_calls u))) ?cs"
    using u w by (simp add: current_setters sets_live_def)
  from emit_wf [OF wf this] have wf': "composer_wf (emit ?cs u)" .
  have "view_of (emit ?cs u) = current_text r st col (view_of u)"
    using u w m by (cases st) (simp_all add: view_of_def current_setters attr_def Let_def lv)
  moreover have "put_current r st col u = unlock_ok (emit ?cs u)"
    by (simp add: put_current_def emit_def)
  ultimately show ?thesis using unlock_ok_draws [OF wf'] by simp
qed

text \<open>Switching screens: the new one is set up on a fresh base object.\<close>

lemma with_message_draws:
  assumes env: "lv_ok env" and wf: "composer_wf u"
  shows "draws (message_text h c col (view_of u)) (with_message cl env (put_message h c col) u)"
proof (cases "uc_screen u = MESSAGE")
  case True
  then show ?thesis using put_message_draws [OF wf] by (simp add: with_message_def)
next
  case False
  let ?u = "reload_base_obj cl env u"
  from env reload_base_obj_ok [OF env wf, of cl]
  obtain m tr where i: "message_init cl env (uc_base_obj ?u) (uc_message ?u, uc_calls ?u) = (ESP_OK, m, tr)"
      "message_tree (heap_of tr) m (uc_base_obj ?u)" "safe tr"
      "attr w_text (heap_of tr) (ms_header m) = Some ''UNKNOWN''"
      "attr w_text (heap_of tr) (ms_comment m) = Some ''0%''"
    unfolding lv_ok_def using message_init_ok by blast
  let ?v = "?u\<lparr>uc_message := m, uc_calls := tr, uc_screen := MESSAGE\<rparr>"
  have "composer_wf ?v" using i by (simp add: composer_wf_def screen_ok_def)
  moreover have "message_text h c col (view_of ?v) = message_text h c col (view_of u)"
    using i False by (cases "uc_screen u") (simp_all add: view_of_def Let_def)
  ultimately show ?thesis
    using False i put_message_draws [of ?v h c col] by (simp add: with_message_def Let_def)
qed

lemma with_progress_draws:
  assumes env: "lv_ok env" and wf: "composer_wf u"
    and k: "\<And>u'. composer_wf u' \<Longrightarrow> uc_screen u' = PROGRESS \<Longrightarrow>
      (uc_screen u = PROGRESS \<longrightarrow> u' = u) \<Longrightarrow>
      (uc_screen u \<noteq> PROGRESS \<longrightarrow> (\<exists>u0. u' = once u0 \<and> composer_wf u0 \<and> uc_screen u0 = PROGRESS)) \<Longrightarrow>
      draws v (k u')"
    and once: "\<And>u'. composer_wf u' \<Longrightarrow> uc_screen u' = PROGRESS \<Longrightarrow>
      composer_wf (once u') \<and> uc_screen (once u') = PROGRESS"
  shows "draws v (with_progress cl env once k u)"
proof (cases "uc_screen u = PROGRESS")
  case True
  then show ?thesis using k [OF wf] by (simp add: with_progress_def)
next
  case False
  let ?u = "reload_base_obj cl env u"
  from env reload_base_obj_ok [OF env wf, of cl]
  obtain m tr where i: "progress_init cl env (uc_base_obj ?u) (uc_progress ?u, uc_calls ?u) = (ESP_OK, m, tr)"
      "progress_tree (heap_of tr) m (uc_base_obj ?u)" "safe tr"
    unfolding lv_ok_def using progress_init_ok by blast
  let ?v = "?u\<lparr>uc_progress := m, uc_calls := tr, uc_screen := PROGRESS\<rparr>"
  have v: "composer_wf ?v" "uc_screen ?v = PROGRESS"
    using i by (simp_all add: composer_wf_def screen_ok_def)
  have "draws v (k (once ?v))"
    using once [OF v] False v by (intro k) blast+
  then show ?thesis using False i by (simp add: with_progress_def Let_def)
qed

lemma with_current_draws:
  assumes env: "lv_ok env" and wf: "composer_wf u"
  shows "draws (current_text r st col (view_of u)) (with_current cl env (put_current r st col) u)"
proof (cases "uc_screen u = CURRENT")
  case True
  then show ?thesis using put_current_draws [OF wf] by (simp add: with_current_def)
next
  case False
  let ?u = "reload_base_obj cl env u"
  from env reload_base_obj_ok [OF env wf, of cl]
  obtain m tr where i: "current_init cl env (uc_base_obj ?u) (uc_current ?u, uc_calls ?u) = (ESP_OK, m, tr)"
      "current_tree (heap_of tr) m (uc_base_obj ?u)" "safe tr"
      "attr w_text (heap_of tr) (us_state m) = Some ''PENDING''"
    unfolding lv_ok_def using current_init_ok by blast
  let ?v = "?u\<lparr>uc_current := m, uc_calls := tr, uc_screen := CURRENT\<rparr>"
  have "composer_wf ?v" using i by (simp add: composer_wf_def screen_ok_def)
  moreover have "current_text r st col (view_of ?v) = current_text r st col (view_of u)"
    using i False by (cases "uc_screen u") (simp_all add: view_of_def Let_def)
  ultimately show ?thesis
    using False i put_current_draws [of ?v r st col] by (simp add: with_current_def Let_def)
qed

lemma view_of_PROGRESS:
  "uc_screen u = PROGRESS \<Longrightarrow> \<exists>h c i b r v. view_of u = Progress_view h c i b r v"
  "uc_screen u \<noteq> PROGRESS \<Longrightarrow> view_of u \<noteq> Progress_view h c i b r v"
  by (cases "uc_screen u"; simp add: view_of_def Let_def)+

lemma percent_draws:
  assumes env: "lv_ok env" and wf: "composer_wf u"
  shows "draws (progress_value t d n (progress_text h col (view_of u)))
    (with_progress cl env (put_header h col) (put_progress t d n) u)"
proof (rule with_progress_draws [OF env wf])
  fix u' assume u': "composer_wf u'" "uc_screen u' = PROGRESS" "uc_screen u = PROGRESS \<longrightarrow> u' = u"
    "uc_screen u \<noteq> PROGRESS \<longrightarrow> (\<exists>u0. u' = put_header h col u0 \<and> composer_wf u0 \<and> uc_screen u0 = PROGRESS)"
  have "progress_value t d n (view_of u') = progress_value t d n (progress_text h col (view_of u))"
  proof (cases "uc_screen u = PROGRESS")
    case True
    with u'(3) view_of_PROGRESS(1) [OF True] show ?thesis by auto
  next
    case False
    with u'(4) put_header_draws(3) [of _ h col] have "\<exists>c r v. view_of u' =
        Progress_view (Some h) c (Some col) (Some lv_color_white) r v"
      by blast
    with view_of_PROGRESS(2) [OF False] show ?thesis
      by (auto split: view.split)
  qed
  with put_progress_draws [OF u'(1,2), of t d n]
  show "draws (progress_value t d n (progress_text h col (view_of u))) (put_progress t d n u')"
    by simp
qed (use put_header_draws in blast)

lemma test_draws:
  assumes env: "lv_ok env" and wf: "composer_wf u"
  shows "draws (progress_value t d n (progress_text h col Blank))
    (with_progress cl env id (\<lambda>u. put_progress t d n (put_header h col u)) u)"
proof (rule with_progress_draws [OF env wf])
  fix u' assume u': "composer_wf u'" "uc_screen u' = PROGRESS"
  from put_header_draws(3) [OF u', of h col]
  have "progress_value t d n (view_of (put_header h col u')) = progress_value t d n (progress_text h col Blank)"
    by auto
  with put_progress_draws [OF put_header_draws(1,2) [OF u', of h col], of t d n]
  show "draws (progress_value t d n (progress_text h col Blank)) (put_progress t d n (put_header h col u'))"
    by simp
qed auto

lemmas display_defs = display_init_def display_erase_def display_test_def display_program_def
  display_done_def display_error_def display_config_def display_current_def

definition lock_free_call :: "ui_class \<Rightarrow> 'd lv_env \<Rightarrow> 'd ui_call \<Rightarrow> ui_composer \<Rightarrow> esp_err \<times> ui_composer" where
  "lock_free_call cl env c = (case c of
     Display_init \<Rightarrow> with_message cl env (put_message (Some ''READY'') (Some ''Detecting target'') lv_color_white)
   | Display_erase p \<Rightarrow> (if p = 255
       then with_message cl env
         (put_message (Some ''ERASING'') (Some ''Full chip erase'') (lv_color_make 0x7a 0xff 0xff))
       else with_progress cl env (put_header ''ERASING'' (lv_color_make 0x7a 0xff 0xff))
         (put_progress (percent_text p) (ucast p) 100))
   | Display_test d n m \<Rightarrow> with_progress cl env id (\<lambda>u.
       put_progress (case m of None \<Rightarrow> count_text d n | Some t \<Rightarrow> t) d n
         (put_header ''TESTING'' (lv_color_make 0xcb 0xc3 0xe3) u))
   | Display_program p \<Rightarrow> (if p = 255
       then with_message cl env
         (put_message (Some ''PROGRAMMING'') (Some ''Just wait'') (lv_color_make 255 255 0))
       else with_progress cl env (put_header ''PROGRAMMING'' (lv_color_make 255 255 0))
         (put_progress (percent_text p) (ucast p) 100))
   | Display_done \<Rightarrow> with_message cl env
       (put_message (Some ''DONE'') (Some ''Move to next one'') (lv_color_make 0x10 0xf0 0x10))
   | Display_error h m \<Rightarrow> with_message cl env (put_message h m (lv_color_make 0xff 0x10 0x10))
   | Display_config \<Rightarrow> with_message cl env (put_message (Some ''CONFIG'') (Some ''Connect me to USB'') lv_color_white)
   | Display_current lo hi av st col \<Rightarrow> with_current cl env (put_current (reading_text env lo hi av) st col))"

lemma composer_call_locked: "composer_call cl env c = when_locked env (lock_free_call cl env c)"
  by (cases c) (simp_all add: lock_free_call_def display_defs)

lemma lock_free_draws:
  assumes "lv_ok env" and "composer_wf u"
  shows "draws (spec_call env c (view_of u)) (lock_free_call cl env c u)"
  using with_message_draws [OF assms] percent_draws [OF assms] test_draws [OF assms]
    with_current_draws [OF assms]
  by (cases c) (simp_all add: lock_free_call_def del: progress_text.simps)

lemma when_locked_simps:
  "lv_locks env (uc_calls u) \<Longrightarrow> when_locked env k u = k (emit [Port_lock 1000 True] u)"
  "\<not> lv_locks env (uc_calls u) \<Longrightarrow> when_locked env k u = (ESP_ERR_TIMEOUT, emit [Port_lock 1000 False] u)"
  by (simp_all add: when_locked_def wait_for_ui_mod_def)

lemma composer_call_outcome:
  assumes "lv_ok env" and "composer_wf u"
  shows "composer_wf (snd (composer_call cl env c u)) \<and>
    (if lv_locks env (uc_calls u)
     then fst (composer_call cl env c u) = ESP_OK \<and>
       view_of (snd (composer_call cl env c u)) = spec_call env c (view_of u)
     else fst (composer_call cl env c u) = ESP_ERR_TIMEOUT \<and>
       view_of (snd (composer_call cl env c u)) = view_of u)"
proof -
  have lk: "composer_wf (emit [Port_lock 1000 ok] u)" "view_of (emit [Port_lock 1000 ok] u) = view_of u" for ok
    using emit_lock_wf [OF assms(2), of "Port_lock 1000 ok" 1000 ok] by simp_all
  with lock_free_draws [OF assms(1) lk(1) [of True], of c cl] show ?thesis
    by (simp add: composer_call_locked when_locked_simps draws_def)
qed

section \<open>The lock\<close>

text \<open>Everything but taking and giving back the lock.\<close>

fun plain :: "lv_call \<Rightarrow> bool" where
  "plain (Port_lock ms ok) = False"
| "plain Port_unlock = False"
| "plain _ = True"

definition adds_plain :: "lv_call list \<Rightarrow> lv_call list \<Rightarrow> bool" where
  "adds_plain tr tr' \<longleftrightarrow> (\<exists>cs. tr' = tr @ cs \<and> list_all plain cs)"

lemma adds_plain_refl: "adds_plain tr tr"
  by (simp add: adds_plain_def)

lemma adds_plainI: "adds_plain tr tr' \<Longrightarrow> list_all plain cs \<Longrightarrow> adds_plain tr (tr' @ cs)"
  by (fastforce simp: adds_plain_def)

lemma adds_plain_trans: "adds_plain a b \<Longrightarrow> adds_plain b c \<Longrightarrow> adds_plain a c"
  by (force simp: adds_plain_def)

lemma style_plain:
  "list_all plain (header_style cl h)" "list_all plain (comment_style cl h c)" "list_all plain (bar_style cl p)"
  "list_all plain (title_style cl h)" "list_all plain (reading_style cl h)" "list_all plain (state_style cl h)"
  "list_all plain (base_style cl b)"
  by (simp_all add: style_defs comment_style_def base_style_def)

lemma message_init_plain: "adds_plain tr (snd (snd (message_init cl env b (m, tr))))"
  by (auto simp: message_init_def Let_def adds_plain_def style_plain)

lemma progress_init_plain: "adds_plain tr (snd (snd (progress_init cl env b (m, tr))))"
  by (auto simp: progress_init_def Let_def adds_plain_def style_plain)

lemma current_init_plain: "adds_plain tr (snd (snd (current_init cl env b (m, tr))))"
  by (auto simp: current_init_def Let_def adds_plain_def style_plain)

lemma reload_plain: "adds_plain (uc_calls u) (uc_calls (reload_base_obj cl env u))"
  by (auto simp: reload_base_obj_def Let_def adds_plain_def style_plain)

text \<open>A body run under the lock makes plain calls and unlocks, unless it fails and the class does not unlock.\<close>

definition closes :: "ui_class \<Rightarrow> ui_composer \<Rightarrow> esp_err \<times> ui_composer \<Rightarrow> bool" where
  "closes cl u res \<longleftrightarrow> (\<exists>tr. adds_plain (uc_calls u) tr \<and>
     (fst res = ESP_OK \<and> uc_calls (snd res) = tr @ [Port_unlock] \<or>
      fst res = ESP_ERR_NO_MEM \<and> uc_calls (snd res) = (if cl_unlock_on_fail cl then tr @ [Port_unlock] else tr)))"

lemma closes_after: "adds_plain (uc_calls u) (uc_calls u') \<Longrightarrow> closes cl u' res \<Longrightarrow> closes cl u res"
  unfolding closes_def by (meson adds_plain_trans)

lemma setters_plain:
  "list_all plain (message_set_header_text m h)" "list_all plain (message_set_comment_text m h)"
  "list_all plain (message_set_color m col col')"
  "list_all plain (progress_set_header_text p h)" "list_all plain (progress_set_comment_text p h)"
  "list_all plain (progress_set_bar_color p col col')" "list_all plain (progress_set_progress p d n)"
  "list_all plain (current_set_current_main s h)" "list_all plain (current_set_state s h col)"
  by (simp_all add: message_setters progress_setters current_setters)

lemma put_closes:
  "closes cl u (put_message h c col u)" "closes cl u (put_progress t d n u)" "closes cl u (put_current r st col u)"
  "adds_plain (uc_calls u) (uc_calls (put_header t col u))"
  by (simp_all add: closes_def put_message_def put_progress_def put_current_def put_header_def unlock_ok_def
      adds_plainI adds_plain_refl setters_plain)

lemma setup_failed_closes: "closes cl u (setup_failed cl u)"
  by (simp add: closes_def setup_failed_def adds_plain_refl)

lemma with_message_closes:
  assumes "\<And>u. closes cl u (k u)"
  shows "closes cl u (with_message cl env k u)"
proof -
  let ?u = "reload_base_obj cl env u"
  obtain r m tr where i: "message_init cl env (uc_base_obj ?u) (uc_message ?u, uc_calls ?u) = (r, m, tr)"
    by (metis prod_cases3)
  have "adds_plain (uc_calls u) tr"
    using adds_plain_trans [OF reload_plain [of u cl env] message_init_plain] i by (metis snd_conv)
  then have "closes cl u (k (?u\<lparr>uc_message := m, uc_calls := tr, uc_screen := MESSAGE\<rparr>))"
    "closes cl u (setup_failed cl (?u\<lparr>uc_message := m, uc_calls := tr\<rparr>))"
    by (auto intro: closes_after [OF _ assms] closes_after [OF _ setup_failed_closes])
  then show ?thesis using assms i by (simp add: with_message_def Let_def)
qed

lemma with_progress_closes:
  assumes "\<And>u. closes cl u (k u)" and "\<And>u. adds_plain (uc_calls u) (uc_calls (once u))"
  shows "closes cl u (with_progress cl env once k u)"
proof -
  let ?u = "reload_base_obj cl env u"
  obtain r m tr where i: "progress_init cl env (uc_base_obj ?u) (uc_progress ?u, uc_calls ?u) = (r, m, tr)"
    by (metis prod_cases3)
  let ?v = "?u\<lparr>uc_progress := m, uc_calls := tr, uc_screen := PROGRESS\<rparr>"
  have tr: "adds_plain (uc_calls u) tr"
    using adds_plain_trans [OF reload_plain [of u cl env] progress_init_plain] i by (metis snd_conv)
  then have "adds_plain (uc_calls u) (uc_calls (once ?v))"
    using assms(2) [of ?v] adds_plain_trans by auto
  with tr have "closes cl u (k (once ?v))" "closes cl u (setup_failed cl (?u\<lparr>uc_progress := m, uc_calls := tr\<rparr>))"
    by (auto intro: closes_after [OF _ assms(1)] closes_after [OF _ setup_failed_closes])
  then show ?thesis using assms i by (simp add: with_progress_def Let_def)
qed

lemma with_current_closes:
  assumes "\<And>u. closes cl u (k u)"
  shows "closes cl u (with_current cl env k u)"
proof -
  let ?u = "reload_base_obj cl env u"
  obtain r m tr where i: "current_init cl env (uc_base_obj ?u) (uc_current ?u, uc_calls ?u) = (r, m, tr)"
    by (metis prod_cases3)
  have "adds_plain (uc_calls u) tr"
    using adds_plain_trans [OF reload_plain [of u cl env] current_init_plain] i by (metis snd_conv)
  then have "closes cl u (k (?u\<lparr>uc_current := m, uc_calls := tr, uc_screen := CURRENT\<rparr>))"
    "closes cl u (setup_failed cl (?u\<lparr>uc_current := m, uc_calls := tr\<rparr>))"
    by (auto intro: closes_after [OF _ assms] closes_after [OF _ setup_failed_closes])
  then show ?thesis using assms i by (simp add: with_current_def Let_def)
qed

lemma lock_free_closes: "closes cl u (lock_free_call cl env c u)"
proof -
  have t: "closes cl u (put_progress t d n (put_header h col u))" for u t d n h col
    by (rule closes_after [OF put_closes(4) put_closes(2)])
  show ?thesis
    by (cases c) (auto simp: lock_free_call_def adds_plain_refl
      intro!: with_message_closes with_progress_closes with_current_closes put_closes t)
qed

lemma plain_steps:
  "list_all plain cs \<Longrightarrow> fold lock_step cs d = d"
  "list_all plain cs \<Longrightarrow> 0 < d \<Longrightarrow> guarded_from d cs"
proof -
  have step: "lock_step c d = d" if "plain c" for c using that by (cases c) simp_all
  show "fold lock_step cs d = d" if "list_all plain cs" using that by (induction cs) (simp_all add: step)
  show "guarded_from d cs" if "list_all plain cs" "0 < d" using that by (induction cs) (simp_all add: step)
qed

lemma composer_call_lock:
  fixes u :: ui_composer and cl :: ui_class and env :: "'d lv_env" and c :: "'d ui_call"
  assumes "guarded (uc_calls u)"
  defines "res \<equiv> composer_call cl env c u"
  shows "guarded (uc_calls (snd res)) \<and> lock_depth (uc_calls (snd res)) =
      lock_depth (uc_calls u) + (if fst res = ESP_ERR_NO_MEM \<and> \<not> cl_unlock_on_fail cl then 1 else 0)"
proof (cases "lv_locks env (uc_calls u)")
  case False
  then show ?thesis
    using assms by (simp add: composer_call_locked when_locked_simps guarded_append lock_depth_append)
next
  case True
  let ?u = "emit [Port_lock 1000 True] u"
  from True have res: "res = lock_free_call cl env c ?u"
    by (simp add: res_def composer_call_locked when_locked_simps)
  from lock_free_closes [of cl ?u env c] show ?thesis
    unfolding res closes_def adds_plain_def
    by (auto simp: guarded_append lock_depth_append guarded_from_append plain_steps assms(1))
qed

section \<open>The interface the program draws with\<close>

text \<open>
  Calls made one after another, whatever they return: callers of the composers ignore the
  result. \<open>accepted_calls\<close> are those that returned \<open>ESP_OK\<close>.
\<close>

fun run_calls :: "('c \<Rightarrow> 's \<Rightarrow> esp_err \<times> 's) \<Rightarrow> 'c list \<Rightarrow> 's \<Rightarrow> 's" where
  "run_calls call [] s = s"
| "run_calls call (c # cs) s = run_calls call cs (snd (call c s))"

fun accepted_calls :: "('c \<Rightarrow> 's \<Rightarrow> esp_err \<times> 's) \<Rightarrow> 'c list \<Rightarrow> 's \<Rightarrow> 'c list" where
  "accepted_calls call [] s = []"
| "accepted_calls call (c # cs) s =
     (if fst (call c s) = ESP_OK then [c] else []) @ accepted_calls call cs (snd (call c s))"

locale ui_contract =
  fixes call :: "'c \<Rightarrow> 's \<Rightarrow> esp_err \<times> 's"
    and inv :: "'s \<Rightarrow> bool"
    and view :: "'s \<Rightarrow> 'v"
    and spec :: "'c \<Rightarrow> 'v \<Rightarrow> 'v"
  assumes inv_call: "inv s \<Longrightarrow> inv (snd (call c s))"
    and shown: "inv s \<Longrightarrow> fst (call c s) = ESP_OK \<Longrightarrow> view (snd (call c s)) = spec c (view s)"
    and unchanged: "inv s \<Longrightarrow> fst (call c s) \<noteq> ESP_OK \<Longrightarrow> view (snd (call c s)) = view s"
begin

lemma run_inv: "inv s \<Longrightarrow> inv (run_calls call cs s)"
  by (induction cs arbitrary: s) (simp_all add: inv_call)

lemma run_view: "inv s \<Longrightarrow> view (run_calls call cs s) = fold spec (accepted_calls call cs s) (view s)"
  by (induction cs arbitrary: s) (simp_all add: inv_call shown unchanged)

end

lemma composer_call_114: "composer_call_114 env = composer_call ui_class_114 env"
  by (simp add: fun_eq_iff call_114)

interpretation draw: ui_contract "composer_call cl env" "\<lambda>u. lv_ok env \<and> composer_wf u" view_of "spec_call env"
  for cl env
proof unfold_locales
  fix u c assume "lv_ok env \<and> composer_wf u"
  then have ok: "lv_ok env" "composer_wf u" by simp_all
  note out = composer_call_outcome [OF ok, of cl c]
  show "lv_ok env \<and> composer_wf (snd (composer_call cl env c u))" using ok out by simp
  show "view_of (snd (composer_call cl env c u)) = spec_call env c (view_of u)"
    if "fst (composer_call cl env c u) = ESP_OK" using out that by (simp split: if_splits)
  show "view_of (snd (composer_call cl env c u)) = view_of u"
    if "fst (composer_call cl env c u) \<noteq> ESP_OK" using out that by (simp split: if_splits)
qed

interpretation draw_noop: ui_contract composer_call_noop "\<lambda>u. True" "\<lambda>u. ()" "\<lambda>c v. ()"
  by unfold_locales simp_all

lemma run_calls_lock:
  assumes "cl_unlock_on_fail cl" and "guarded (uc_calls u)"
  shows "guarded (uc_calls (run_calls (composer_call cl env) cs u)) \<and>
    lock_depth (uc_calls (run_calls (composer_call cl env) cs u)) = lock_depth (uc_calls u)"
  using assms(2)
proof (induction cs arbitrary: u)
  case (Cons c cs)
  with composer_call_lock [OF Cons.prems, where cl = cl and env = env and c = c] assms(1) show ?case by simp
qed simp

lemma accepted_all:
  assumes "lv_ok env" and "\<And>tr. lv_locks env tr" and "composer_wf u"
  shows "accepted_calls (composer_call cl env) cs u = cs"
  using assms(3)
proof (induction cs arbitrary: u)
  case (Cons c cs)
  with composer_call_outcome [OF assms(1) Cons.prems, of cl c] assms(2) show ?case by simp
qed simp

lemma view_new: "view_of new_composer = Blank"
  by (simp add: view_of_def new_composer_def)

lemma run_shows_spec:
  assumes "lv_ok env" and "\<And>tr. lv_locks env tr"
  shows "view_of (run_calls (composer_call cl env) cs new_composer) = fold (spec_call env) cs Blank"
  using draw.run_view [of env new_composer cl cs] accepted_all [OF assms new_composer_wf, of cl cs] assms(1)
  by (simp add: new_composer_wf view_new)

section \<open>Properties\<close>

lemma counting_env_ok: "lv_ok (counting_env fmt)"
  by (simp add: lv_ok_def counting_env_memory counting_env_fresh)

definition roomy_env :: "unit lv_env" where
  "roomy_env = counting_env (\<lambda>_. '''')"

lemma roomy_env_ok: "lv_ok roomy_env"
  by (simp add: roomy_env_def counting_env_ok)

text \<open>A heap that has no room for the fifth object.\<close>

definition small_env :: "unit lv_env" where
  "small_env = (counting_env (\<lambda>_. ''''))\<lparr>lv_new :=
     (\<lambda>tr. if length (filter (\<lambda>c. 0 < above c) tr) = 4 then None else Some (next_number tr))\<rparr>"

text \<open>
  C13: As long as LVGL has memory for its widgets, both composers show exactly what the specification says: after any
  sequence of calls the panel shows the result of the calls that got the lock, in their order, and
  a call that timed out has changed nothing.
\<close>

theorem composers_show_the_calls:
  assumes "lv_ok env"
  shows "view_of (run_calls (composer_call ui_class_279 env) cs new_composer) =
      fold (spec_call env) (accepted_calls (composer_call ui_class_279 env) cs new_composer) Blank \<and>
    view_of (run_calls (composer_call_114 env) cs new_composer) =
      fold (spec_call env) (accepted_calls (composer_call_114 env) cs new_composer) Blank"
  unfolding composer_call_114
  using draw.run_view [of env new_composer] assms by (simp add: new_composer_wf view_new)

theorem composers_show_the_calls_witness:
  "view_of (run_calls (composer_call ui_class_279 roomy_env) [Display_done] new_composer) =
      fold (spec_call roomy_env)
        (accepted_calls (composer_call ui_class_279 roomy_env) [Display_done] new_composer) Blank \<and>
    view_of (run_calls (composer_call_114 roomy_env) [Display_done] new_composer) =
      fold (spec_call roomy_env)
        (accepted_calls (composer_call_114 roomy_env) [Display_done] new_composer) Blank"
  by (rule composers_show_the_calls [OF roomy_env_ok])

text \<open>
  C14: Well-formedness of the composers' state: after any sequence of calls, with LVGL never out of memory, the pointers of
  the screen that \<open>screen_state\<close> names point to live, distinct widgets of the right parents, no other
  widget is alive (a screen that was replaced is gone entirely), and no call so far was given a null or deleted
  object.
\<close>

theorem composer_state_well_formed:
  assumes "lv_ok env"
  shows "composer_wf (run_calls (composer_call ui_class_279 env) cs new_composer) \<and>
    composer_wf (run_calls (composer_call_114 env) cs new_composer)"
  unfolding composer_call_114
  using draw.run_inv [of env new_composer] assms by (simp add: new_composer_wf)

theorem composer_state_well_formed_witness:
  "composer_wf (run_calls (composer_call ui_class_279 roomy_env)
      [Display_init, Display_program 10, Display_done] new_composer) \<and>
    composer_wf (run_calls (composer_call_114 roomy_env)
      [Display_init, Display_program 10, Display_done] new_composer)"
  by (rule composer_state_well_formed [OF roomy_env_ok])

text \<open>
  The header and the colours of the progress screen are set when the screen is set up only, except by \<open>display_test\<close>: on a
  screen left by the self tests, programming goes on under the header \<open>TESTING\<close>.
\<close>

lemma progress_header_is_stale:
  assumes "p \<noteq> 255"
  shows "\<exists>c r v. fold (spec_call env) [Display_test d n None, Display_program p] v0 =
    Progress_view (Some ''TESTING'') c (Some (lv_color_make 0xcb 0xc3 0xe3)) (Some lv_color_white) r v"
  using assms by simp

text \<open>
  C16: Lock discipline of the 2.79 inch composer, whatever LVGL answers: every widget access and every unlock
  happens while the LVGL lock is held, and no call returns with the lock still held, failed ones included.
\<close>

theorem lock_discipline_279:
  "guarded (uc_calls (run_calls (composer_call ui_class_279 env) cs new_composer)) \<and>
    lock_depth (uc_calls (run_calls (composer_call ui_class_279 env) cs new_composer)) = 0"
  using run_calls_lock [of ui_class_279 new_composer env cs]
  by (simp add: ui_class_279_def new_composer_def guarded_def lock_depth_def)

text \<open>
  The 1.14 inch composer accesses widgets under the lock too, but keeps it when a screen cannot be
  set up: a call that returns \<open>ESP_ERR_NO_MEM\<close> leaves the lock held once more than before, any other
  call leaves it as it was.
\<close>

theorem lock_kept_on_failure_114:
  assumes "guarded (uc_calls u)"
  shows "guarded (uc_calls (snd (composer_call_114 env c u))) \<and>
    lock_depth (uc_calls (snd (composer_call_114 env c u))) =
      lock_depth (uc_calls u) + (if fst (composer_call_114 env c u) = ESP_ERR_NO_MEM then 1 else 0)"
  using composer_call_lock [OF assms, where cl = ui_class_114 and env = env and c = c]
  by (simp add: composer_call_114 ui_class_114_def)

theorem lock_kept_on_failure_114_witness:
  "guarded (uc_calls (snd (composer_call_114 small_env Display_init new_composer))) \<and>
    lock_depth (uc_calls (snd (composer_call_114 small_env Display_init new_composer))) =
      lock_depth (uc_calls new_composer) +
        (if fst (composer_call_114 small_env Display_init new_composer) = ESP_ERR_NO_MEM then 1 else 0)"
  by (rule lock_kept_on_failure_114) (simp add: new_composer_def guarded_def)

end
