(* ===== verification/Operator_View.thy ===== *)
theory Operator_View
  imports Offline_Flasher Ui_Correct
begin

text \<open>
  What the operator sees of a programming run: the display calls and LED colours that
  \<open>offline_flasher\<close> makes, put through the composer. This connects the state machine of
  \<open>Offline_Flasher\<close> with the panel of \<open>Ui_Correct\<close>.
\<close>

section \<open>From events to calls\<close>

definition hex_digit :: "nat \<Rightarrow> char" where
  "hex_digit n = (if n < 10 then char_of (48 + n) else char_of (87 + n))"

text \<open>\<open>%08lx\<close>\<close>

definition hex08 :: "u32 \<Rightarrow> string" where
  "hex08 w = map (\<lambda>i. hex_digit (unat (drop_bit (4 * i) w AND 0xf))) [7, 6, 5, 4, 3, 2, 1, 0]"

definition test_error_text :: "nat \<Rightarrow> nat \<Rightarrow> u32 \<Rightarrow> string \<Rightarrow> string" where
  "test_error_text i n addr tname = snprintf 128
     (''Test failed at'' @ [CHR 0x0A] @ udec i @ '' of '' @ udec n @ '' @ 0x'' @ hex08 addr @ '';'' @
      [CHR 0x0A] @ tname)"

definition test_ret_error_text :: "u32 \<Rightarrow> string \<Rightarrow> u32 \<Rightarrow> string" where
  "test_ret_error_text addr tname func_ret = snprintf 128
     (''Test failed @ 0x'' @ hex08 addr @ '';'' @ [CHR 0x0A] @ tname @ [CHR 0x0A] @ ''Ret='' @ udec (unat func_ret))"

text \<open>The display call behind an event; the readings of the current test are \<open>(min, max, avg)\<close>.\<close>

fun display_call :: "'d \<times> 'd \<times> 'd \<Rightarrow> ui_event \<Rightarrow> 'd ui_call list" where
  "display_call rd Ui_init = [Display_init]"
| "display_call rd (Ui_erase p) = [Display_erase (of_nat p)]"
| "display_call rd (Ui_program p) = [Display_program (of_nat p)]"
| "display_call rd (Ui_test d n) = [Display_test (of_nat d) (of_nat n) None]"
| "display_call rd Ui_done = [Display_done]"
| "display_call rd Ui_current =
     (case rd of (lo, hi, av) \<Rightarrow> [Display_current lo hi av (Some ''OK'') (lv_color_make 0 0xff 0)])"
| "display_call rd (Ui_error h m) = [Display_error (Some h) (Some m)]"
| "display_call rd (Ui_test_error i n addr tname) =
     [Display_error (Some ''ERROR'') (Some (test_error_text i n addr tname))]"
| "display_call rd (Ui_test_ret_error addr tname func_ret) =
     [Display_error (Some ''ERROR'') (Some (test_ret_error_text addr tname func_ret))]"
| "display_call rd (Ui_led r g b) = []"

definition display_calls :: "'d \<times> 'd \<times> 'd \<Rightarrow> ui_event list \<Rightarrow> 'd ui_call list" where
  "display_calls rd es = concat (map (display_call rd) es)"

fun led_step :: "ui_event \<Rightarrow> (nat \<times> nat \<times> nat) option \<Rightarrow> (nat \<times> nat \<times> nat) option" where
  "led_step (Ui_led r g b) c = Some (r, g, b)"
| "led_step _ c = c"

definition led_of :: "ui_event list \<Rightarrow> (nat \<times> nat \<times> nat) option" where
  "led_of es = fold led_step es None"

definition panel_of :: "'d lv_env \<Rightarrow> 'd \<times> 'd \<times> 'd \<Rightarrow> ui_event list \<Rightarrow> view" where
  "panel_of env rd es = fold (spec_call env) (display_calls rd es) Blank"

lemma panel_of_append:
  "panel_of env rd (es @ es') = fold (spec_call env) (display_calls rd es') (panel_of env rd es)"
  by (simp add: panel_of_def display_calls_def)

lemma display_calls_simps [simp]:
  "display_calls rd [] = []" "display_calls rd (e # es) = display_call rd e @ display_calls rd es"
  by (simp_all add: display_calls_def)

lemma led_of_append: "led_of (es @ es') = fold led_step es' (led_of es)"
  by (simp add: led_of_def)

abbreviation red :: lv_color where
  "red \<equiv> lv_color_make 0xff 0x10 0x10"

lemma message_text_full: "message_text (Some h) (Some c) col v = Message_view (Some h) (Some c) (Some col)"
  by (cases v) simp_all

section \<open>What a handler leaves on the panel\<close>

definition shows_error :: "view \<Rightarrow> bool" where
  "shows_error v \<longleftrightarrow> (\<exists>h c. v = Message_view (Some h) (Some c) (Some red))"

definition shows_ready :: "view \<Rightarrow> bool" where
  "shows_ready v \<longleftrightarrow> v = Message_view (Some ''READY'') (Some ''Detecting target'') (Some lv_color_white)"

definition shows_done :: "view \<Rightarrow> bool" where
  "shows_done v \<longleftrightarrow>
     v = Message_view (Some ''DONE'') (Some ''Move to next one'') (Some (lv_color_make 0x10 0xf0 0x10))"

definition error_shown :: "'d lv_env \<Rightarrow> 'd \<times> 'd \<times> 'd \<Rightarrow> 'w flasher \<Rightarrow> pg_state \<Rightarrow> bool" where
  "error_shown env rd f s \<longleftrightarrow>
     shows_error (panel_of env rd (fl_ui f)) \<or> s = DETECT \<and> shows_ready (panel_of env rd (fl_ui f))"

lemma fl_ui_simps [simp]:
  "fl_ui (ui e f) = fl_ui f @ [e]" "fl_ui (release_backend ru f) = fl_ui f" "fl_ui (tick ru f) = fl_ui f"
  by (auto simp: ui_def release_backend_def tick_def split: option.split)

lemma error_shown_error [simp]:
  "error_shown env rd (f\<lparr>fl_state := s'\<rparr>) s = error_shown env rd f s"
  "error_shown env rd (f\<lparr>fl_world := w\<rparr>) s = error_shown env rd f s"
  "error_shown env rd (f\<lparr>fl_failed_state := s'\<rparr>) s = error_shown env rd f s"
  "error_shown env rd (tick ru f) s = error_shown env rd f s"
  "error_shown env rd (ui (Ui_error h m) f) s"
  "error_shown env rd (ui (Ui_test_error i n addr tname) f) s"
  "error_shown env rd (ui (Ui_test_ret_error addr tname r) f) s"
  by (simp_all add: error_shown_def panel_of_append message_text_full shows_error_def)

lemma self_test_error_shown:
  "fl_state f \<noteq> ERROR \<Longrightarrow> fl_state (self_test_loop be n i items f) = ERROR \<Longrightarrow>
     error_shown env rd (self_test_loop be n i items f) s"
proof (induction be n i items f rule: self_test_loop.induct)
  case (1 be n i f)
  then show ?case by (simp add: end_self_test_def)
next
  case (2 be n i item items f)
  then show ?case
    by (auto simp: Let_def end_self_test_def split: prod.splits if_splits)
qed

lemma stage_error_shown:
  assumes "run_state ru f = Some (r, f1)" and "fl_state f1 = ERROR" and "fl_state f \<noteq> ERROR"
  shows "error_shown env rd f1 (fl_state f)"
proof (cases "fl_state f")
  case DETECT
  have "error_shown env rd (ui Ui_init g) DETECT" for g
    by (simp add: error_shown_def panel_of_append message_text_full shows_ready_def)
  with DETECT assms show ?thesis
    by (auto simp: run_state_def on_detect_def with_backend_def Let_def
        split: option.splits prod.splits if_splits)
next
  case SELF_TEST
  then obtain be n items where f1: "f1 = self_test_loop be n 0 items (ui (Ui_led 0 0xb7 0xeb) f)"
    using assms(1) by (auto simp: run_state_def on_self_test_def with_backend_def Let_def split: option.splits)
  then show ?thesis
    using self_test_error_shown [of "ui (Ui_led 0 0xb7 0xeb) f" be n 0 items] assms(2,3) by simp
qed (use assms in \<open>auto simp: run_state_def on_load_asset_def on_pre_program_def on_erase_def
      on_program_def on_verify_def on_post_program_def on_current_test_def on_done_def on_cancelled_def
      after_post_def with_backend_def Let_def split: option.splits prod.splits if_splits\<close>)

section \<open>A whole run\<close>

definition outcome_shown :: "'d lv_env \<Rightarrow> 'd \<times> 'd \<times> 'd \<Rightarrow> esp_err \<Rightarrow> 'w flasher \<Rightarrow> bool" where
  "outcome_shown env rd ret f \<longleftrightarrow>
     (if ret = ESP_OK
      then shows_done (panel_of env rd (fl_ui f)) \<and> led_of (fl_ui f) = Some (0, 80, 0)
      else error_shown env rd f (fl_failed_state f) \<and>
        (led_of (fl_ui f) = Some (0x80, 0, 0) \<or> led_of (fl_ui f) = Some (0x80, 0x80, 0)))"

text \<open>A flasher that is in \<open>ERROR\<close> has shown why.\<close>

definition error_told :: "'d lv_env \<Rightarrow> 'd \<times> 'd \<times> 'd \<Rightarrow> 'w flasher \<Rightarrow> bool" where
  "error_told env rd f \<longleftrightarrow> (fl_state f = ERROR \<longrightarrow> error_shown env rd f (fl_failed_state f))"

lemma handle_states_told:
  assumes "handle_states ru c f = Some (ret, f1)" and "error_told env rd f"
  shows "if ret = ESP_ERR_NOT_FINISHED then error_told env rd f1 else outcome_shown env rd ret f1"
proof -
  let ?f = "check_cancel c f"
  obtain f2 where rs: "run_state ru ?f = Some (ret, f2)"
      and f1: "f1 = (if fl_state f2 = ERROR \<and> fl_state ?f \<noteq> ERROR then f2\<lparr>fl_failed_state := fl_state ?f\<rparr> else f2)"
    using assms(1) by (auto simp: handle_states_def Let_def split: prod.splits)
  have told: "error_told env rd ?f"
    using assms(2) by (simp add: error_told_def check_cancel_def Let_def)
  consider (err) "fl_state ?f = ERROR" | (fin) "fl_state ?f = DONE" | (can) "fl_state ?f = CANCELLED"
    | (stage) "fl_state ?f \<noteq> ERROR" "fl_state ?f \<noteq> DONE" "fl_state ?f \<noteq> CANCELLED" by blast
  then show ?thesis
  proof cases
    case err
    with rs f1 told show ?thesis
      by (auto simp: run_state_def on_error_def outcome_shown_def error_told_def error_shown_def
          panel_of_append led_of_append)
  next
    case fin
    with rs f1 show ?thesis
      by (auto simp: run_state_def on_done_def outcome_shown_def panel_of_append led_of_append shows_done_def
          message_text_full)
  next
    case can
    with rs f1 show ?thesis
      by (auto simp: run_state_def on_cancelled_def outcome_shown_def error_shown_def panel_of_append
          led_of_append shows_error_def message_text_full)
  next
    case stage
    have "ret = ESP_ERR_NOT_FINISHED"
      using rs stage by (auto simp: run_state_def split: pg_state.splits)
    with stage_error_shown [OF rs, of env rd] f1 stage(1) show ?thesis
      by (auto simp: error_told_def)
  qed
qed

lemma run_loop_shown_aux:
  "run_loop ru cancel n f = Some y \<Longrightarrow> error_told env rd f \<longrightarrow> outcome_shown env rd (fst y) (snd y)"
proof (rule run_loop.raw_induct [where P = "\<lambda>ru cancel n f y.
    error_told env rd f \<longrightarrow> outcome_shown env rd (fst y) (snd y)"], rule impI)
  fix loop ru cancel n f y
  assume IH: "\<And>ru cancel n f y. loop ru cancel n f = Some y \<Longrightarrow>
      error_told env rd f \<longrightarrow> outcome_shown env rd (fst y) (snd y)"
    and body: "(case handle_states ru (cancel n) f of None \<Rightarrow> None
      | Some (ret, f) \<Rightarrow> if ret = ESP_ERR_NOT_FINISHED then loop ru cancel (Suc n) (tick ru f)
          else Some (ret, tick ru f)) = Some y"
    and told: "error_told env rd f"
  obtain ret f1 where h: "handle_states ru (cancel n) f = Some (ret, f1)"
    using body by (auto split: option.splits)
  note step = handle_states_told [OF h told]
  show "outcome_shown env rd (fst y) (snd y)"
  proof (cases "ret = ESP_ERR_NOT_FINISHED")
    case True
    with step have "error_told env rd (tick ru f1)" by (simp add: error_told_def)
    moreover have "loop ru cancel (Suc n) (tick ru f1) = Some y" using body h True by simp
    ultimately show ?thesis using IH by blast
  next
    case False
    with step body h show ?thesis by (auto simp: outcome_shown_def error_shown_def)
  qed
qed

lemma run_shown:
  assumes "run_loop ru cancel 0 (fl_init ru f) = Some (ret, f')"
  shows "outcome_shown env rd ret f'"
  using run_loop_shown_aux [OF assms, of env rd] by (simp add: error_told_def fl_init_start)

section \<open>Properties\<close>

lemma detect_loop_fails:
  "(\<And>w. fst (be_detect be w) \<noteq> ESP_OK) \<Longrightarrow> fst p \<noteq> ESP_OK \<Longrightarrow>
     \<exists>r w'. detect_loop rt be n p = (r, 0, w') \<and> r \<noteq> ESP_OK"
proof (induction n arbitrary: p)
  case 0
  then show ?case by (cases p) simp
next
  case (Suc n)
  then show ?case by (cases p) simp
qed

text \<open>
  C7: The operator can trust the panel and the LED. After a run on a panel with memory and the lock,
  a passed run shows \<open>DONE\<close> on green with a green LED; a failed or cancelled run never shows
  \<open>DONE\<close>: the panel is red with a reason (or, when the target was not detected, still on \<open>READY\<close>) and
  the LED is red or yellow.
\<close>

theorem operator_sees_outcome:
  assumes "lv_ok env" and "\<And>tr. lv_locks env tr"
    and "run_loop ru cancel 0 (fl_init ru f) = Some (ret, f')"
  shows "let v = view_of (run_calls (composer_call cl env) (display_calls rd (fl_ui f')) new_composer) in
    if ret = ESP_OK then shows_done v \<and> led_of (fl_ui f') = Some (0, 80, 0)
    else \<not> shows_done v \<and> (shows_error v \<or> fl_failed_state f' = DETECT \<and> shows_ready v) \<and>
      (led_of (fl_ui f') = Some (0x80, 0, 0) \<or> led_of (fl_ui f') = Some (0x80, 0x80, 0))"
proof -
  have "view_of (run_calls (composer_call cl env) (display_calls rd (fl_ui f')) new_composer) =
      panel_of env rd (fl_ui f')"
    using run_shows_spec [OF assms(1,2)] by (simp add: panel_of_def)
  with run_shown [OF assms(3), of env rd] show ?thesis
    by (auto simp: outcome_shown_def error_shown_def shows_done_def shows_error_def shows_ready_def Let_def
        split: if_splits)
qed

theorem operator_sees_outcome_witness:
  "\<exists>f'. run_loop sample_run (\<lambda>_. False) 0 (fl_init sample_run sample_flasher) = Some (ESP_OK, f') \<and>
     shows_done (view_of (run_calls (composer_call ui_class_279 roomy_env)
       (display_calls ((), (), ()) (fl_ui f')) new_composer))"
proof -
  obtain f' where r: "run_loop sample_run (\<lambda>_. False) 0 (fl_init sample_run sample_flasher) = Some (ESP_OK, f')"
    using sample_run_passes by blast
  have "lv_locks roomy_env tr" for tr by (simp add: roomy_env_def counting_env_def)
  from operator_sees_outcome [OF roomy_env_ok this r, where cl = ui_class_279 and rd = "((), (), ())"] r
  show ?thesis by (auto simp: Let_def)
qed

text \<open>
  A target that cannot be detected ends the run with \<open>ESP_FAIL\<close> and a red LED, but the panel goes on
  saying \<open>READY\<close> / \<open>Detecting target\<close>: this is the only failing stage that shows no error text.
\<close>

theorem failed_detection_still_shows_ready:
  assumes "fl_state f = DETECT" and "fl_backend f = Some fam" and "\<not> cancel n"
    and "\<And>w. fst (be_detect (ru_backend ru fam) w) \<noteq> ESP_OK"
  shows "\<exists>f'. run_loop ru cancel n f = Some (ESP_FAIL, f') \<and> fl_failed_state f' = DETECT \<and>
    shows_ready (panel_of env rd (fl_ui f')) \<and> led_of (fl_ui f') = Some (0x80, 0, 0)"
proof -
  let ?be = "ru_backend ru fam"
  obtain r w' where d: "detect_loop (ru_rtos ru) ?be 10 (be_detect ?be (fl_world (ui Ui_init f))) = (r, 0, w')"
      "r \<noteq> ESP_OK"
    using detect_loop_fails [of ?be] assms(4) by metis
  let ?f1 = "(ui Ui_init f)\<lparr>fl_world := w', fl_state := ERROR, fl_failed_state := DETECT\<rparr>"
  have "handle_states ru (cancel n) f = Some (ESP_ERR_NOT_FINISHED, ?f1)"
    using assms(1-3) d
    by (simp add: handle_states_def check_cancel_def run_state_def on_detect_def with_backend_def)
  moreover have "run_loop ru cancel (Suc n) (tick ru ?f1) = Some (ESP_FAIL, tick ru (on_error ru (tick ru ?f1)))"
    by (subst run_loop.simps) (simp add: handle_states_def check_cancel_def run_state_def on_error_def)
  ultimately show ?thesis
    by (subst run_loop.simps)
      (simp add: on_error_def panel_of_append led_of_append shows_ready_def message_text_full)
qed

theorem failed_detection_still_shows_ready_witness:
  "\<exists>f'. run_loop (sample_run\<lparr>ru_backend := \<lambda>_. tick_backend\<lparr>be_detect := Pair ESP_FAIL\<rparr>\<rparr>) (\<lambda>_. False) 0
       (sample_flasher\<lparr>fl_backend := Some swd_cortex_m\<rparr>) = Some (ESP_FAIL, f') \<and> fl_failed_state f' = DETECT \<and>
     shows_ready (panel_of roomy_env ((), (), ()) (fl_ui f')) \<and> led_of (fl_ui f') = Some (0x80, 0, 0)"
  by (rule failed_detection_still_shows_ready) (simp_all add: sample_flasher_def)

end
