(* ===== verification/Lcd_Bus.thy ===== *)
theory Lcd_Bus
  imports Si_Prelude
begin

text \<open>
  The ESP-IDF drivers below the display code: GPIO, the SPI bus, the panel IO handle, the ST7789
  driver and the LVGL port. None of them is under \<open>main/\<close>; they are a parameter \<open>bus_env\<close> that answers
  each call, given the calls made before it. What the display code does is the sequence of calls. A
  \<open>script\<close> is a list of calls with a mark on those whose failure ends it; \<open>play\<close> runs one. The inits of the
  panels and of the NV3007 driver are shown to be scripts.
\<close>

section \<open>Calls\<close>

datatype st7789_op =
    St_reset | St_init | St_disp_on_off bool | St_invert_color bool | St_swap_xy bool
  | St_mirror bool bool | St_set_gap int int

datatype bus_call =
    Gpio_config_output int
  | Gpio_set_level int bool
  | Gpio_reset_pin int
  | Task_delay nat
  | Spi_bus_initialize int int
  | New_panel_io_spi int int nat
  | New_panel_st7789 int nat
  | St7789 st7789_op
  | Tx_param u8 bytes
  | Tx_color u8 u32
  | Lvgl_port_init
  | Lvgl_add_disp nat nat bool bool bool

type_synonym bus_env = "bus_call list \<Rightarrow> bus_call \<Rightarrow> esp_err"

definition send :: "bus_env \<Rightarrow> bus_call \<Rightarrow> bus_call list \<Rightarrow> esp_err \<times> bus_call list" where
  "send env c tr = (env tr c, tr @ [c])"

text \<open>A call whose result the code does not look at.\<close>

definition post :: "bus_call \<Rightarrow> bus_call list \<Rightarrow> bus_call list" where
  "post c tr = tr @ [c]"

section \<open>Scripts\<close>

type_synonym script = "(bool \<times> bus_call) list"

fun play :: "bus_env \<Rightarrow> script \<Rightarrow> bus_call list \<Rightarrow> esp_err \<times> bus_call list" where
  "play env [] tr = (ESP_OK, tr)"
| "play env ((checked, c) # cs) tr =
     (if checked \<and> env tr c \<noteq> ESP_OK then (env tr c, tr @ [c]) else play env cs (tr @ [c]))"

text \<open>
  What playing a script means: all of it was sent and nothing that is checked failed, or it was
  sent up to and including the first checked call that failed, whose code is returned.
\<close>

definition played :: "bus_env \<Rightarrow> script \<Rightarrow> bus_call list \<Rightarrow> esp_err \<Rightarrow> bus_call list \<Rightarrow> bool" where
  "played env sc tr ret tr' \<longleftrightarrow>
     (\<exists>k \<le> length sc. tr' = tr @ map snd (take k sc) \<and>
        (\<forall>i < k - (if ret = ESP_OK then 0 else 1). fst (sc ! i) \<longrightarrow>
           env (tr @ map snd (take i sc)) (snd (sc ! i)) = ESP_OK) \<and>
        (if ret = ESP_OK then k = length sc
         else 0 < k \<and> fst (sc ! (k - 1)) \<and> ret = env (tr @ map snd (take (k - 1) sc)) (snd (sc ! (k - 1)))))"

lemma play_append: "play env (a @ b) tr = and_then (play env a tr) (play env b)"
  by (induction a arbitrary: tr) (auto simp: and_then_def check_def)

lemma play_checked: "play env ((True, c) # cs) tr = and_then (send env c tr) (play env cs)"
  by (simp add: send_def and_then_def check_def)

lemma play_single: "send env c = play env [(True, c)]"
  by (simp add: fun_eq_iff send_def)

lemma play_unchecked: "play env ((False, c) # cs) tr = play env cs (post c tr)"
  by (simp add: post_def)

lemma and_then_play: "and_then (play env a tr) (play env b) = play env (a @ b) tr"
  by (simp add: play_append)

lemma and_then_assoc: "and_then (and_then p f) g = and_then p (\<lambda>s. and_then (f s) g)"
  by (cases p) (auto simp: and_then_def check_def)

lemma play_played: "play env sc tr = (ret, tr') \<Longrightarrow> played env sc tr ret tr'"
proof (induction sc arbitrary: tr)
  case Nil
  then show ?case by (auto simp: played_def)
next
  case (Cons x sc)
  obtain checked c where x: "x = (checked, c)" by fastforce
  show ?case
  proof (cases "checked \<and> env tr c \<noteq> ESP_OK")
    case True
    with Cons.prems x have "ret = env tr c" "tr' = tr @ [c]" "ret \<noteq> ESP_OK" by auto
    with x True show ?thesis
      by (auto simp: played_def intro!: exI [of _ 1])
  next
    case False
    with Cons.prems x have "play env sc (tr @ [c]) = (ret, tr')" by auto
    from Cons.IH [OF this] obtain k where k: "k \<le> length sc" "tr' = (tr @ [c]) @ map snd (take k sc)"
        "\<forall>i < k - (if ret = ESP_OK then 0 else 1). fst (sc ! i) \<longrightarrow>
           env ((tr @ [c]) @ map snd (take i sc)) (snd (sc ! i)) = ESP_OK"
        "if ret = ESP_OK then k = length sc
         else 0 < k \<and> fst (sc ! (k - 1)) \<and>
           ret = env ((tr @ [c]) @ map snd (take (k - 1) sc)) (snd (sc ! (k - 1)))"
      unfolding played_def by blast
    have "fst ((x # sc) ! i) \<longrightarrow> env (tr @ map snd (take i (x # sc))) (snd ((x # sc) ! i)) = ESP_OK"
      if "i < Suc k - (if ret = ESP_OK then 0 else 1)" for i
      using that k(3,4) x False by (cases i) (auto split: if_splits)
    moreover have "if ret = ESP_OK then Suc k = length (x # sc)
         else 0 < Suc k \<and> fst ((x # sc) ! (Suc k - 1)) \<and>
           ret = env (tr @ map snd (take (Suc k - 1) (x # sc))) (snd ((x # sc) ! (Suc k - 1)))"
      using k(4) x by (cases k) (auto split: if_splits)
    moreover have "Suc k \<le> length (x # sc)" "tr' = tr @ map snd (take (Suc k) (x # sc))"
      using k(1,2) x by simp_all
    ultimately show ?thesis unfolding played_def by blast
  qed
qed

lemma played_OK: "played env sc tr ESP_OK tr' \<Longrightarrow> tr' = tr @ map snd sc"
  by (auto simp: played_def)

end
