(* ===== verification/Nv3007.thy ===== *)
theory Nv3007
  imports Lcd_Bus "HOL-Library.Monad_Syntax"
begin

text \<open>
  \<open>main/driver/lcd/esp_lcd_panel_nv3007.c\<close>: the driver of the NV3007 controller. The panel IO it talks
  through is the bus of \<open>Lcd_Bus\<close>. Command codes and the bits of \<open>MADCTL\<close> are those of the MIPI display command set,
  which ESP-IDF's \<open>esp_lcd_panel_commands.h\<close> names. Sums and products of C's \<open>int\<close> are \<open>None\<close> where they leave its 32
  bits, which is undefined in C. What the controller makes of the bytes is written as \<open>decode_pair\<close> and \<open>orientation_of\<close>.
\<close>

section \<open>Commands\<close>

definition LCD_CMD_SWRESET :: u8 where "LCD_CMD_SWRESET = 0x01"
definition LCD_CMD_SLPOUT :: u8 where "LCD_CMD_SLPOUT = 0x11"
definition LCD_CMD_DISPOFF :: u8 where "LCD_CMD_DISPOFF = 0x28"
definition LCD_CMD_DISPON :: u8 where "LCD_CMD_DISPON = 0x29"
definition LCD_CMD_CASET :: u8 where "LCD_CMD_CASET = 0x2a"
definition LCD_CMD_RASET :: u8 where "LCD_CMD_RASET = 0x2b"
definition LCD_CMD_RAMWR :: u8 where "LCD_CMD_RAMWR = 0x2c"
definition LCD_CMD_MADCTL :: u8 where "LCD_CMD_MADCTL = 0x36"
definition LCD_CMD_COLMOD :: u8 where "LCD_CMD_COLMOD = 0x3a"
definition LCD_CMD_MV_BIT :: u8 where "LCD_CMD_MV_BIT = 0x20"
definition LCD_CMD_MX_BIT :: u8 where "LCD_CMD_MX_BIT = 0x40"
definition LCD_CMD_MY_BIT :: u8 where "LCD_CMD_MY_BIT = 0x80"

lemmas lcd_cmds = LCD_CMD_SWRESET_def LCD_CMD_SLPOUT_def LCD_CMD_DISPOFF_def LCD_CMD_DISPON_def
  LCD_CMD_CASET_def LCD_CMD_RASET_def LCD_CMD_RAMWR_def LCD_CMD_MADCTL_def LCD_CMD_COLMOD_def
lemmas madctl_bits = LCD_CMD_MV_BIT_def LCD_CMD_MX_BIT_def LCD_CMD_MY_BIT_def

section \<open>State and tables\<close>

text \<open>An entry of the init sequence; \<open>data\<close> is an array of four bytes, zero where not given.\<close>

record nv3007_init_cmd =
  ic_cmd :: u8
  ic_data :: bytes
  ic_data_bytes :: nat
  ic_delay_ms :: nat

definition entry :: "u8 \<Rightarrow> bytes \<Rightarrow> nat \<Rightarrow> nat \<Rightarrow> nv3007_init_cmd" where
  "entry cmd data n delay =
     \<lparr>ic_cmd = cmd, ic_data = take 4 (data @ replicate 4 0), ic_data_bytes = n, ic_delay_ms = delay\<rparr>"

record nv3007_panel =
  nv_reset_gpio_num :: int
  nv_reset_level :: bool
  nv_x_gap :: int
  nv_y_gap :: int
  nv_madctl_val :: u8

definition LCD_INIT_SEQ :: "nv3007_init_cmd list" where
  "LCD_INIT_SEQ =
     [entry 0xff [0xa5] 1 0, entry 0x9a [0x08] 1 0, entry 0x9b [0x08] 1 0, 
      entry 0x9c [0xb0] 1 0, entry 0x9d [0x16] 1 0, entry 0x9e [0xc4] 1 0, 
      entry 0x8f [0x55, 0x04] 2 0, entry 0x84 [0x90] 1 0, entry 0x83 [0x7b] 1 0, 
      entry 0x85 [0x33] 1 0, entry 0x60 [0x00] 1 0, entry 0x70 [0x00] 1 0, 
      entry 0x61 [0x02] 1 0, entry 0x71 [0x02] 1 0, entry 0x62 [0x04] 1 0, 
      entry 0x72 [0x04] 1 0, entry 0x6c [0x29] 1 0, entry 0x7c [0x29] 1 0, 
      entry 0x6d [0x31] 1 0, entry 0x7d [0x31] 1 0, entry 0x6e [0x0f] 1 0, 
      entry 0x7e [0x0f] 1 0, entry 0x66 [0x21] 1 0, entry 0x76 [0x21] 1 0, 
      entry 0x68 [0x3a] 1 0, entry 0x78 [0x3a] 1 0, entry 0x63 [0x07] 1 0, 
      entry 0x73 [0x07] 1 0, entry 0x64 [0x05] 1 0, entry 0x74 [0x05] 1 0, 
      entry 0x65 [0x02] 1 0, entry 0x75 [0x02] 1 0, entry 0x67 [0x23] 1 0, 
      entry 0x77 [0x23] 1 0, entry 0x69 [0x08] 1 0, entry 0x79 [0x08] 1 0, 
      entry 0x6a [0x13] 1 0, entry 0x7a [0x13] 1 0, entry 0x6b [0x13] 1 0, 
      entry 0x7b [0x13] 1 0, entry 0x6f [0x00] 1 0, entry 0x7f [0x00] 1 0, 
      entry 0x50 [0x00] 1 0, entry 0x52 [0xd6] 1 0, entry 0x53 [0x08] 1 0, 
      entry 0x54 [0x08] 1 0, entry 0x55 [0x1e] 1 0, entry 0x56 [0x1c] 1 0, 
      entry 0xa0 [0x2b, 0x24, 0x00] 3 0, entry 0xa1 [0x87] 1 0, entry 0xa2 [0x86] 1 0, 
      entry 0xa5 [0x00] 1 0, entry 0xa6 [0x00] 1 0, entry 0xa7 [0x00] 1 0, 
      entry 0xa8 [0x36] 1 0, entry 0xa9 [0x7e] 1 0, entry 0xaa [0x7e] 1 0, 
      entry 0xb9 [0x85] 1 0, entry 0xba [0x84] 1 0, entry 0xbb [0x83] 1 0, 
      entry 0xbc [0x82] 1 0, entry 0xbd [0x81] 1 0, entry 0xbe [0x80] 1 0, 
      entry 0xbf [0x01] 1 0, entry 0xc0 [0x02] 1 0, entry 0xc1 [0x00] 1 0, 
      entry 0xc2 [0x00] 1 0, entry 0xc3 [0x00] 1 0, entry 0xc4 [0x33] 1 0, 
      entry 0xc5 [0x7e] 1 0, entry 0xc6 [0x7e] 1 0, entry 0xc8 [0x33, 0x33] 2 0, 
      entry 0xc9 [0x68] 1 0, entry 0xca [0x69] 1 0, entry 0xcb [0x6a] 1 0, 
      entry 0xcc [0x6b] 1 0, entry 0xcd [0x33, 0x33] 2 0, entry 0xce [0x6c] 1 0, 
      entry 0xcf [0x6d] 1 0, entry 0xd0 [0x6e] 1 0, entry 0xd1 [0x6f] 1 0, 
      entry 0xab [0x03, 0x67] 2 0, entry 0xac [0x03, 0x6b] 2 0, entry 0xad [0x03, 0x68] 2 0, 
      entry 0xae [0x03, 0x6c] 2 0, entry 0xb3 [0x00] 1 0, entry 0xb4 [0x00] 1 0, 
      entry 0xb5 [0x00] 1 0, entry 0xb6 [0x32] 1 0, entry 0xb7 [0x7e] 1 0, 
      entry 0xb8 [0x7e] 1 0, entry 0xe0 [0x00] 1 0, entry 0xe1 [0x03, 0x0f] 2 0, 
      entry 0xe2 [0x04] 1 0, entry 0xe3 [0x01] 1 0, entry 0xe4 [0x0e] 1 0, 
      entry 0xe5 [0x01] 1 0, entry 0xe6 [0x19] 1 0, entry 0xe7 [0x10] 1 0, 
      entry 0xe8 [0x10] 1 0, entry 0xea [0x12] 1 0, entry 0xeb [0xd0] 1 0, 
      entry 0xec [0x04] 1 0, entry 0xed [0x07] 1 0, entry 0xee [0x07] 1 0, 
      entry 0xef [0x09] 1 0, entry 0xf0 [0xd0] 1 0, entry 0xf1 [0x0e, 0x17] 2 0, 
      entry 0xf2 [0x2c, 0x1b, 0x0b, 0x20] 4 0, entry 0xe9 [0x29] 1 0, entry 0xec [0x04] 1 0, 
      entry 0x35 [0x00] 1 0, entry 0x44 [0x00, 0x10] 2 0, entry 0x46 [0x10] 1 0, 
      entry 0xff [0x00] 1 0, entry LCD_CMD_COLMOD [0x05] 1 0, entry LCD_CMD_SLPOUT [0] 0 220, 
      entry LCD_CMD_DISPON [0] 0 200]"

datatype rgb_order = LCD_RGB_ELEMENT_ORDER_RGB | LCD_RGB_ELEMENT_ORDER_BGR
datatype rgb_endian = LCD_RGB_DATA_ENDIAN_BIG | LCD_RGB_DATA_ENDIAN_LITTLE

record panel_dev_config =
  pd_reset_gpio_num :: int
  pd_rgb_ele_order :: rgb_order
  pd_data_endian :: rgb_endian
  pd_bits_per_pixel :: nat
  pd_reset_active_high :: bool

section \<open>Operations\<close>

text \<open>
  \<open>esp_lcd_new_panel_nv3007\<close>. The arguments \<open>io\<close> and \<open>ret_panel\<close> matter only by being null; \<open>room\<close> is whether
  \<open>calloc\<close> finds memory. The state is the number of allocated panels and the calls made.
\<close>

definition nv_err :: "panel_dev_config \<Rightarrow> esp_err \<Rightarrow> nat \<Rightarrow> bus_call list \<Rightarrow>
  esp_err \<times> nv3007_panel option \<times> nat \<times> bus_call list" where
  "nv_err cfg ret allocated tr =
     (ret, None, allocated - 1,
      if 0 \<le> pd_reset_gpio_num cfg then post (Gpio_reset_pin (pd_reset_gpio_num cfg)) tr else tr)"

definition esp_lcd_new_panel_nv3007 ::
  "bus_env \<Rightarrow> bool \<Rightarrow> bool \<Rightarrow> panel_dev_config option \<Rightarrow> bool \<Rightarrow> nat \<Rightarrow> bus_call list \<Rightarrow>
     esp_err \<times> nv3007_panel option \<times> nat \<times> bus_call list" where
  "esp_lcd_new_panel_nv3007 env room io panel_dev_config ret_panel allocated tr =
     (case panel_dev_config of
        None \<Rightarrow> (ESP_ERR_INVALID_ARG, None, allocated, tr)
      | Some cfg \<Rightarrow>
          if \<not> (io \<and> ret_panel) then (ESP_ERR_INVALID_ARG, None, allocated, tr)
          else if pd_rgb_ele_order cfg \<noteq> LCD_RGB_ELEMENT_ORDER_RGB
          then (ESP_ERR_NOT_SUPPORTED, None, allocated, tr)
          else if pd_data_endian cfg \<noteq> LCD_RGB_DATA_ENDIAN_BIG
          then (ESP_ERR_NOT_SUPPORTED, None, allocated, tr)
          else if pd_bits_per_pixel cfg \<noteq> 16 then (ESP_ERR_NOT_SUPPORTED, None, allocated, tr)
          else if \<not> room then (ESP_ERR_NO_MEM, None, allocated, tr)
          else
            let allocated = allocated + 1;
                (ret, tr) = (if 0 \<le> pd_reset_gpio_num cfg
                             then send env (Gpio_config_output (pd_reset_gpio_num cfg)) tr else (ESP_OK, tr)) in
            if ret \<noteq> ESP_OK then nv_err cfg ret allocated tr
            else (ESP_OK, Some \<lparr>nv_reset_gpio_num = pd_reset_gpio_num cfg,
                    nv_reset_level = pd_reset_active_high cfg, nv_x_gap = 0, nv_y_gap = 0,
                    nv_madctl_val = 0\<rparr>, allocated, tr))"

definition panel_nv3007_del :: "nv3007_panel \<Rightarrow> nat \<Rightarrow> bus_call list \<Rightarrow> esp_err \<times> nat \<times> bus_call list" where
  "panel_nv3007_del p allocated tr =
     (ESP_OK, allocated - 1,
      if 0 \<le> nv_reset_gpio_num p then post (Gpio_reset_pin (nv_reset_gpio_num p)) tr else tr)"

definition panel_nv3007_reset :: "bus_env \<Rightarrow> nv3007_panel \<Rightarrow> bus_call list \<Rightarrow> esp_err \<times> bus_call list" where
  "panel_nv3007_reset env p tr =
     (if 0 \<le> nv_reset_gpio_num p then
        let tr = post (Gpio_set_level (nv_reset_gpio_num p) (nv_reset_level p)) tr;
            tr = post (Task_delay 100) tr;
            tr = post (Gpio_set_level (nv_reset_gpio_num p) (\<not> nv_reset_level p)) tr;
            tr = post (Task_delay 120) tr in
        (ESP_OK, tr)
      else and_then (send env (Tx_param LCD_CMD_SWRESET []) tr) (\<lambda>tr. (ESP_OK, post (Task_delay 120) tr)))"

text \<open>The loop over the sequence; no data is sent as \<open>NULL\<close>, which is the empty list here.\<close>

fun nv_send_seq :: "bus_env \<Rightarrow> nv3007_init_cmd list \<Rightarrow> bus_call list \<Rightarrow> esp_err \<times> bus_call list" where
  "nv_send_seq env [] tr = (ESP_OK, tr)"
| "nv_send_seq env (e # es) tr =
     and_then (send env (Tx_param (ic_cmd e) (take (ic_data_bytes e) (ic_data e))) tr) (\<lambda>tr.
       let tr = (if 0 < ic_delay_ms e then post (Task_delay (ic_delay_ms e)) tr else tr)
       in nv_send_seq env es tr)"

definition panel_nv3007_init :: "bus_env \<Rightarrow> nv3007_panel \<Rightarrow> bus_call list \<Rightarrow> esp_err \<times> bus_call list" where
  "panel_nv3007_init env p tr =
     and_then (send env (Tx_param LCD_CMD_MADCTL [nv_madctl_val p]) tr) (nv_send_seq env LCD_INIT_SEQ)"

text \<open>\<open>(v >> 8) & 0xff\<close> and \<open>v & 0xff\<close>, stored in a \<open>uint8_t\<close>.\<close>

definition be16 :: "int \<Rightarrow> bytes" where
  "be16 v = [word_of_int (drop_bit 8 v AND 0xff), word_of_int (v AND 0xff)]"

text \<open>The value of an expression of type \<open>int\<close>, \<open>None\<close> on overflow; and \<open>ESP_RETURN_ON_ERROR\<close> before code that may overflow.\<close>

definition c_int :: "int \<Rightarrow> int option" where
  "c_int v = (if - 2147483648 \<le> v \<and> v < 2147483648 then Some v else None)"

definition return_on_error ::
  "esp_err \<times> bus_call list \<Rightarrow> (bus_call list \<Rightarrow> (esp_err \<times> bus_call list) option) \<Rightarrow> (esp_err \<times> bus_call list) option" where
  "return_on_error r k = (case r of (ret, tr) \<Rightarrow> if ret \<noteq> ESP_OK then Some (ret, tr) else k tr)"

definition panel_nv3007_draw_bitmap ::
  "bus_env \<Rightarrow> nv3007_panel \<Rightarrow> int \<Rightarrow> int \<Rightarrow> int \<Rightarrow> int \<Rightarrow> bus_call list \<Rightarrow> (esp_err \<times> bus_call list) option" where
  "panel_nv3007_draw_bitmap env p x_start y_start x_end y_end tr = do {
     x_start \<leftarrow> c_int (x_start + nv_x_gap p);
     x_end \<leftarrow> c_int (x_end + nv_x_gap p);
     y_start \<leftarrow> c_int (y_start + nv_y_gap p);
     y_end \<leftarrow> c_int (y_end + nv_y_gap p);
     x_last \<leftarrow> c_int (x_end - 1);
     return_on_error (send env (Tx_param LCD_CMD_CASET (be16 x_start @ be16 x_last)) tr) (\<lambda>tr. do {
       y_last \<leftarrow> c_int (y_end - 1);
       return_on_error (send env (Tx_param LCD_CMD_RASET (be16 y_start @ be16 y_last)) tr) (\<lambda>tr. do {
         width \<leftarrow> c_int (x_end - x_start);
         height \<leftarrow> c_int (y_end - y_start);
         pixels \<leftarrow> c_int (width * height);
         len \<leftarrow> c_int (pixels * 2);
         Some (send env (Tx_color LCD_CMD_RAMWR (word_of_int len)) tr)
       })
     })
   }"

definition set_bit_if :: "bool \<Rightarrow> u8 \<Rightarrow> u8 \<Rightarrow> u8" where
  "set_bit_if on m v = (if on then v OR m else v AND NOT m)"

definition panel_nv3007_mirror ::
  "bus_env \<Rightarrow> bool \<Rightarrow> bool \<Rightarrow> nv3007_panel \<Rightarrow> bus_call list \<Rightarrow> esp_err \<times> nv3007_panel \<times> bus_call list" where
  "panel_nv3007_mirror env mirror_x mirror_y p tr =
     (let v = set_bit_if mirror_y LCD_CMD_MY_BIT (set_bit_if mirror_x LCD_CMD_MX_BIT (nv_madctl_val p));
          (ret, tr) = send env (Tx_param LCD_CMD_MADCTL [v]) tr
      in (ret, p\<lparr>nv_madctl_val := v\<rparr>, tr))"

definition panel_nv3007_swap_xy ::
  "bus_env \<Rightarrow> bool \<Rightarrow> nv3007_panel \<Rightarrow> bus_call list \<Rightarrow> esp_err \<times> nv3007_panel \<times> bus_call list" where
  "panel_nv3007_swap_xy env swap_axes p tr =
     (let v = set_bit_if swap_axes LCD_CMD_MV_BIT (nv_madctl_val p);
          (ret, tr) = send env (Tx_param LCD_CMD_MADCTL [v]) tr
      in (ret, p\<lparr>nv_madctl_val := v\<rparr>, tr))"

definition panel_nv3007_set_gap ::
  "int \<Rightarrow> int \<Rightarrow> nv3007_panel \<Rightarrow> bus_call list \<Rightarrow> esp_err \<times> nv3007_panel \<times> bus_call list" where
  "panel_nv3007_set_gap x_gap y_gap p tr = (ESP_OK, p\<lparr>nv_x_gap := x_gap, nv_y_gap := y_gap\<rparr>, tr)"

definition panel_nv3007_disp_on_off :: "bus_env \<Rightarrow> bool \<Rightarrow> bus_call list \<Rightarrow> esp_err \<times> bus_call list" where
  "panel_nv3007_disp_on_off env on_off tr =
     send env (Tx_param (if on_off then LCD_CMD_DISPON else LCD_CMD_DISPOFF) []) tr"

section \<open>The init sequence\<close>

definition entry_script :: "nv3007_init_cmd \<Rightarrow> script" where
  "entry_script e = (True, Tx_param (ic_cmd e) (take (ic_data_bytes e) (ic_data e))) #
     (if 0 < ic_delay_ms e then [(False, Task_delay (ic_delay_ms e))] else [])"

definition nv_init_script :: "u8 \<Rightarrow> script" where
  "nv_init_script madctl = (True, Tx_param LCD_CMD_MADCTL [madctl]) # concat (map entry_script LCD_INIT_SEQ)"

lemma nv_send_seq_play: "nv_send_seq env es tr = play env (concat (map entry_script es)) tr"
proof (induction es arbitrary: tr)
  case Nil
  then show ?case by simp
next
  case (Cons e es)
  then show ?case
    by (simp add: entry_script_def play_checked play_unchecked post_def and_then_def check_def send_def)
qed

lemma panel_nv3007_init_play: "panel_nv3007_init env p tr = play env (nv_init_script (nv_madctl_val p)) tr"
proof -
  have "nv_send_seq env LCD_INIT_SEQ = play env (concat (map entry_script LCD_INIT_SEQ))"
    by (rule ext) (rule nv_send_seq_play)
  then show ?thesis by (simp only: panel_nv3007_init_def nv_init_script_def play_checked)
qed

text \<open>No entry reads past its data: the table is well formed.\<close>

lemma LCD_INIT_SEQ_fits: "list_all (\<lambda>e. length (ic_data e) = 4 \<and> ic_data_bytes e \<le> 4) LCD_INIT_SEQ"
  by (simp add: LCD_INIT_SEQ_def entry_def)

section \<open>Windows\<close>

text \<open>How the controller reads the four bytes of \<open>CASET\<close> and \<open>RASET\<close>: first and last line, big endian.\<close>

fun decode_pair :: "bytes \<Rightarrow> nat \<times> nat" where
  "decode_pair [a, b, c, d] = (unat a * 256 + unat b, unat c * 256 + unat d)"
| "decode_pair _ = (0, 0)"

lemma and_0xff: "(x :: int) AND 0xff = x mod 256"
proof -
  have "x AND 0xff = x AND mask 8" by (simp add: mask_eq_exp_minus_1)
  also have "\<dots> = x mod 256" by (simp only: take_bit_eq_mask [symmetric] take_bit_eq_mod) simp
  finally show ?thesis .
qed

lemma unat_u8_of_int: "0 \<le> v \<Longrightarrow> v < 256 \<Longrightarrow> int (unat (word_of_int v :: u8)) = v"
  by (simp add: uint_word_of_int)

lemma unat_u32_of_int: "0 \<le> v \<Longrightarrow> v < 4294967296 \<Longrightarrow> int (unat (word_of_int v :: u32)) = v"
  by (simp add: uint_word_of_int)

lemma be16_decode:
  assumes "0 \<le> v" and "v < 65536"
  shows "\<exists>a b. be16 v = [a, b] \<and> int (unat a * 256 + unat b) = v"
proof -
  have "drop_bit 8 v AND 0xff = v div 256" "v AND 0xff = v mod 256"
    using assms by (simp_all add: and_0xff drop_bit_eq_div)
  moreover have "int (unat (word_of_int (v div 256) :: u8)) = v div 256"
    "int (unat (word_of_int (v mod 256) :: u8)) = v mod 256"
    using assms by (intro unat_u8_of_int; simp)+
  ultimately show ?thesis by (simp add: be16_def)
qed

lemma decode_be16:
  assumes "0 \<le> a" and "a < b" and "b \<le> 65536"
  shows "decode_pair (be16 a @ be16 (b - 1)) = (nat a, nat b - 1)"
proof -
  obtain p q where a: "be16 a = [p, q]" "int (unat p * 256 + unat q) = a"
    using be16_decode [of a] assms by auto
  obtain r s where b: "be16 (b - 1) = [r, s]" "int (unat r * 256 + unat s) = b - 1"
    using be16_decode [of "b - 1"] assms by auto
  have "unat p * 256 + unat q = nat a" using a(2) by (metis nat_int)
  moreover have "unat r * 256 + unat s = nat b - 1"
  proof -
    have "nat (b - 1) = nat b - 1" using assms by linarith
    then show ?thesis using b(2) by (metis nat_int)
  qed
  ultimately show ?thesis by (simp add: a(1) b(1))
qed

section \<open>Orientation\<close>

text \<open>The requests that change the panel's orientation or offset.\<close>

datatype nv_op = Op_mirror bool bool | Op_swap_xy bool | Op_set_gap int int

fun nv_op_step :: "bus_env \<Rightarrow> nv_op \<Rightarrow> nv3007_panel \<times> bus_call list \<Rightarrow> nv3007_panel \<times> bus_call list" where
  "nv_op_step env (Op_mirror x y) (p, tr) = snd (panel_nv3007_mirror env x y p tr)"
| "nv_op_step env (Op_swap_xy s) (p, tr) = snd (panel_nv3007_swap_xy env s p tr)"
| "nv_op_step env (Op_set_gap x y) (p, tr) = snd (panel_nv3007_set_gap x y p tr)"

text \<open>What was asked for: mirrored in x, mirrored in y, axes swapped.\<close>

fun asked_step :: "nv_op \<Rightarrow> bool \<times> bool \<times> bool \<Rightarrow> bool \<times> bool \<times> bool" where
  "asked_step (Op_mirror x y) (mx, my, mv) = (x, y, mv)"
| "asked_step (Op_swap_xy s) (mx, my, mv) = (mx, my, s)"
| "asked_step (Op_set_gap x y) o3 = o3"

text \<open>The controller's reading of a \<open>MADCTL\<close> value.\<close>

definition orientation_of :: "u8 \<Rightarrow> bool \<times> bool \<times> bool" where
  "orientation_of v = (bit v 6, bit v 7, bit v 5)"

fun last_madctl :: "bus_call list \<Rightarrow> u8 \<Rightarrow> u8" where
  "last_madctl [] v = v"
| "last_madctl (c # cs) v = (case c of
     Tx_param cmd [b] \<Rightarrow> last_madctl cs (if cmd = LCD_CMD_MADCTL then b else v)
   | _ \<Rightarrow> last_madctl cs v)"

lemma last_madctl_append: "last_madctl (a @ b) v = last_madctl b (last_madctl a v)"
  by (induction a arbitrary: v) (simp_all split: bus_call.split list.split)

lemma set_bit_if_bit:
  "n < 8 \<Longrightarrow> m < 8 \<Longrightarrow> bit (set_bit_if on (push_bit m 1) v) n = (if n = m then on else bit v n)"
  by (auto simp: set_bit_if_def bit_simps)

lemmas set_bit_masks =
  set_bit_if_bit [of _ 5, simplified] set_bit_if_bit [of _ 6, simplified] set_bit_if_bit [of _ 7, simplified]

lemma set_bit_if_bits:
  "orientation_of (set_bit_if b LCD_CMD_MX_BIT v) = (b, snd (orientation_of v))"
  "orientation_of (set_bit_if b LCD_CMD_MY_BIT v) = (fst (orientation_of v), b, snd (snd (orientation_of v)))"
  "orientation_of (set_bit_if b LCD_CMD_MV_BIT v) = (fst (orientation_of v), fst (snd (orientation_of v)), b)"
  by (simp_all add: orientation_of_def madctl_bits set_bit_masks)

lemma nv_op_step_asked:
  assumes "orientation_of (nv_madctl_val p) = o3" and "last_madctl tr v0 = nv_madctl_val p"
  shows "orientation_of (nv_madctl_val (fst (nv_op_step env c (p, tr)))) = asked_step c o3 \<and>
    last_madctl (snd (nv_op_step env c (p, tr))) v0 = nv_madctl_val (fst (nv_op_step env c (p, tr)))"
  using assms
  by (cases c; cases o3)
    (simp_all add: panel_nv3007_mirror_def panel_nv3007_swap_xy_def panel_nv3007_set_gap_def send_def
      set_bit_if_bits last_madctl_append Let_def)

lemma nv_ops_asked:
  assumes "orientation_of (nv_madctl_val p) = o3" and "last_madctl tr v0 = nv_madctl_val p"
  shows "orientation_of (nv_madctl_val (fst (fold (nv_op_step env) cs (p, tr)))) = fold asked_step cs o3 \<and>
    last_madctl (snd (fold (nv_op_step env) cs (p, tr))) v0 =
      nv_madctl_val (fst (fold (nv_op_step env) cs (p, tr)))"
  using assms
proof (induction cs arbitrary: p tr o3)
  case (Cons c cs)
  obtain p' tr' where st: "nv_op_step env c (p, tr) = (p', tr')" by fastforce
  with nv_op_step_asked [OF Cons.prems, of env c] Cons.IH [of p' "asked_step c o3" tr'] show ?case
    by simp
qed simp

lemma c_int_Some: "- 2147483648 \<le> v \<Longrightarrow> v < 2147483648 \<Longrightarrow> c_int v = Some v"
  by (simp add: c_int_def)

text \<open>
  The window of a bitmap: the columns and rows the controller decodes, and the length of the data.
\<close>

definition drawn_at :: "int \<Rightarrow> int \<Rightarrow> int \<Rightarrow> int \<Rightarrow> bus_call list \<Rightarrow> bool" where
  "drawn_at x0 y0 x1 y1 cs \<longleftrightarrow>
     (\<exists>cb rb len. cs = [Tx_param LCD_CMD_CASET cb, Tx_param LCD_CMD_RASET rb, Tx_color LCD_CMD_RAMWR len] \<and>
        decode_pair cb = (nat x0, nat x1 - 1) \<and> decode_pair rb = (nat y0, nat y1 - 1) \<and>
        int (unat len) = (x1 - x0) * (y1 - y0) * 2)"

lemma draw_window:
  assumes x: "0 \<le> x0 + nv_x_gap p" "x0 < x1" "x1 + nv_x_gap p \<le> 65536"
    and y: "0 \<le> y0 + nv_y_gap p" "y0 < y1" "y1 + nv_y_gap p \<le> 65536"
    and len: "(x1 - x0) * (y1 - y0) * 2 < 2147483648"
  shows "\<exists>ret cs. panel_nv3007_draw_bitmap env p x0 y0 x1 y1 tr = Some (ret, tr @ cs) \<and>
    (ret = ESP_OK \<longrightarrow> drawn_at (x0 + nv_x_gap p) (y0 + nv_y_gap p) (x1 + nv_x_gap p) (y1 + nv_y_gap p) cs)"
proof -
  let ?x0 = "x0 + nv_x_gap p" and ?x1 = "x1 + nv_x_gap p" and ?y0 = "y0 + nv_y_gap p" and ?y1 = "y1 + nv_y_gap p"
  let ?n = "(x1 - x0) * (y1 - y0) * 2"
  have "0 \<le> (x1 - x0) * (y1 - y0)" using x(2) y(2) by simp
  then have n: "0 \<le> ?n" "(x1 - x0) * (y1 - y0) < 2147483648" using len by linarith+
  note ints = c_int_Some [of ?x0] c_int_Some [of ?x1] c_int_Some [of ?y0] c_int_Some [of ?y1] c_int_Some [of "?x1 - 1"]
    c_int_Some [of "?y1 - 1"] c_int_Some [of "x1 - x0"] c_int_Some [of "y1 - y0"] c_int_Some [of "(x1 - x0) * (y1 - y0)"]
    c_int_Some [of ?n]
  have d: "panel_nv3007_draw_bitmap env p x0 y0 x1 y1 tr =
      return_on_error (send env (Tx_param LCD_CMD_CASET (be16 ?x0 @ be16 (?x1 - 1))) tr) (\<lambda>tr.
      return_on_error (send env (Tx_param LCD_CMD_RASET (be16 ?y0 @ be16 (?y1 - 1))) tr) (\<lambda>tr.
        Some (send env (Tx_color LCD_CMD_RAMWR (word_of_int ?n)) tr)))"
    using ints x y len n by (simp add: panel_nv3007_draw_bitmap_def)
  have "int (unat (word_of_int ?n :: u32)) = (?x1 - ?x0) * (?y1 - ?y0) * 2"
    using unat_u32_of_int [OF n(1)] len by simp
  then have "drawn_at ?x0 ?y0 ?x1 ?y1 [Tx_param LCD_CMD_CASET (be16 ?x0 @ be16 (?x1 - 1)),
      Tx_param LCD_CMD_RASET (be16 ?y0 @ be16 (?y1 - 1)), Tx_color LCD_CMD_RAMWR (word_of_int ?n)]"
    using decode_be16 [of ?x0 ?x1] decode_be16 [of ?y0 ?y1] x y by (simp add: drawn_at_def)
  then show ?thesis by (simp add: d return_on_error_def send_def)
qed

section \<open>Properties\<close>

text \<open>
  C23: A bitmap is drawn where it was asked for. For a rectangle that is not empty, lies in the controller's 16-bit line
  numbers after the panel's gap is added, and has less than \<open>2 ^ 31\<close> bytes, no computation of the driver overflows; when
  the transfers succeed, the column and row windows the controller decodes are exactly the rectangle moved by the gap,
  end points exclusive, and the number of bytes sent is two per pixel of that window.
\<close>

theorem draw_bitmap_window:
  assumes "0 \<le> x0 + nv_x_gap p" and "x0 < x1" and "x1 + nv_x_gap p \<le> 65536"
    and "0 \<le> y0 + nv_y_gap p" and "y0 < y1" and "y1 + nv_y_gap p \<le> 65536"
    and "(x1 - x0) * (y1 - y0) * 2 < 2147483648"
  shows "\<exists>ret cs. panel_nv3007_draw_bitmap env p x0 y0 x1 y1 tr = Some (ret, tr @ cs) \<and>
    (ret = ESP_OK \<longrightarrow> drawn_at (x0 + nv_x_gap p) (y0 + nv_y_gap p) (x1 + nv_x_gap p) (y1 + nv_y_gap p) cs)"
  using assms by (rule draw_window)

definition sample_panel :: nv3007_panel where
  "sample_panel = \<lparr>nv_reset_gpio_num = 4, nv_reset_level = False, nv_x_gap = 0, nv_y_gap = 14, nv_madctl_val = 0x60\<rparr>"

theorem draw_bitmap_window_witness:
  "\<exists>cs. panel_nv3007_draw_bitmap (\<lambda>_ _. ESP_OK) sample_panel 0 0 428 142 [] = Some (ESP_OK, cs) \<and> drawn_at 0 14 428 156 cs"
proof -
  have gaps: "nv_x_gap sample_panel = 0" "nv_y_gap sample_panel = 14" by (simp_all add: sample_panel_def)
  obtain cs where d: "panel_nv3007_draw_bitmap (\<lambda>_ _. ESP_OK) sample_panel 0 0 428 142 [] = Some (ESP_OK, cs)"
    by (simp add: panel_nv3007_draw_bitmap_def send_def return_on_error_def c_int_def gaps)
  have "\<exists>ret cs. panel_nv3007_draw_bitmap (\<lambda>_ _. ESP_OK) sample_panel 0 0 428 142 [] = Some (ret, [] @ cs) \<and>
    (ret = ESP_OK \<longrightarrow> drawn_at (0 + nv_x_gap sample_panel) (0 + nv_y_gap sample_panel)
       (428 + nv_x_gap sample_panel) (142 + nv_y_gap sample_panel) cs)"
    by (rule draw_bitmap_window) (simp_all add: gaps)
  with d gaps show ?thesis by simp
qed

text \<open>A window of \<open>2 ^ 31\<close> bytes is too much: its length overflows before it is converted to \<open>size_t\<close>.\<close>

theorem length_overflows:
  "panel_nv3007_draw_bitmap (\<lambda>_ _. ESP_OK) (sample_panel\<lparr>nv_y_gap := 0\<rparr>) 0 0 32768 32768 [] = None"
  by (simp add: panel_nv3007_draw_bitmap_def send_def return_on_error_def c_int_def sample_panel_def)

text \<open>
  The orientation bits follow the requests: after any sequence of mirror, swap and gap requests on a new panel, the
  driver's \<open>MADCTL\<close> value decodes to the last mirror and swap requests, one never disturbing the
  other, and it is the value last put on the bus.
\<close>

theorem orientation_follows_requests:
  assumes "nv_madctl_val p = 0"
  shows "orientation_of (nv_madctl_val (fst (fold (nv_op_step env) cs (p, [])))) =
      fold asked_step cs (False, False, False) \<and>
    last_madctl (snd (fold (nv_op_step env) cs (p, []))) 0 =
      nv_madctl_val (fst (fold (nv_op_step env) cs (p, [])))"
  by (rule nv_ops_asked) (simp_all add: assms orientation_of_def)

theorem orientation_follows_requests_witness:
  "orientation_of (nv_madctl_val (fst (fold (nv_op_step (\<lambda>_ _. ESP_OK))
      [Op_swap_xy True, Op_mirror True False] (sample_panel\<lparr>nv_madctl_val := 0\<rparr>, [])))) = (True, False, True)"
  using orientation_follows_requests [of "sample_panel\<lparr>nv_madctl_val := 0\<rparr>" "\<lambda>_ _. ESP_OK"
      "[Op_swap_xy True, Op_mirror True False]"] by simp

text \<open>
  Creating a panel fails with the documented code and leaks nothing: \<open>ESP_ERR_INVALID_ARG\<close> for a null argument,
  \<open>ESP_ERR_NOT_SUPPORTED\<close> for another pixel format, \<open>ESP_ERR_NO_MEM\<close> without memory, the GPIO driver's code if
  the reset pin cannot be set up; in all these cases no panel stays allocated and a reset pin that was
  touched has been reset. Otherwise exactly one panel is allocated, and returned.
\<close>

theorem new_panel_outcome:
  "case esp_lcd_new_panel_nv3007 env room io cfg ret_panel allocated tr of (ret, p, allocated', tr') \<Rightarrow>
     (ret = ESP_OK \<longleftrightarrow> p \<noteq> None) \<and>
     allocated' = allocated + (if ret = ESP_OK then 1 else 0) \<and>
     (\<not> io \<or> cfg = None \<or> \<not> ret_panel \<longleftrightarrow> ret = ESP_ERR_INVALID_ARG \<and> tr' = tr) \<and>
     (\<forall>c. cfg = Some c \<and> io \<and> ret_panel \<longrightarrow>
        (if pd_rgb_ele_order c \<noteq> LCD_RGB_ELEMENT_ORDER_RGB \<or> pd_data_endian c \<noteq> LCD_RGB_DATA_ENDIAN_BIG \<or>
            pd_bits_per_pixel c \<noteq> 16
         then ret = ESP_ERR_NOT_SUPPORTED \<and> tr' = tr
         else if \<not> room then ret = ESP_ERR_NO_MEM \<and> tr' = tr
         else if pd_reset_gpio_num c < 0 then ret = ESP_OK \<and> tr' = tr
         else let cf = Gpio_config_output (pd_reset_gpio_num c) in
           ret = env tr cf \<and>
           tr' = tr @ cf # (if ret = ESP_OK then [] else [Gpio_reset_pin (pd_reset_gpio_num c)])))"
  by (cases cfg) (auto simp: esp_lcd_new_panel_nv3007_def nv_err_def send_def post_def Let_def)

theorem new_panel_outcome_witness:
  "let cfg = \<lparr>pd_reset_gpio_num = 4, pd_rgb_ele_order = LCD_RGB_ELEMENT_ORDER_RGB,
      pd_data_endian = LCD_RGB_DATA_ENDIAN_BIG, pd_bits_per_pixel = 16, pd_reset_active_high = False\<rparr> in
   case esp_lcd_new_panel_nv3007 (\<lambda>_ _. ESP_FAIL) True True (Some cfg) True 0 [] of
     (ret, p, allocated', tr') \<Rightarrow> ret = ESP_FAIL \<and> p = None \<and> allocated' = 0 \<and>
       tr' = [Gpio_config_output 4, Gpio_reset_pin 4]"
  using new_panel_outcome [where env = "\<lambda>_ _. ESP_FAIL" and room = True and io = True and
      cfg = "Some \<lparr>pd_reset_gpio_num = 4, pd_rgb_ele_order = LCD_RGB_ELEMENT_ORDER_RGB,
        pd_data_endian = LCD_RGB_DATA_ENDIAN_BIG, pd_bits_per_pixel = 16, pd_reset_active_high = False\<rparr>"
      and ret_panel = True and allocated = 0 and tr = "[]"]
  by (auto simp: Let_def split: prod.splits)

end
