(* ===== verification/Lcd_Panels.thy ===== *)
theory Lcd_Panels
  imports Nv3007 Ui_Screens
begin

text \<open>
  \<open>main/driver/lcd\<close>: the panels \<open>nfp114h_panel\<close>, \<open>lhs154kc_panel\<close> and \<open>nt279vj_panel\<close>, which implement the abstract class
  \<open>disp_panel_if\<close>, and \<open>display_manager\<close>, which picks a panel and a composer by the build
  configuration. The ST7789 driver of the first two is part of ESP-IDF and stays on the bus; the third
  runs on the NV3007 driver of \<open>Nv3007\<close>.
\<close>

section \<open>Board and bus\<close>

text \<open>The pins of the build configuration, and the option \<open>CONFIG_SI_DISP_SLOW_CLK\<close>.\<close>

record board =
  bd_bkl :: int
  bd_cs :: int
  bd_dc :: int
  bd_mosi :: int
  bd_rst :: int
  bd_sclk :: int
  bd_slow_clk :: bool

text \<open>The chain \<open>ret = ret ?: f(); ret = ret ?: g(); ...\<close> of driver calls.\<close>

fun sends :: "bus_env \<Rightarrow> bus_call list \<Rightarrow> bus_call list \<Rightarrow> esp_err \<times> bus_call list" where
  "sends env [] tr = (ESP_OK, tr)"
| "sends env (c # cs) tr = and_then (send env c tr) (sends env cs)"

text \<open>The common first part of the three \<open>init\<close> functions: pins, SPI bus, panel IO.\<close>

definition panel_bus_init :: "bus_env \<Rightarrow> board \<Rightarrow> bus_call list \<Rightarrow> esp_err \<times> bus_call list" where
  "panel_bus_init env bd tr =
     and_then (sends env [Gpio_config_output (bd_bkl bd), Gpio_set_level (bd_bkl bd) False,
       Gpio_reset_pin (bd_cs bd), Gpio_reset_pin (bd_dc bd), Gpio_reset_pin (bd_mosi bd),
       Gpio_reset_pin (bd_rst bd), Gpio_reset_pin (bd_sclk bd)] tr) (\<lambda>tr.
     and_then (send env (Spi_bus_initialize (bd_sclk bd) (bd_mosi bd)) tr) (\<lambda>tr.
     send env (New_panel_io_spi (bd_cs bd) (bd_dc bd) (if bd_slow_clk bd then 8000000 else 40000000)) tr))"

definition set_backlight :: "board \<Rightarrow> u8 \<Rightarrow> bus_call list \<Rightarrow> esp_err \<times> bus_call list" where
  "set_backlight bd level tr = (ESP_OK, post (Gpio_set_level (bd_bkl bd) (\<not> level < 1)) tr)"

text \<open>\<open>lvgl_port_init\<close> and \<open>lvgl_port_add_disp\<close>; a null display is an invalid state.\<close>

definition lvgl_start ::
  "bus_env \<Rightarrow> nat \<Rightarrow> nat \<Rightarrow> bool \<Rightarrow> bool \<Rightarrow> bool \<Rightarrow> bus_call list \<Rightarrow> esp_err \<times> bus_call list" where
  "lvgl_start env hres vres swap_xy mirror_x mirror_y tr =
     and_then (send env Lvgl_port_init tr) (\<lambda>tr.
       check (send env (Lvgl_add_disp hres vres swap_xy mirror_x mirror_y) tr)
         (\<lambda>_ tr. (ESP_ERR_INVALID_STATE, tr)) (Pair ESP_OK))"

section \<open>Init sequences\<close>

text \<open>An entry: a register, sixteen bytes of data, zero where not given, and how many of them to send.\<close>

record lcd_seq =
  sq_reg :: u8
  sq_data :: bytes
  sq_len :: nat

definition seq_entry :: "u8 \<Rightarrow> bytes \<Rightarrow> nat \<Rightarrow> lcd_seq" where
  "seq_entry reg data n = \<lparr>sq_reg = reg, sq_data = take 16 (data @ replicate 16 0), sq_len = n\<rparr>"

definition seq_call :: "lcd_seq \<Rightarrow> bus_call" where
  "seq_call e = Tx_param (sq_reg e) (if 0 < sq_len e then take (sq_len e) (sq_data e) else [])"

definition send_sequence :: "bus_env \<Rightarrow> lcd_seq list \<Rightarrow> bus_call list \<Rightarrow> esp_err \<times> bus_call list" where
  "send_sequence env sq tr = fold (\<lambda>e p. and_then p (send env (seq_call e))) sq (ESP_OK, tr)"

definition NFP114H_SEQ :: "lcd_seq list" where
  "NFP114H_SEQ =
     [seq_entry 0x3a [0x05] 1, seq_entry 0xb2 [0x0c, 0x0c, 0x00, 0x33, 0x33] 5, seq_entry 0xb7 [0x35] 1,
      seq_entry 0xbb [0x19] 1, seq_entry 0xc0 [0x2c] 1, seq_entry 0xc2 [0x01] 1, seq_entry 0xc3 [0x12] 1,
      seq_entry 0xc4 [0x20] 1, seq_entry 0xc6 [0x0f] 1, seq_entry 0xd0 [0xa4, 0xa1] 2,
      seq_entry 0xe0 [0xD0, 0x04, 0x0D, 0x11, 0x13, 0x2B, 0x3F, 0x54, 0x4C, 0x18, 0x0D, 0x0B, 0x1F, 0x23] 14,
      seq_entry 0xe1 [0xD0, 0x04, 0x0C, 0x11, 0x13, 0x2C, 0x3F, 0x44, 0x51, 0x2F, 0x1F, 0x1F, 0x20, 0x23] 14,
      seq_entry 0x21 [] 0, seq_entry 0x29 [] 0]"

definition NFP114H_ALT_SEQ :: "lcd_seq list" where
  "NFP114H_ALT_SEQ =
     [seq_entry 0x3a [0x05] 1, seq_entry 0xb2 [0x0c, 0x0c, 0x00, 0x33, 0x33] 5, seq_entry 0xb7 [0x35] 1,
      seq_entry 0xBB [0x3F] 1, seq_entry 0xC0 [0x2C] 1, seq_entry 0xC2 [0x01] 1, seq_entry 0xC3 [0x0F] 1,
      seq_entry 0xC4 [0x20] 1, seq_entry 0xc6 [0x0f] 1, seq_entry 0xd0 [0xa4, 0xa1] 2,
      seq_entry 0xE0 [0xD0, 0x05, 0x09, 0x09, 0x08, 0x14, 0x28, 0x33, 0x3F, 0x07, 0x13, 0x14, 0x28, 0x30] 15,
      seq_entry 0xE1 [0xD0, 0x05, 0x09, 0x09, 0x08, 0x03, 0x24, 0x32, 0x32, 0x3B, 0x14, 0x13, 0x28, 0x2F] 15,
      seq_entry 0x21 [] 0, seq_entry 0x29 [] 0]"

definition LHS154KC_SEQ :: "lcd_seq list" where
  "LHS154KC_SEQ =
     [seq_entry 0x36 [0x00] 1, seq_entry 0x3A [0x05] 1, seq_entry 0xB2 [0x0C, 0x0C, 0x00, 0x33, 0x33] 5,
      seq_entry 0xB7 [0x35] 1, seq_entry 0xBB [0x32] 1, seq_entry 0xC2 [0x01] 1, seq_entry 0xC3 [0x15] 1,
      seq_entry 0xC4 [0x20] 1, seq_entry 0xC6 [0x0F] 1, seq_entry 0xD0 [0xA4, 0xA1] 2,
      seq_entry 0xE0 [0xD0, 0x08, 0x0E, 0x09, 0x09, 0x05, 0x31, 0x33, 0x48, 0x17, 0x14, 0x15, 0x31, 0x34] 14,
      seq_entry 0xE1 [0xD0, 0x08, 0x0E, 0x09, 0x09, 0x15, 0x31, 0x33, 0x48, 0x17, 0x14, 0x15, 0x31, 0x34] 14,
      seq_entry 0x21 [] 0, seq_entry 0x29 [] 0]"

section \<open>The panels\<close>

definition nfp114h_init :: "bus_env \<Rightarrow> board \<Rightarrow> bool \<Rightarrow> bus_call list \<Rightarrow> esp_err \<times> bus_call list" where
  "nfp114h_init env bd alt tr =
     and_then (panel_bus_init env bd tr) (\<lambda>tr.
     and_then (send env (New_panel_st7789 (bd_rst bd) 16) tr) (\<lambda>tr.
     and_then (set_backlight bd 0 tr) (\<lambda>tr.
     and_then (sends env [St7789 St_reset, St7789 St_init, St7789 (St_disp_on_off True),
       St7789 (St_invert_color True), St7789 (St_swap_xy True), St7789 (St_mirror True False),
       St7789 (St_set_gap 40 53)] tr) (\<lambda>tr.
     and_then (send_sequence env (if alt then NFP114H_ALT_SEQ else NFP114H_SEQ) tr) (\<lambda>tr.
     and_then (set_backlight bd 100 tr) (lvgl_start env 240 135 True True False))))))"

definition lhs154kc_init :: "bus_env \<Rightarrow> board \<Rightarrow> bus_call list \<Rightarrow> esp_err \<times> bus_call list" where
  "lhs154kc_init env bd tr =
     and_then (panel_bus_init env bd tr) (\<lambda>tr.
     and_then (send env (New_panel_st7789 (bd_rst bd) 16) tr) (\<lambda>tr.
     and_then (set_backlight bd 0 tr) (\<lambda>tr.
     and_then (sends env [St7789 St_reset, St7789 St_init] tr) (\<lambda>tr.
     and_then (send_sequence env LHS154KC_SEQ tr) (\<lambda>tr.
     and_then (sends env [St7789 (St_disp_on_off True), St7789 (St_invert_color True)] tr) (\<lambda>tr.
     and_then (set_backlight bd 100 tr) (lvgl_start env 240 240 False False False)))))))"

text \<open>The panel of \<open>nt279vj_panel\<close>, the number of panels allocated, and the calls.\<close>

type_synonym nv_state = "nv3007_panel option \<times> nat \<times> bus_call list"

definition nt279vj_cfg :: "board \<Rightarrow> panel_dev_config" where
  "nt279vj_cfg bd = \<lparr>pd_reset_gpio_num = bd_rst bd, pd_rgb_ele_order = LCD_RGB_ELEMENT_ORDER_RGB,
     pd_data_endian = LCD_RGB_DATA_ENDIAN_BIG, pd_bits_per_pixel = 16, pd_reset_active_high = False\<rparr>"

definition nt279vj_setup ::
  "bus_env \<Rightarrow> board \<Rightarrow> nv3007_panel \<Rightarrow> bus_call list \<Rightarrow> esp_err \<times> nv3007_panel \<times> bus_call list" where
  "nt279vj_setup env bd p tr =
     (case and_then (set_backlight bd 0 tr) (\<lambda>tr.
           and_then (panel_nv3007_reset env p tr) (panel_nv3007_init env p)) of
        (ret, tr) \<Rightarrow>
          if ret \<noteq> ESP_OK then (ret, p, tr)
          else and_then (panel_nv3007_swap_xy env True p tr) (\<lambda>(p, tr).
               and_then (panel_nv3007_mirror env True False p tr) (\<lambda>(p, tr).
               and_then (panel_nv3007_set_gap 0 14 p tr) (\<lambda>(p, tr).
                 case set_backlight bd 100 tr of (ret, tr) \<Rightarrow> (ret, p, tr)))))"

definition nt279vj_init ::
  "bus_env \<Rightarrow> board \<Rightarrow> bool \<Rightarrow> nat \<Rightarrow> bus_call list \<Rightarrow> esp_err \<times> nv_state" where
  "nt279vj_init env bd room allocated tr =
     (case panel_bus_init env bd tr of (ret, tr) \<Rightarrow>
        if ret \<noteq> ESP_OK then (ret, None, allocated, tr)
        else case esp_lcd_new_panel_nv3007 env room True (Some (nt279vj_cfg bd)) True allocated tr of
          (ret, None, allocated, tr) \<Rightarrow> (ret, None, allocated, tr)
        | (ret, Some p, allocated, tr) \<Rightarrow>
            (case nt279vj_setup env bd p tr of (ret, p, tr) \<Rightarrow>
               if ret \<noteq> ESP_OK then (ret, Some p, allocated, tr)
               else case lvgl_start env 428 142 True True False tr of
                 (ret, tr) \<Rightarrow> (ret, Some p, allocated, tr)))"

definition nfp114h_size :: "nat \<times> nat" where "nfp114h_size = (240, 135)"
definition lhs154kc_size :: "nat \<times> nat" where "lhs154kc_size = (240, 240)"
definition nt279vj_size :: "nat \<times> nat" where "nt279vj_size = (428, 142)"

definition panel_deinit :: esp_err where
  "panel_deinit = ESP_ERR_NOT_SUPPORTED"

section \<open>The display manager\<close>

datatype disp_cfg = Disp_off | Panel_NFP190B | Panel_LHS154KC | Panel_NFP114H | Panel_NT279VJ

datatype panel_model = Nfp114h | Nt279vj

datatype composer_model = Composer_noop | Composer_114 | Composer_279

definition dm_panel :: "disp_cfg \<Rightarrow> panel_model option" where
  "dm_panel cfg = (case cfg of
     Panel_NFP114H \<Rightarrow> Some Nfp114h | Panel_NT279VJ \<Rightarrow> Some Nt279vj | _ \<Rightarrow> None)"

definition get_composer :: "disp_cfg \<Rightarrow> composer_model" where
  "get_composer cfg = (case cfg of
     Disp_off \<Rightarrow> Composer_noop | Panel_NT279VJ \<Rightarrow> Composer_279 | _ \<Rightarrow> Composer_114)"

text \<open>\<open>composer.init()\<close> of all three composers returns \<open>ESP_OK\<close> and does nothing else.\<close>

definition display_manager_init ::
  "bus_env \<Rightarrow> board \<Rightarrow> disp_cfg \<Rightarrow> bool \<Rightarrow> bool \<Rightarrow> nat \<Rightarrow> bus_call list \<Rightarrow> esp_err \<times> nv_state" where
  "display_manager_init env bd cfg alt room allocated tr =
     (if cfg = Disp_off then (ESP_OK, None, allocated, tr)
      else case dm_panel cfg of
          None \<Rightarrow> (ESP_OK, None, allocated, tr)
        | Some Nfp114h \<Rightarrow> (case nfp114h_init env bd alt tr of (ret, tr) \<Rightarrow> (ret, None, allocated, tr))
        | Some Nt279vj \<Rightarrow> nt279vj_init env bd room allocated tr)"

section \<open>Inits as scripts\<close>

lemma sends_play: "sends env cs tr = play env (map (Pair True) cs) tr"
proof (induction cs arbitrary: tr)
  case (Cons c cs)
  then have "sends env cs = play env (map (Pair True) cs)" by (intro ext)
  then show ?case by (simp only: sends.simps list.map play_checked)
qed simp

lemma send_sequence_play: "send_sequence env sq tr = play env (map (Pair True \<circ> seq_call) sq) tr"
proof (induction sq rule: rev_induct)
  case (snoc e sq)
  have "send_sequence env (sq @ [e]) tr = and_then (send_sequence env sq tr) (send env (seq_call e))"
    by (simp add: send_sequence_def)
  also have "\<dots> = play env (map (Pair True \<circ> seq_call) (sq @ [e])) tr"
    by (simp only: snoc.IH play_single and_then_play map_append list.map comp_def)
  finally show ?case .
qed (simp add: send_sequence_def)

definition bus_script :: "board \<Rightarrow> script" where
  "bus_script bd = map (Pair True)
     [Gpio_config_output (bd_bkl bd), Gpio_set_level (bd_bkl bd) False, Gpio_reset_pin (bd_cs bd),
      Gpio_reset_pin (bd_dc bd), Gpio_reset_pin (bd_mosi bd), Gpio_reset_pin (bd_rst bd),
      Gpio_reset_pin (bd_sclk bd), Spi_bus_initialize (bd_sclk bd) (bd_mosi bd),
      New_panel_io_spi (bd_cs bd) (bd_dc bd) (if bd_slow_clk bd then 8000000 else 40000000)]"

definition backlight :: "board \<Rightarrow> bool \<Rightarrow> script" where
  "backlight bd on = [(False, Gpio_set_level (bd_bkl bd) on)]"

definition nfp114h_script :: "board \<Rightarrow> bool \<Rightarrow> script" where
  "nfp114h_script bd alt =
     bus_script bd @ [(True, New_panel_st7789 (bd_rst bd) 16)] @ backlight bd False @
     map (Pair True) [St7789 St_reset, St7789 St_init, St7789 (St_disp_on_off True),
       St7789 (St_invert_color True), St7789 (St_swap_xy True), St7789 (St_mirror True False),
       St7789 (St_set_gap 40 53)] @
     map (Pair True \<circ> seq_call) (if alt then NFP114H_ALT_SEQ else NFP114H_SEQ) @ backlight bd True"

definition lhs154kc_script :: "board \<Rightarrow> script" where
  "lhs154kc_script bd =
     bus_script bd @ [(True, New_panel_st7789 (bd_rst bd) 16)] @ backlight bd False @
     map (Pair True) [St7789 St_reset, St7789 St_init] @ map (Pair True \<circ> seq_call) LHS154KC_SEQ @
     map (Pair True) [St7789 (St_disp_on_off True), St7789 (St_invert_color True)] @ backlight bd True"

lemma backlight_play:
  "set_backlight bd 0 = play env (backlight bd False)" "set_backlight bd 100 = play env (backlight bd True)"
  by (simp_all add: fun_eq_iff set_backlight_def backlight_def post_def)

lemma sends_play_fun: "sends env cs = play env (map (Pair True) cs)"
  by (rule ext) (rule sends_play)

lemma send_sequence_play_fun: "send_sequence env sq = play env (map (Pair True \<circ> seq_call) sq)"
  by (rule ext) (rule send_sequence_play)

lemma play_then: "(\<lambda>tr. and_then (play env a tr) (play env b)) = play env (a @ b)"
  by (rule ext) (rule and_then_play)

lemma panel_bus_init_play: "panel_bus_init env bd = play env (bus_script bd)"
proof (rule ext)
  fix tr
  show "panel_bus_init env bd tr = play env (bus_script bd) tr"
    unfolding panel_bus_init_def bus_script_def sends_play_fun play_single and_then_play play_then by simp
qed

lemma and_then_script:
  "and_then (play env a tr) (\<lambda>tr. and_then (play env b tr) k) = and_then (play env (a @ b) tr) k"
  by (simp only: play_append and_then_assoc)

lemma nfp114h_init_play:
  "nfp114h_init env bd alt tr =
     and_then (play env (nfp114h_script bd alt) tr) (lvgl_start env 240 135 True True False)"
  unfolding nfp114h_init_def nfp114h_script_def panel_bus_init_play play_single sends_play_fun
    send_sequence_play_fun backlight_play [where env = env] and_then_script by simp

lemma lhs154kc_init_play:
  "lhs154kc_init env bd tr =
     and_then (play env (lhs154kc_script bd) tr) (lvgl_start env 240 240 False False False)"
  unfolding lhs154kc_init_def lhs154kc_script_def panel_bus_init_play play_single sends_play_fun
    send_sequence_play_fun backlight_play [where env = env] and_then_script by simp

lemma play_OK: "play env sc tr = (ESP_OK, tr') \<Longrightarrow> tr' = tr @ map snd sc"
  by (rule played_OK) (rule play_played)

lemma lvgl_start_OK:
  "lvgl_start env w h s x y tr = (ESP_OK, tr') \<Longrightarrow> tr' = tr @ [Lvgl_port_init, Lvgl_add_disp w h s x y]"
  by (auto simp: lvgl_start_def and_then_OK send_def split: check_splits)

text \<open>The calls \<open>nt279vj_panel\<close> makes on its way to a running display.\<close>

definition nt279vj_calls :: "board \<Rightarrow> bus_call list" where
  "nt279vj_calls bd =
     map snd (bus_script bd) @ (if 0 \<le> bd_rst bd then [Gpio_config_output (bd_rst bd)] else []) @
     [Gpio_set_level (bd_bkl bd) False] @
     (if 0 \<le> bd_rst bd
      then [Gpio_set_level (bd_rst bd) False, Task_delay 100, Gpio_set_level (bd_rst bd) True, Task_delay 120]
      else [Tx_param LCD_CMD_SWRESET [], Task_delay 120]) @
     map snd (nv_init_script 0) @
     [Tx_param LCD_CMD_MADCTL [0x20], Tx_param LCD_CMD_MADCTL [0x60]]"

lemma panel_nv3007_reset_OK:
  "panel_nv3007_reset env p tr = (ESP_OK, tr') \<Longrightarrow> tr' = tr @ (if 0 \<le> nv_reset_gpio_num p
     then [Gpio_set_level (nv_reset_gpio_num p) (nv_reset_level p), Task_delay 100,
       Gpio_set_level (nv_reset_gpio_num p) (\<not> nv_reset_level p), Task_delay 120]
     else [Tx_param LCD_CMD_SWRESET [], Task_delay 120])"
  by (auto simp: panel_nv3007_reset_def Let_def post_def and_then_OK send_def split: if_splits)

lemma orient_OK:
  "panel_nv3007_swap_xy env b p tr = (r, p', tr') \<Longrightarrow>
     p' = p\<lparr>nv_madctl_val := set_bit_if b LCD_CMD_MV_BIT (nv_madctl_val p)\<rparr> \<and>
     tr' = tr @ [Tx_param LCD_CMD_MADCTL [nv_madctl_val p']]"
  "panel_nv3007_mirror env x y p tr = (r, p', tr') \<Longrightarrow>
     p' = p\<lparr>nv_madctl_val := set_bit_if y LCD_CMD_MY_BIT (set_bit_if x LCD_CMD_MX_BIT (nv_madctl_val p))\<rparr> \<and>
     tr' = tr @ [Tx_param LCD_CMD_MADCTL [nv_madctl_val p']]"
  by (auto simp: panel_nv3007_swap_xy_def panel_nv3007_mirror_def send_def Let_def)

lemma nt279vj_setup_OK:
  assumes "nt279vj_setup env bd p tr = (ESP_OK, p', tr')" and "nv_madctl_val p = 0"
  shows "p' = p\<lparr>nv_x_gap := 0, nv_y_gap := 14, nv_madctl_val := 0x60\<rparr> \<and>
    tr' = tr @ [Gpio_set_level (bd_bkl bd) False] @ (if 0 \<le> nv_reset_gpio_num p
     then [Gpio_set_level (nv_reset_gpio_num p) (nv_reset_level p), Task_delay 100,
       Gpio_set_level (nv_reset_gpio_num p) (\<not> nv_reset_level p), Task_delay 120]
     else [Tx_param LCD_CMD_SWRESET [], Task_delay 120]) @ map snd (nv_init_script 0) @
     [Tx_param LCD_CMD_MADCTL [0x20], Tx_param LCD_CMD_MADCTL [0x60], Gpio_set_level (bd_bkl bd) True]"
proof -
  obtain t1 t2 p2 t3 p3 t4 where
    r: "panel_nv3007_reset env p (post (Gpio_set_level (bd_bkl bd) False) tr) = (ESP_OK, t1)"
      "panel_nv3007_init env p t1 = (ESP_OK, t2)"
      "panel_nv3007_swap_xy env True p t2 = (ESP_OK, p2, t3)"
      "panel_nv3007_mirror env True False p2 t3 = (ESP_OK, p3, t4)"
      "p' = p3\<lparr>nv_x_gap := 0, nv_y_gap := 14\<rparr>" "tr' = post (Gpio_set_level (bd_bkl bd) True) t4"
    using assms(1)
    by (auto simp: nt279vj_setup_def set_backlight_def panel_nv3007_set_gap_def and_then_OK
        split: prod.splits if_splits)
  note t1 = panel_nv3007_reset_OK [OF r(1)]
  have t2: "t2 = t1 @ map snd (nv_init_script 0)"
    using r(2) assms(2) by (auto simp: panel_nv3007_init_play dest: play_OK)
  have m1: "nv_madctl_val p2 = 0x20" using orient_OK(1) [OF r(3)] assms(2) by (simp add: set_bit_if_def madctl_bits)
  have m2: "nv_madctl_val p3 = 0x60" using orient_OK(2) [OF r(4)] m1 by (simp add: set_bit_if_def madctl_bits)
  show ?thesis
    using t1 t2 m1 m2 r(5,6) orient_OK(1) [OF r(3)] orient_OK(2) [OF r(4)]
    by (simp add: post_def)
qed

lemma nt279vj_init_OK:
  assumes "nt279vj_init env bd room allocated tr = (ESP_OK, po, allocated', tr')"
  shows "po = Some \<lparr>nv_reset_gpio_num = bd_rst bd, nv_reset_level = False, nv_x_gap = 0, nv_y_gap = 14,
      nv_madctl_val = 0x60\<rparr> \<and> allocated' = allocated + 1 \<and>
    tr' = tr @ nt279vj_calls bd @
      [Gpio_set_level (bd_bkl bd) True, Lvgl_port_init, Lvgl_add_disp 428 142 True True False]"
proof -
  let ?p = "\<lparr>nv_reset_gpio_num = bd_rst bd, nv_reset_level = False, nv_x_gap = 0, nv_y_gap = 0,
    nv_madctl_val = 0\<rparr>"
  obtain t1 where t1: "play env (bus_script bd) tr = (ESP_OK, t1)"
    using assms by (auto simp: nt279vj_init_def panel_bus_init_play split: prod.splits if_splits)
  obtain t2 where t2: "esp_lcd_new_panel_nv3007 env room True (Some (nt279vj_cfg bd)) True allocated t1 =
      (ESP_OK, Some ?p, allocated + 1, t2)"
      "t2 = t1 @ (if 0 \<le> bd_rst bd then [Gpio_config_output (bd_rst bd)] else [])"
    using assms t1
    by (auto simp: nt279vj_init_def panel_bus_init_play esp_lcd_new_panel_nv3007_def nt279vj_cfg_def nv_err_def
        send_def Let_def split: if_splits)
  then obtain p t3 where t3: "nt279vj_setup env bd ?p t2 = (ESP_OK, p, t3)"
      "lvgl_start env 428 142 True True False t3 = (ESP_OK, tr')" "po = Some p" "allocated' = allocated + 1"
    using assms t1 by (auto simp: nt279vj_init_def panel_bus_init_play split: prod.splits if_splits)
  show ?thesis
    using play_OK [OF t1] t2(2) t3(3,4) nt279vj_setup_OK [OF t3(1)] lvgl_start_OK [OF t3(2)]
    by (simp add: nt279vj_calls_def)
qed

section \<open>Lock\<close>

text \<open>\<open>lock\<close> and \<open>unlock\<close> of the three panels hand through to the LVGL port; \<open>got\<close> is its answer.\<close>

definition panel_lock :: "bool \<Rightarrow> nat \<Rightarrow> lv_call list \<Rightarrow> esp_err \<times> lv_call list" where
  "panel_lock got timeout_ms tr = (if got then ESP_OK else ESP_ERR_TIMEOUT, tr @ [Port_lock timeout_ms got])"

definition panel_unlock :: "lv_call list \<Rightarrow> lv_call list" where
  "panel_unlock tr = tr @ [Port_unlock]"

lemma panel_lock_balanced:
  "lock_depth (panel_unlock (snd (panel_lock True ms tr))) = lock_depth tr"
  "fst (panel_lock got ms tr) \<noteq> ESP_OK \<Longrightarrow> lock_depth (snd (panel_lock got ms tr)) = lock_depth tr"
  by (simp_all add: panel_lock_def panel_unlock_def lock_depth_append split: if_splits)

section \<open>The interface of a panel\<close>

text \<open>What the calls so far have made of the display: its resolution once LVGL drives it, and the backlight.\<close>

fun disp_step :: "bus_call \<Rightarrow> (nat \<times> nat) option \<Rightarrow> (nat \<times> nat) option" where
  "disp_step (Lvgl_add_disp w h s x y) d = Some (w, h)"
| "disp_step _ d = d"

definition resolution :: "bus_call list \<Rightarrow> (nat \<times> nat) option" where
  "resolution tr = fold disp_step tr None"

fun pin_step :: "int \<Rightarrow> bus_call \<Rightarrow> bool \<Rightarrow> bool" where
  "pin_step pin (Gpio_set_level q on) lvl = (if q = pin then on else lvl)"
| "pin_step pin _ lvl = lvl"

definition pin_level :: "int \<Rightarrow> bus_call list \<Rightarrow> bool" where
  "pin_level pin tr = fold (pin_step pin) tr False"

locale disp_panel_if =
  fixes init :: "bus_call list \<Rightarrow> esp_err \<times> 's"
    and calls :: "'s \<Rightarrow> bus_call list"
    and bkl :: int
    and dims :: "nat \<times> nat"
  assumes init_ready: "init tr = (ESP_OK, s) \<Longrightarrow>
    \<exists>mid sw mx my. calls s = tr @ mid @
      [Gpio_set_level bkl True, Lvgl_port_init, Lvgl_add_disp (fst dims) (snd dims) sw mx my]"
begin

lemma ready:
  assumes "init tr = (ESP_OK, s)"
  shows "Lvgl_port_init \<in> set (calls s)" and "resolution (calls s) = Some dims" and "pin_level bkl (calls s)"
proof -
  from init_ready [OF assms] obtain mid sw mx my where "calls s = (tr @ mid) @
      [Gpio_set_level bkl True, Lvgl_port_init, Lvgl_add_disp (fst dims) (snd dims) sw mx my]"
    by auto
  then show "Lvgl_port_init \<in> set (calls s)" "resolution (calls s) = Some dims" "pin_level bkl (calls s)"
    by (simp_all add: resolution_def pin_level_def)
qed

end

interpretation nfp: disp_panel_if "nfp114h_init env bd alt" "\<lambda>tr. tr" "bd_bkl bd" nfp114h_size
  for env bd alt
  by unfold_locales
    (auto simp: nfp114h_init_play and_then_OK nfp114h_script_def backlight_def nfp114h_size_def
      dest!: play_OK lvgl_start_OK)

interpretation lhs: disp_panel_if "lhs154kc_init env bd" "\<lambda>tr. tr" "bd_bkl bd" lhs154kc_size
  for env bd
  by unfold_locales
    (auto simp: lhs154kc_init_play and_then_OK lhs154kc_script_def backlight_def lhs154kc_size_def
      dest!: play_OK lvgl_start_OK)

interpretation nt: disp_panel_if "nt279vj_init env bd room allocated" "\<lambda>(p, n, tr). tr" "bd_bkl bd" nt279vj_size
  for env bd room allocated
  by unfold_locales (auto simp: nt279vj_size_def dest!: nt279vj_init_OK)

section \<open>Properties\<close>

text \<open>
  The ST7789 panels' inits run their sequence of driver calls in order up to the first that fails, whose code they
  return without touching the bus again; if none fails, all of it was sent, backlight last, and LVGL is started
  on the panel. Only results of backlight switching are not looked at.
\<close>

theorem panel_init_stops_at_first_error:
  "(\<exists>r t. played env (nfp114h_script bd alt) tr r t \<and>
     nfp114h_init env bd alt tr = (if r = ESP_OK then lvgl_start env 240 135 True True False t else (r, t))) \<and>
   (\<exists>r t. played env (lhs154kc_script bd) tr r t \<and>
     lhs154kc_init env bd tr = (if r = ESP_OK then lvgl_start env 240 240 False False False t else (r, t)))"
proof -
  obtain r t r' t' where "play env (nfp114h_script bd alt) tr = (r, t)" "play env (lhs154kc_script bd) tr = (r', t')"
    by fastforce
  then show ?thesis
    unfolding nfp114h_init_play lhs154kc_init_play
    by (intro conjI exI [of _ r] exI [of _ t] exI [of _ r'] exI [of _ t']) (auto dest!: play_played)
qed

definition composer_class :: "composer_model \<Rightarrow> ui_class option" where
  "composer_class c = (case c of
     Composer_noop \<Rightarrow> None | Composer_114 \<Rightarrow> Some ui_class_114 | Composer_279 \<Rightarrow> Some ui_class_279)"

lemma display_manager_ready:
  assumes "dm_panel cfg \<noteq> None" and "display_manager_init env bd cfg alt room n tr = (ESP_OK, p, n', tr')"
  shows "\<exists>cl. composer_class (get_composer cfg) = Some cl \<and> Lvgl_port_init \<in> set tr' \<and>
    resolution tr' = Some (nat (cl_w cl), nat (cl_h cl)) \<and> pin_level (bd_bkl bd) tr'"
proof (cases cfg)
  case Panel_NFP114H
  then have i: "nfp114h_init env bd alt tr = (ESP_OK, tr')"
    using assms(2) by (simp add: display_manager_init_def dm_panel_def split: prod.splits)
  with Panel_NFP114H show ?thesis
    using nfp.ready [OF i] by (simp add: get_composer_def composer_class_def ui_class_114_def nfp114h_size_def)
next
  case Panel_NT279VJ
  then have i: "nt279vj_init env bd room n tr = (ESP_OK, p, n', tr')"
    using assms(2) by (simp add: display_manager_init_def dm_panel_def)
  with Panel_NT279VJ show ?thesis
    using nt.ready [OF i] by (simp add: get_composer_def composer_class_def ui_class_279_def nt279vj_size_def)
qed (use assms(1) in \<open>simp_all add: dm_panel_def\<close>)

text \<open>
  With a panel configured, a successful start of the display leaves LVGL running at exactly the size that the screens of the
  chosen composer are laid out for, with the backlight on.
\<close>

theorem display_ready:
  assumes "dm_panel cfg \<noteq> None" and "display_manager_init env bd cfg alt room n tr = (ESP_OK, p, n', tr')"
  shows "\<exists>cl. composer_class (get_composer cfg) = Some cl \<and> Lvgl_port_init \<in> set tr' \<and>
    resolution tr' = Some (nat (cl_w cl), nat (cl_h cl)) \<and> pin_level (bd_bkl bd) tr'"
  using assms by (rule display_manager_ready)

definition sample_board :: board where
  "sample_board = \<lparr>bd_bkl = 7, bd_cs = 8, bd_dc = 15, bd_mosi = 5, bd_rst = 4, bd_sclk = 6, bd_slow_clk = False\<rparr>"

lemma play_all_ok: "play (\<lambda>_ _. ESP_OK) sc tr = (ESP_OK, tr @ map snd sc)"
  by (induction sc arbitrary: tr) auto

lemma sample_nt279vj:
  "\<exists>p n' tr'. display_manager_init (\<lambda>_ _. ESP_OK) sample_board Panel_NT279VJ False True 0 [] = (ESP_OK, p, n', tr')"
  by (simp add: display_manager_init_def dm_panel_def nt279vj_init_def panel_bus_init_play play_all_ok
      esp_lcd_new_panel_nv3007_def nt279vj_cfg_def send_def Let_def sample_board_def nt279vj_setup_def
      set_backlight_def panel_nv3007_reset_def panel_nv3007_init_play panel_nv3007_swap_xy_def
      panel_nv3007_mirror_def panel_nv3007_set_gap_def lvgl_start_def)

theorem display_ready_witness:
  "\<exists>p n' tr'. display_manager_init (\<lambda>_ _. ESP_OK) sample_board Panel_NT279VJ False True 0 [] = (ESP_OK, p, n', tr') \<and>
     resolution tr' = Some (428, 142)"
proof -
  obtain p n' tr' where i:
      "display_manager_init (\<lambda>_ _. ESP_OK) sample_board Panel_NT279VJ False True 0 [] = (ESP_OK, p, n', tr')"
    using sample_nt279vj by blast
  from display_ready [OF _ i] have "resolution tr' = Some (428, 142)"
    by (simp add: dm_panel_def get_composer_def composer_class_def ui_class_279_def)
  with i show ?thesis by blast
qed

text \<open>
  The whole screen of the 2.79 inch panel is reachable and nothing beside it: once its start has succeeded, a bitmap inside 428 x 142
  is decoded by the controller as the columns asked for and the rows moved down by the 14 lines the glass
  does not show, that is within columns 0 to 427 and rows 14 to 155.
\<close>

theorem nt279vj_draws_on_glass:
  assumes "nt279vj_init env bd room n tr = (ESP_OK, Some p, n', tr1)"
    and "0 \<le> x0" and "x0 < x1" and "x1 \<le> 428" and "0 \<le> y0" and "y0 < y1" and "y1 \<le> 142"
  shows "orientation_of (nv_madctl_val p) = (True, False, True) \<and>
    (\<exists>ret cs. panel_nv3007_draw_bitmap env p x0 y0 x1 y1 tr1 = Some (ret, tr1 @ cs) \<and>
       (ret = ESP_OK \<longrightarrow> drawn_at x0 (y0 + 14) x1 (y1 + 14) cs))"
proof -
  have p: "nv_x_gap p = 0" "nv_y_gap p = 14" "nv_madctl_val p = 0x60"
    using nt279vj_init_OK [OF assms(1)] by simp_all
  have "(x1 - x0) * (y1 - y0) \<le> 428 * 142"
    using assms(2-7) by (intro mult_mono) auto
  then have small: "(x1 - x0) * (y1 - y0) * 2 < 2147483648" by simp
  have "orientation_of (nv_madctl_val p) = (True, False, True)" by (simp add: p orientation_of_def bit_numeral_rec)
  moreover have "\<exists>ret cs. panel_nv3007_draw_bitmap env p x0 y0 x1 y1 tr1 = Some (ret, tr1 @ cs) \<and>
      (ret = ESP_OK \<longrightarrow> drawn_at (x0 + nv_x_gap p) (y0 + nv_y_gap p) (x1 + nv_x_gap p) (y1 + nv_y_gap p) cs)"
    by (rule draw_window; (subst p)?; use assms(2-7) small in linarith)
  ultimately show ?thesis unfolding p by simp
qed

theorem nt279vj_draws_on_glass_witness:
  "\<exists>p n' tr1 cs. nt279vj_init (\<lambda>_ _. ESP_OK) sample_board True 0 [] = (ESP_OK, Some p, n', tr1) \<and>
     panel_nv3007_draw_bitmap (\<lambda>_ _. ESP_OK) p 10 20 30 40 tr1 = Some (ESP_OK, tr1 @ cs) \<and> drawn_at 10 34 30 54 cs"
proof -
  obtain po n' tr1 where i: "nt279vj_init (\<lambda>_ _. ESP_OK) sample_board True 0 [] = (ESP_OK, po, n', tr1)"
    using sample_nt279vj by (auto simp: display_manager_init_def dm_panel_def)
  obtain p where p: "po = Some p" and gaps: "nv_x_gap p = 0" "nv_y_gap p = 14" using nt279vj_init_OK [OF i] by auto
  have "\<exists>tr2. panel_nv3007_draw_bitmap (\<lambda>_ _. ESP_OK) p 10 20 30 40 tr1 = Some (ESP_OK, tr2)"
    by (simp add: panel_nv3007_draw_bitmap_def send_def return_on_error_def c_int_def gaps)
  with nt279vj_draws_on_glass [OF i [unfolded p], of 10 30 20 40] i p show ?thesis by auto
qed

text \<open>
  A build with the display on but a panel model without a driver in the manager (\<open>LHS154KC\<close>, the default, or \<open>NFP190B\<close>) starts
  without error and without a single driver call, so LVGL is never initialised, and yet hands out the composer that draws
  with LVGL instead of the one that does nothing.
\<close>

theorem panel_without_driver:
  "list_all (\<lambda>cfg. display_manager_init env bd cfg alt room n tr = (ESP_OK, None, n, tr) \<and>
     get_composer cfg = Composer_114) [Panel_LHS154KC, Panel_NFP190B]"
  by (simp add: display_manager_init_def dm_panel_def get_composer_def)

text \<open>
  The alternative sequence of the NFP114H claims fifteen bytes for the two gamma settings but lists
  fourteen, so each is sent with a zero at the end; the other sequences send what they list.
\<close>

lemma alt_gamma_extra_byte:
  "map seq_call (filter (\<lambda>e. sq_reg e = 0xe0 \<or> sq_reg e = 0xe1) NFP114H_ALT_SEQ) =
     [Tx_param 0xe0 [0xD0, 0x05, 0x09, 0x09, 0x08, 0x14, 0x28, 0x33, 0x3F, 0x07, 0x13, 0x14, 0x28, 0x30, 0],
      Tx_param 0xe1 [0xD0, 0x05, 0x09, 0x09, 0x08, 0x03, 0x24, 0x32, 0x32, 0x3B, 0x14, 0x13, 0x28, 0x2F, 0]]"
  by (simp add: NFP114H_ALT_SEQ_def seq_entry_def seq_call_def)

end
