(* ===== verification/Led_Ctrl.thy ===== *)
theory Led_Ctrl
  imports Si_Prelude
begin

text \<open>
  \<open>main/prog/includes/led_ctrl.hpp\<close>: the status LED. The LED strip driver is a parameter that answers each
  call, given the calls before it; with \<open>CONFIG_SI_LED_ENABLE\<close> off every operation is a
  no-op. \<open>shown\<close> is the colour the strip displays: a pixel that was set appears with the next successful
  refresh.
\<close>

datatype led_call = Strip_new int | Set_pixel u8 u8 u8 | Strip_refresh

record led_ctrl =
  lc_led :: bool
  lc_calls :: "led_call list"

type_synonym led_env = "led_call list \<Rightarrow> led_call \<Rightarrow> esp_err"

definition led_send :: "led_env \<Rightarrow> led_call \<Rightarrow> led_ctrl \<Rightarrow> esp_err \<times> led_ctrl" where
  "led_send env c l = (env (lc_calls l) c, l\<lparr>lc_calls := lc_calls l @ [c]\<rparr>)"

definition set_color :: "led_env \<Rightarrow> bool \<Rightarrow> u8 \<Rightarrow> u8 \<Rightarrow> u8 \<Rightarrow> led_ctrl \<Rightarrow> esp_err \<times> led_ctrl" where
  "set_color env enabled r g b l =
     (if \<not> enabled then (ESP_OK, l)
      else if \<not> lc_led l then (ESP_ERR_INVALID_STATE, l)
      else and_then (led_send env (Set_pixel r g b) l) (led_send env Strip_refresh))"

text \<open>\<open>led_strip_new_rmt_device\<close> sets the handle when it succeeds.\<close>

definition led_init :: "led_env \<Rightarrow> bool \<Rightarrow> int \<Rightarrow> led_ctrl \<Rightarrow> esp_err \<times> led_ctrl" where
  "led_init env enabled pin l =
     (if \<not> enabled then (ESP_OK, l)
      else and_then (led_send env (Strip_new pin) l) (\<lambda>l. set_color env enabled 50 0 0 (l\<lparr>lc_led := True\<rparr>)))"

section \<open>What the LED shows\<close>

text \<open>The pixel buffer and the colour on the LED, after the calls with their answers.\<close>

fun led_shown :: "led_env \<Rightarrow> led_call list \<Rightarrow> led_call list \<Rightarrow> (u8 \<times> u8 \<times> u8) option \<times> (u8 \<times> u8 \<times> u8) option \<Rightarrow>
    (u8 \<times> u8 \<times> u8) option \<times> (u8 \<times> u8 \<times> u8) option" where
  "led_shown env tr [] (px, lit) = (px, lit)"
| "led_shown env tr (c # cs) (px, lit) = led_shown env (tr @ [c]) cs
     (case c of
        Strip_new pin \<Rightarrow> (px, lit)
      | Set_pixel r g b \<Rightarrow> (if env tr c = ESP_OK then Some (r, g, b) else px, lit)
      | Strip_refresh \<Rightarrow> (px, if env tr c = ESP_OK then px else lit))"

definition shown :: "led_env \<Rightarrow> led_ctrl \<Rightarrow> (u8 \<times> u8 \<times> u8) option" where
  "shown env l = snd (led_shown env [] (lc_calls l) (None, None))"

lemma led_shown_append: "led_shown env tr (a @ b) s = led_shown env (tr @ a) b (led_shown env tr a s)"
proof (induction a arbitrary: tr s)
  case Nil
  then show ?case by (cases s) simp
next
  case (Cons c a)
  then show ?case by (cases s) simp
qed

lemma set_color_shown:
  assumes "set_color env True r g b l = (ESP_OK, l')"
  shows "shown env l' = Some (r, g, b)"
proof -
  from assms have e: "env (lc_calls l) (Set_pixel r g b) = ESP_OK"
      "env (lc_calls l @ [Set_pixel r g b]) Strip_refresh = ESP_OK"
      "lc_calls l' = lc_calls l @ [Set_pixel r g b, Strip_refresh]"
    by (auto simp: set_color_def led_send_def and_then_OK split: if_splits)
  obtain px lit where "led_shown env [] (lc_calls l) (None, None) = (px, lit)" by fastforce
  with e show ?thesis by (simp add: shown_def led_shown_append)
qed

section \<open>Properties\<close>

text \<open>
  The LED shows the colour it was last told: a \<open>set_color\<close> that returns \<open>ESP_OK\<close> has lit exactly that colour, a successful \<open>init\<close>
  has lit the start-up red, and before a successful \<open>init\<close> the driver is not called at all.
\<close>

theorem led_shows_color:
  "(\<forall>l'. set_color env True r g b l = (ESP_OK, l') \<longrightarrow> shown env l' = Some (r, g, b)) \<and>
   (\<forall>l'. led_init env True pin l = (ESP_OK, l') \<longrightarrow> lc_led l' \<and> shown env l' = Some (50, 0, 0)) \<and>
   (lc_led l \<or> set_color env True r g b l = (ESP_ERR_INVALID_STATE, l))"
proof -
  have "lc_led l' \<and> shown env l' = Some (50, 0, 0)" if i: "led_init env True pin l = (ESP_OK, l')" for l'
  proof -
    from i obtain l1 where "set_color env True 50 0 0 (l1\<lparr>lc_led := True\<rparr>) = (ESP_OK, l')"
      by (auto simp: led_init_def and_then_OK)
    moreover from this have "lc_led l'" by (auto simp: set_color_def led_send_def and_then_OK)
    ultimately show ?thesis using set_color_shown by blast
  qed
  then show ?thesis using set_color_shown by (auto simp: set_color_def)
qed

theorem led_shows_color_witness:
  "shown (\<lambda>_ _. ESP_OK) (snd (led_init (\<lambda>_ _. ESP_OK) True 3 \<lparr>lc_led = False, lc_calls = []\<rparr>)) = Some (50, 0, 0)"
proof -
  obtain l' where "led_init (\<lambda>_ _. ESP_OK) True 3 \<lparr>lc_led = False, lc_calls = []\<rparr> = (ESP_OK, l')"
    by (simp add: led_init_def led_send_def set_color_def)
  with led_shows_color [where env = "\<lambda>_ _. ESP_OK" and pin = 3 and l = "\<lparr>lc_led = False, lc_calls = []\<rparr>"]
  show ?thesis by simp
qed

end
