(* ===== verification/Boot_Sequence.thy ===== *)
theory Boot_Sequence
  imports Bootstrap_Fsm Operator_View Lcd_Panels Led_Ctrl
begin

text \<open>
  Start-up from \<open>app_main\<close> of \<open>main/main.cpp\<close> to the programming task of \<open>main/bootstrap_fsm.cpp\<close>, with the display and the
  LED that \<open>bootstrap_fsm::init\<close> sets up first taken from their own models instead of as given
  results.
\<close>

section \<open>Definitions\<close>

text \<open>The first results \<open>init\<close> looks at: \<open>display->init()\<close>, \<open>composer->init()\<close> and \<open>led.init()\<close>.\<close>

definition with_drivers ::
  "bus_env \<Rightarrow> board \<Rightarrow> disp_cfg \<Rightarrow> bool \<Rightarrow> bool \<Rightarrow> led_env \<Rightarrow> bool \<Rightarrow> int \<Rightarrow> 's boot_env \<Rightarrow> 's boot_env" where
  "with_drivers env bd cfg alt room lenv led_on led_pin bo =
     bo\<lparr>bo_display := fst (display_manager_init env bd cfg alt room 0 []),
        bo_composer := fst (composer_init new_composer),
        bo_led := fst (led_init lenv led_on led_pin \<lparr>lc_led = False, lc_calls = []\<rparr>)\<rparr>"

text \<open>\<open>app_main\<close> does not look at the result of \<open>init\<close> and sleeps for good.\<close>

definition app_main :: "'s sys_lib \<Rightarrow> 's boot_env \<Rightarrow> ('s, 'w) fsm \<Rightarrow> ('s, 'w) fsm" where
  "app_main sl bo b = snd (fsm_init sl bo b)"

text \<open>
  The programming task: it shows the start screen, then takes turns for ever. Before turn \<open>n\<close> the other tasks and the
  interrupts have done \<open>others n\<close>; \<open>cancel n\<close> are the cancel requests during that turn.
\<close>

definition task_start :: "('s, 'w) fsm \<Rightarrow> ('s, 'w) fsm" where
  "task_start b = b\<lparr>bf_ui := bf_ui b @ [Ui_init]\<rparr>"

fun task_turns ::
  "'s sys_lib \<Rightarrow> 'w run_env \<Rightarrow> (nat \<Rightarrow> nat \<Rightarrow> bool) \<Rightarrow> (nat \<Rightarrow> ('s, 'w) fsm \<Rightarrow> ('s, 'w) fsm) \<Rightarrow> nat \<Rightarrow>
     ('s, 'w) fsm \<Rightarrow> ('s, 'w) fsm option" where
  "task_turns sl run cancel others 0 b = Some b"
| "task_turns sl run cancel others (Suc n) b =
     (case task_turns sl run cancel others n b of
        None \<Rightarrow> None
      | Some b \<Rightarrow> run_fsm_task sl run (cancel n) (others n b))"

definition fsm_task_handler ::
  "'s sys_lib \<Rightarrow> 'w run_env \<Rightarrow> (nat \<Rightarrow> nat \<Rightarrow> bool) \<Rightarrow> (nat \<Rightarrow> ('s, 'w) fsm \<Rightarrow> ('s, 'w) fsm) \<Rightarrow> nat \<Rightarrow>
     ('s, 'w) fsm \<Rightarrow> ('s, 'w) fsm option" where
  "fsm_task_handler sl run cancel others n b = task_turns sl run cancel others n (task_start b)"

section \<open>Lemmas\<close>

lemma show_refused_lock: "bf_run_lock (show_auto_run_refused sl b) = bf_run_lock b"
  by (simp add: show_auto_run_refused_def Let_def)

lemma run_fsm_task_returns:
  assumes "clocks_advance run"
  shows "\<exists>b'. run_fsm_task sl run cancel b = Some b' \<and> bf_run_lock b' = bf_run_lock b"
proof -
  have run: "\<exists>b'. run_job sl run cancel c = Some b' \<and> bf_run_lock b' = bf_run_lock c" for c
    using run_job_finishes [OF assms, of sl cancel c] by blast
  obtain started s where a: "begin_auto_run sl ((bf_sys b)\<lparr>sy_run_bit := False\<rparr>) = (started, s)" by fastforce
  show ?thesis
    using a run [of "b\<lparr>bf_connected := False, bf_sys := (bf_sys b)\<lparr>sy_run_bit := False\<rparr>\<rparr>"]
      run [of "b\<lparr>bf_connected := False, bf_sys := s\<rparr>"]
    by (simp add: run_fsm_task_def Let_def show_refused_lock)
qed

lemma task_turns_return:
  assumes "clocks_advance run" and "\<And>n b. bf_run_lock (others n b) = bf_run_lock b"
  shows "\<exists>b'. task_turns sl run cancel others n b = Some b' \<and> bf_run_lock b' = bf_run_lock b"
proof (induction n)
  case (Suc n)
  then obtain b' where "task_turns sl run cancel others n b = Some b'" "bf_run_lock b' = bf_run_lock b" by blast
  with run_fsm_task_returns [OF assms(1), of sl "cancel n" "others n b'"] assms(2) show ?case by simp
qed simp

lemma update_usb_ui [simp]: "bf_ui (update_usb_power powered b) = bf_ui b"
  by (simp add: update_usb_power_def arm_io_pin_def Let_def)

lemma setup_ui:
  "bf_ui (snd (setup_pm_locks bo b)) = bf_ui b" "bf_ui (snd (setup_io_pins bo b)) = bf_ui b"
  by (simp_all add: setup_pm_locks_def setup_io_pins_def arm_io_pin_def Let_def)

lemma setup_both_ui: "bf_ui (snd (and_then (setup_pm_locks bo b) (setup_io_pins bo))) = bf_ui b"
  by (rule and_then_state) (simp_all add: setup_ui)

text \<open>The composer after the display calls behind a sequence of events, whatever each of them returned.\<close>

definition drawn :: "ui_class \<Rightarrow> 'd lv_env \<Rightarrow> 'd \<times> 'd \<times> 'd \<Rightarrow> ui_event list \<Rightarrow> ui_composer" where
  "drawn cl env rd es = run_calls (composer_call cl env) (display_calls rd es) new_composer"

text \<open>
  One more call: when it returns \<open>ESP_OK\<close> the panel shows what \<open>shows\<close> says, otherwise (the LVGL lock was not free
  for a second) it shows what it did before.
\<close>

definition shown_or_kept :: "ui_class \<Rightarrow> 'd lv_env \<Rightarrow> 'd ui_call \<Rightarrow> (view \<Rightarrow> bool) \<Rightarrow> ui_composer \<Rightarrow> ui_composer \<Rightarrow> bool" where
  "shown_or_kept cl env c shows u u' \<longleftrightarrow>
     (if fst (composer_call cl env c u) = ESP_OK then shows (view_of u') else view_of u' = view_of u)"

lemma run_calls_append: "run_calls call (cs @ cs') s = run_calls call cs' (run_calls call cs s)"
  by (induction cs arbitrary: s) simp_all

lemma drawn_snoc:
  assumes "lv_ok env" and "display_call rd e = [c]" and "\<And>v. shows (spec_call env c v)"
  shows "shown_or_kept cl env c shows (drawn cl env rd es) (drawn cl env rd (es @ [e]))"
proof -
  have "composer_wf (drawn cl env rd es)"
    using draw.run_inv [of env new_composer cl] assms(1) by (simp add: drawn_def new_composer_wf)
  then show ?thesis
    using assms draw.shown [of env "drawn cl env rd es" cl c] draw.unchanged [of env "drawn cl env rd es" cl c]
    by (simp add: shown_or_kept_def drawn_def display_calls_def run_calls_append)
qed

lemma fsm_init_ui:
  assumes "fsm_init sl bo b = (ret, b')"
  shows "bf_ui b' = bf_ui b \<or> ret \<noteq> ESP_OK \<and> (\<exists>h m. bf_ui b' = bf_ui b @ [Ui_error h m])"
proof -
  obtain r b1 where s: "and_then (setup_pm_locks bo b) (setup_io_pins bo) = (r, b1)" by fastforce
  with setup_both_ui [of bo b] have "bf_ui b1 = bf_ui b" by simp
  with s assms show ?thesis
    by (auto simp: fsm_init_def log_init_def check_def Let_def split: if_splits option.splits prod.splits)
qed

section \<open>Properties\<close>

text \<open>
  C22: The programming task never gets stuck: whatever the other tasks do between its turns and whenever cancels arrive, as long as
  the clocks advance and the current test returns (\<open>clocks_advance\<close>) each of its turns comes to an end, for any number of turns, and the CPU power lock a run takes is back
  at its old level.
\<close>

theorem task_never_stuck:
  assumes "clocks_advance run" and "\<And>n b. bf_run_lock (others n b) = bf_run_lock b"
  shows "\<exists>b'. fsm_task_handler sl run cancel others n b = Some b' \<and> bf_run_lock b' = bf_run_lock b"
  using task_turns_return [OF assms, where sl = sl and cancel = cancel and n = n and b = "task_start b"]
  by (simp add: fsm_task_handler_def task_start_def)

theorem task_never_stuck_witness:
  "\<exists>b'. fsm_task_handler sample_sys_lib sample_run (\<lambda>_ _. False)
     (\<lambda>_ b. b\<lparr>bf_sys := (bf_sys b)\<lparr>sy_run_bit := True\<rparr>\<rparr>) 3 sample_fsm = Some b' \<and> bf_run_lock b' = 0"
  using task_never_stuck [OF sample_run_clock, where others = "\<lambda>_ b. b\<lparr>bf_sys := (bf_sys b)\<lparr>sy_run_bit := True\<rparr>\<rparr>"
      and sl = sample_sys_lib and cancel = "\<lambda>_ _. False" and n = 3 and b = sample_fsm]
  by (simp add: sample_fsm_def)

text \<open>
  C21: From power-on to the start screen, on a board with a configured panel. When start-up succeeds, the display runs at the size
  of its composer's screens, and the programming task then asks for the start screen without looking at the
  result: as long as LVGL has memory for its widgets the panel says \<open>READY\<close> if that call returned
  \<open>ESP_OK\<close>, and is as before if it could not get the LVGL lock. When start-up fails, either it has drawn nothing
  or its last call was an error message, shown under the same condition.
\<close>

theorem boot_reaches_start_screen:
  assumes "dm_panel cfg \<noteq> None" and "composer_class (get_composer cfg) = Some cl" and "lv_ok env"
    and "fsm_init sl (with_drivers benv bd cfg alt room lenv led_on led_pin bo) b = (ret, b')"
  shows "if ret = ESP_OK
    then (\<exists>p n tr. display_manager_init benv bd cfg alt room 0 [] = (ESP_OK, p, n, tr) \<and>
        Lvgl_port_init \<in> set tr \<and> resolution tr = Some (nat (cl_w cl), nat (cl_h cl))) \<and>
      shown_or_kept cl env Display_init shows_ready (drawn cl env rd (bf_ui b'))
        (drawn cl env rd (bf_ui (task_start b')))
    else bf_ui b' = bf_ui b \<or>
      (\<exists>h m. bf_ui b' = bf_ui b @ [Ui_error h m] \<and>
        shown_or_kept cl env (Display_error (Some h) (Some m)) shows_error (drawn cl env rd (bf_ui b))
          (drawn cl env rd (bf_ui b')))"
proof (cases "ret = ESP_OK")
  case True
  obtain r p n tr where d: "display_manager_init benv bd cfg alt room 0 [] = (r, p, n, tr)"
    by (metis prod_cases4)
  with assms(4) True have r: "r = ESP_OK"
    by (auto simp: fsm_init_def with_drivers_def Let_def split: if_splits)
  have "shown_or_kept cl env Display_init shows_ready (drawn cl env rd (bf_ui b'))
      (drawn cl env rd (bf_ui (task_start b')))"
    by (simp add: task_start_def) (rule drawn_snoc [OF assms(3)]; simp add: message_text_full shows_ready_def)
  with True d r display_manager_ready [OF assms(1) d [unfolded r]] assms(2) show ?thesis by auto
next
  case False
  have "shown_or_kept cl env (Display_error (Some h) (Some m)) shows_error (drawn cl env rd es)
      (drawn cl env rd (es @ [Ui_error h m]))" for h m es
    by (rule drawn_snoc [OF assms(3)]) (simp_all add: message_text_full shows_error_def)
  with False fsm_init_ui [OF assms(4)] show ?thesis by auto
qed

theorem boot_reaches_start_screen_witness:
  "\<exists>b'. fsm_init sample_sys_lib (with_drivers (\<lambda>_ _. ESP_OK) sample_board Panel_NT279VJ False True
       (\<lambda>_ _. ESP_OK) True 3 sample_boot) sample_fsm = (ESP_OK, b') \<and>
     shows_ready (view_of (drawn ui_class_279 roomy_env ((), (), ()) (bf_ui (task_start b'))))"
proof -
  have "with_drivers (\<lambda>_ _. ESP_OK) sample_board Panel_NT279VJ False True (\<lambda>_ _. ESP_OK) True 3 sample_boot = sample_boot"
    using sample_nt279vj
    by (auto simp: with_drivers_def composer_init_def led_init_def led_send_def set_color_def sample_boot_def)
  then obtain b' where b': "fsm_init sample_sys_lib (with_drivers (\<lambda>_ _. ESP_OK) sample_board Panel_NT279VJ False True
       (\<lambda>_ _. ESP_OK) True 3 sample_boot) sample_fsm = (ESP_OK, b')"
    using sample_fsm_boots by auto
  have ok: "fst (composer_call ui_class_279 roomy_env Display_init (drawn ui_class_279 roomy_env ((), (), ()) es)) = ESP_OK"
    for es
    using composer_call_outcome [OF roomy_env_ok, of "drawn ui_class_279 roomy_env ((), (), ()) es" ui_class_279 Display_init]
      draw.run_inv [of roomy_env new_composer ui_class_279] roomy_env_ok
    by (simp add: drawn_def new_composer_wf roomy_env_def counting_env_def)
  from boot_reaches_start_screen [OF _ _ roomy_env_ok b', where rd = "((), (), ())" and cl = ui_class_279] b' ok
  show ?thesis by (auto simp: dm_panel_def get_composer_def composer_class_def shown_or_kept_def)
qed

end
