(* ===== verification/Quectel_Dte.thy ===== *)
theory Quectel_Dte
  imports Si_Prelude
begin

text \<open>
  \<open>main/comm/quectel_dte.cpp\<close>: the terminal of the modem. Every transaction of the base class is done
  with the DTR line low, so that the modem is awake, and with light sleep locked out. The base class
  is not part of the sources: a transaction is a function of the DTR level, of whether sleep is locked
  out, and of a state \<open>'t\<close> of its own.
\<close>

record 't dte =
  dt_has_dtr :: bool
  dt_dtr_high :: bool
  dt_locks :: int
  dt_base :: 't

text \<open>The DTR level and the lock count a transaction runs with are its first two arguments.\<close>

type_synonym ('t, 'r) transaction = "bool \<Rightarrow> int \<Rightarrow> 't \<Rightarrow> 'r \<times> 't"

definition wake_modem :: "'t dte \<Rightarrow> 't dte" where
  "wake_modem d = (if \<not> dt_has_dtr d then d else d\<lparr>dt_dtr_high := False, dt_locks := dt_locks d + 1\<rparr>)"

definition allow_sleep :: "'t dte \<Rightarrow> 't dte" where
  "allow_sleep d = (if \<not> dt_has_dtr d then d else d\<lparr>dt_dtr_high := True, dt_locks := dt_locks d - 1\<rparr>)"

text \<open>\<open>write\<close> and both forms of \<open>command\<close> differ only in the call of the base class.\<close>

definition transact :: "('t, 'r) transaction \<Rightarrow> 't dte \<Rightarrow> 'r \<times> 't dte" where
  "transact f d =
     (let d = wake_modem d in
      case f (dt_dtr_high d) (dt_locks d) (dt_base d) of (ret, t) \<Rightarrow> (ret, allow_sleep (d\<lparr>dt_base := t\<rparr>)))"

definition dte_write :: "(bytes \<Rightarrow> ('t, int) transaction) \<Rightarrow> bytes \<Rightarrow> 't dte \<Rightarrow> int \<times> 't dte" where
  "dte_write base data d = transact (base data) d"

definition dte_command ::
  "(string \<Rightarrow> nat \<Rightarrow> ('t, 'r) transaction) \<Rightarrow> string \<Rightarrow> nat \<Rightarrow> 't dte \<Rightarrow> 'r \<times> 't dte" where
  "dte_command base cmd time_ms d = transact (base cmd time_ms) d"

definition dte_command_sep ::
  "(string \<Rightarrow> nat \<Rightarrow> char \<Rightarrow> ('t, 'r) transaction) \<Rightarrow> string \<Rightarrow> nat \<Rightarrow> char \<Rightarrow> 't dte \<Rightarrow> 'r \<times> 't dte" where
  "dte_command_sep base cmd time_ms separator d = transact (base cmd time_ms separator) d"

text \<open>\<open>create\<close>: \<open>None\<close> is the null pointer; the lock starts free and the line as the caller left it.\<close>

definition dte_create :: "esp_err \<Rightarrow> 't option \<Rightarrow> bool \<Rightarrow> bool \<Rightarrow> 't dte option" where
  "dte_create sleep_sel terminal has_dtr level =
     (if sleep_sel \<noteq> ESP_OK then None
      else case terminal of
          None \<Rightarrow> None
        | Some t \<Rightarrow> Some \<lparr>dt_has_dtr = has_dtr, dt_dtr_high = level, dt_locks = 0, dt_base = t\<rparr>)"

section \<open>Every transaction runs awake and leaves the modem free to sleep\<close>

text \<open>Between transactions: no lock is held, and after the first one the line is high.\<close>

definition asleep :: "'t dte \<Rightarrow> bool" where
  "asleep d \<longleftrightarrow> dt_locks d = 0 \<and> (dt_has_dtr d \<longrightarrow> dt_dtr_high d)"

lemma transact_awake:
  assumes "dt_has_dtr d" and "dt_locks d = 0"
  shows "transact f d = (case f False 1 (dt_base d) of (ret, t) \<Rightarrow> (ret, d\<lparr>dt_dtr_high := True, dt_base := t\<rparr>)) \<and>
     asleep (snd (transact f d))"
  using assms
  by (cases "f False 1 (dt_base d)")
    (auto simp: transact_def wake_modem_def allow_sleep_def asleep_def Let_def)

text \<open>Without a DTR line the terminal is that of the base class.\<close>

lemma transact_no_dtr:
  assumes "\<not> dt_has_dtr d"
  shows "transact f d = (case f (dt_dtr_high d) (dt_locks d) (dt_base d) of (ret, t) \<Rightarrow> (ret, d\<lparr>dt_base := t\<rparr>))"
  using assms by (simp add: transact_def wake_modem_def allow_sleep_def Let_def split: prod.splits)

text \<open>
  Over any sequence of transactions on a fresh terminal with a DTR line, each finds the line low and
  exactly one lock held: the base class sees the same as if it were called with these constants.
\<close>

lemma transactions_awake:
  assumes "dte_create ESP_OK (Some t) True level = Some d"
  shows "dt_base (fold (\<lambda>f d. snd (transact f d)) fs d) = fold (\<lambda>f t. snd (f False 1 t)) fs t \<and>
     dt_locks (fold (\<lambda>f d. snd (transact f d)) fs d) = 0"
proof -
  have "dt_base (fold (\<lambda>f d. snd (transact f d)) fs d) = fold (\<lambda>f t. snd (f False 1 t)) fs (dt_base d) \<and>
      dt_locks (fold (\<lambda>f d. snd (transact f d)) fs d) = 0" if "dt_has_dtr d" "dt_locks d = 0" for d :: "'a dte"
    using that
  proof (induction fs arbitrary: d)
    case (Cons f fs)
    have e: "snd (transact f d) = d\<lparr>dt_dtr_high := True, dt_base := snd (f False 1 (dt_base d))\<rparr>"
      using transact_awake [OF Cons.prems, of f] by (simp add: case_prod_unfold)
    show ?case using Cons.IH [of "snd (transact f d)"] Cons.prems by (simp add: e)
  qed simp
  with assms show ?thesis by (auto simp: dte_create_def)
qed

end
