(* ===== verification/Wifi_Manager.thy ===== *)
theory Wifi_Manager
  imports Si_Prelude
begin

text \<open>
  \<open>main/comm/wifi_manager.cpp\<close>: the station interface. The Wi-Fi driver, the event loop and the network interface of
  ESP-IDF are a parameter that answers each call, given the calls before it. A callback is present or not; invoking it
  is a call like the others.
\<close>

datatype event_base = IP_EVENT | WIFI_EVENT

datatype wifi_call =
    Netif_init
  | Event_loop_create_default
  | Netif_create_default_wifi_sta
  | Wifi_init
  | Handler_register event_base
  | Wifi_set_mode_sta
  | Wifi_set_config string
  | Wifi_start
  | Wifi_connect
  | Call_lost_ip
  | Call_got_ip u32

record wifi_manager =
  wm_lost_ip_cb :: bool
  wm_got_ip_cb :: bool
  wm_calls :: "wifi_call list"

type_synonym wifi_env = "wifi_call list \<Rightarrow> wifi_call \<Rightarrow> esp_err"

definition wifi_send :: "wifi_env \<Rightarrow> wifi_call \<Rightarrow> wifi_manager \<Rightarrow> esp_err \<times> wifi_manager" where
  "wifi_send env c m = (env (wm_calls m) c, m\<lparr>wm_calls := wm_calls m @ [c]\<rparr>)"

definition wifi_post :: "wifi_call \<Rightarrow> wifi_manager \<Rightarrow> wifi_manager" where
  "wifi_post c m = m\<lparr>wm_calls := wm_calls m @ [c]\<rparr>"

text \<open>The configuration is empty but for the authentication threshold: no SSID is set.\<close>

definition wm_init :: "wifi_env \<Rightarrow> wifi_manager \<Rightarrow> esp_err \<times> wifi_manager" where
  "wm_init env m =
     (let m = wifi_post Netif_create_default_wifi_sta (wifi_post Event_loop_create_default (wifi_post Netif_init m)) in
      and_then (wifi_send env Wifi_init m) (\<lambda>m.
      and_then (wifi_send env (Handler_register IP_EVENT) m) (\<lambda>m.
      and_then (wifi_send env (Handler_register WIFI_EVENT) m) (\<lambda>m.
      and_then (wifi_send env Wifi_set_mode_sta m) (\<lambda>m.
      and_then (wifi_send env (Wifi_set_config '''') m) (\<lambda>m.
      wifi_send env Wifi_start m))))))"

text \<open>An event: base, id and, for a new address, the address.\<close>

datatype wifi_event =
    STA_START | STA_DISCONNECTED | STA_LOST_IP | STA_GOT_IP u32 | Other_event event_base int

definition event_handler :: "wifi_event \<Rightarrow> wifi_manager \<Rightarrow> wifi_manager" where
  "event_handler e m =
     (case e of
        STA_START \<Rightarrow> wifi_post Wifi_connect m
      | STA_DISCONNECTED \<Rightarrow> wifi_post Wifi_connect m
      | STA_LOST_IP \<Rightarrow> (if wm_lost_ip_cb m then wifi_post Call_lost_ip m else m)
      | STA_GOT_IP ip \<Rightarrow> (if wm_got_ip_cb m then wifi_post (Call_got_ip ip) m else m)
      | Other_event base n \<Rightarrow> m)"

definition wm_set_lost_ip_cb :: "bool \<Rightarrow> wifi_manager \<Rightarrow> wifi_manager" where
  "wm_set_lost_ip_cb cb m = m\<lparr>wm_lost_ip_cb := cb\<rparr>"

definition wm_set_got_ip_cb :: "bool \<Rightarrow> wifi_manager \<Rightarrow> wifi_manager" where
  "wm_set_got_ip_cb cb m = m\<lparr>wm_got_ip_cb := cb\<rparr>"

section \<open>Reactions\<close>

fun reaction :: "bool \<Rightarrow> bool \<Rightarrow> wifi_event \<Rightarrow> wifi_call list" where
  "reaction lost got STA_START = [Wifi_connect]"
| "reaction lost got STA_DISCONNECTED = [Wifi_connect]"
| "reaction lost got STA_LOST_IP = (if lost then [Call_lost_ip] else [])"
| "reaction lost got (STA_GOT_IP ip) = (if got then [Call_got_ip ip] else [])"
| "reaction lost got (Other_event b n) = []"

lemma event_handler_reaction:
  "event_handler e m = m\<lparr>wm_calls := wm_calls m @ reaction (wm_lost_ip_cb m) (wm_got_ip_cb m) e\<rparr>"
  by (cases e) (simp_all add: event_handler_def wifi_post_def)

text \<open>
  Every start and every loss of the connection is answered with one attempt to connect, and every change of the address with one call of the callback that is
  set for it, in the order of the events.
\<close>

lemma events_answered:
  "wm_calls (fold event_handler es m) =
     wm_calls m @ concat (map (reaction (wm_lost_ip_cb m) (wm_got_ip_cb m)) es)"
  by (induction es arbitrary: m) (simp_all add: event_handler_reaction)

text \<open>The start-up calls are made in order up to the first that fails, and the station is configured without an SSID.\<close>

lemma wm_init_OK:
  "wm_init env m = (ESP_OK, m') \<Longrightarrow> wm_calls m' = wm_calls m @
     [Netif_init, Event_loop_create_default, Netif_create_default_wifi_sta, Wifi_init,
      Handler_register IP_EVENT, Handler_register WIFI_EVENT, Wifi_set_mode_sta, Wifi_set_config '''', Wifi_start]"
  by (auto simp: wm_init_def wifi_send_def wifi_post_def and_then_OK Let_def)

end
