(* ===== verification/Ui_Failure.thy ===== *)
theory Ui_Failure
  imports Ui_Correct
begin

text \<open>
  What happens after a switch of screens that failed. Both composers delete the old screen before they know whether
  the new one can be set up, and neither forgets it when it cannot: \<open>screen_state\<close> and the pointers of the old screen
  stay as they were, so the next call for that screen writes through them. The lemmas follow the deleted object from
  \<open>reload_base_obj\<close> to that call.
\<close>

section \<open>Definitions\<close>

text \<open>The screen a call draws on.\<close>

fun screen_for :: "'d ui_call \<Rightarrow> screen_state" where
  "screen_for (Display_erase p) = (if p = 255 then MESSAGE else PROGRESS)"
| "screen_for (Display_program p) = (if p = 255 then MESSAGE else PROGRESS)"
| "screen_for (Display_test d n m) = PROGRESS"
| "screen_for (Display_current lo hi av st c) = CURRENT"
| "screen_for _ = MESSAGE"

text \<open>A call that fails for want of memory has deleted the screen and changed nothing of what it knows of it.\<close>

definition gives_up :: "ui_composer \<Rightarrow> esp_err \<times> ui_composer \<Rightarrow> bool" where
  "gives_up u res \<longleftrightarrow> (fst res = ESP_ERR_NO_MEM \<longrightarrow>
     (\<exists>cs. uc_calls (snd res) = uc_calls u @ Obj_del (uc_base_obj u) # cs) \<and> uc_screen (snd res) = uc_screen u \<and>
     (case uc_screen u of CLEAR \<Rightarrow> True | MESSAGE \<Rightarrow> uc_message (snd res) = uc_message u
      | PROGRESS \<Rightarrow> uc_progress (snd res) = uc_progress u | CURRENT \<Rightarrow> uc_current (snd res) = uc_current u))"

fun writes :: "lv_call \<Rightarrow> bool" where
  "writes Port_unlock = True"
| "writes c = (uses c \<noteq> [] \<and> sets (hd (uses c)) c)"

definition touches :: "nat \<Rightarrow> ui_composer \<Rightarrow> esp_err \<times> ui_composer \<Rightarrow> bool" where
  "touches x u res \<longleftrightarrow> fst res = ESP_OK \<and>
     (\<exists>cs. uc_calls (snd res) = uc_calls u @ cs \<and> list_all writes cs \<and> (\<exists>a\<in>set cs. Some x \<in> set (uses a)))"

section \<open>Lemmas\<close>

lemma writes_keep_dead: "writes a \<Longrightarrow> hp x = None \<Longrightarrow> heap_step a hp x = None"
  by (cases "(a, hp)" rule: heap_step.cases) (auto simp: upd_widget_def split: option.splits)

lemma dead_write_unsafe:
  "list_all writes cs \<Longrightarrow> hp x = None \<Longrightarrow> \<exists>a\<in>set cs. Some x \<in> set (uses a) \<Longrightarrow> \<not> safe_from hp cs"
proof (induction cs arbitrary: hp)
  case (Cons a cs)
  show ?case
  proof (cases "Some x \<in> set (uses a)")
    case True
    then show ?thesis using Cons.prems(2) by (force simp: list_all_iff live_def)
  next
    case False
    with Cons.prems writes_keep_dead [of a hp x] Cons.IH [of "heap_step a hp"] show ?thesis by auto
  qed
qed simp

lemma reload_deletes:
  assumes "uc_base_obj u \<noteq> None"
  shows "\<exists>cs. uc_calls (reload_base_obj cl env u) = uc_calls u @ Obj_del (uc_base_obj u) # cs"
    and "uc_screen (reload_base_obj cl env u) = uc_screen u" "uc_message (reload_base_obj cl env u) = uc_message u"
    "uc_progress (reload_base_obj cl env u) = uc_progress u" "uc_current (reload_base_obj cl env u) = uc_current u"
  using assms by (simp_all add: reload_base_obj_def Let_def)

lemma put_ok:
  "fst (put_message h c col u) = ESP_OK" "fst (put_progress t d n u) = ESP_OK" "fst (put_current r st col u) = ESP_OK"
  by (simp_all add: put_message_def put_progress_def put_current_def unlock_ok_def)

lemma setup_failed_gives_up:
  assumes "uc_base_obj u \<noteq> None" and "adds_plain (uc_calls (reload_base_obj cl env u)) (uc_calls v)"
    and "uc_screen v = uc_screen u"
    and "case uc_screen u of CLEAR \<Rightarrow> True | MESSAGE \<Rightarrow> uc_message v = uc_message u
      | PROGRESS \<Rightarrow> uc_progress v = uc_progress u | CURRENT \<Rightarrow> uc_current v = uc_current u"
  shows "gives_up u (setup_failed cl v)"
  using reload_deletes(1) [OF assms(1), of cl env] assms(2-4)
  by (auto simp: gives_up_def setup_failed_def adds_plain_def split: screen_state.splits)

lemma gives_up_ok: "fst res = ESP_OK \<Longrightarrow> gives_up u res"
  by (simp add: gives_up_def)

lemma with_message_gives_up:
  assumes "uc_base_obj u \<noteq> None" and "\<And>u. fst (k u) = ESP_OK"
  shows "gives_up u (with_message cl env k u)"
proof -
  let ?u = "reload_base_obj cl env u"
  obtain r m tr where i: "message_init cl env (uc_base_obj ?u) (uc_message ?u, uc_calls ?u) = (r, m, tr)"
    by (metis prod_cases3)
  then have "adds_plain (uc_calls ?u) tr" using message_init_plain by (metis snd_conv)
  then have "gives_up u (setup_failed cl (?u\<lparr>uc_message := m, uc_calls := tr\<rparr>))" if "uc_screen u \<noteq> MESSAGE"
    using that reload_deletes(2-) [OF assms(1), of cl env]
    by (intro setup_failed_gives_up [OF assms(1)]) (auto split: screen_state.split)
  with i assms(2) show ?thesis by (simp add: with_message_def Let_def gives_up_ok)
qed

lemma with_progress_gives_up:
  assumes "uc_base_obj u \<noteq> None" and "\<And>u. fst (k u) = ESP_OK"
  shows "gives_up u (with_progress cl env once k u)"
proof -
  let ?u = "reload_base_obj cl env u"
  obtain r m tr where i: "progress_init cl env (uc_base_obj ?u) (uc_progress ?u, uc_calls ?u) = (r, m, tr)"
    by (metis prod_cases3)
  then have "adds_plain (uc_calls ?u) tr" using progress_init_plain by (metis snd_conv)
  then have "gives_up u (setup_failed cl (?u\<lparr>uc_progress := m, uc_calls := tr\<rparr>))" if "uc_screen u \<noteq> PROGRESS"
    using that reload_deletes(2-) [OF assms(1), of cl env]
    by (intro setup_failed_gives_up [OF assms(1)]) (auto split: screen_state.split)
  with i assms(2) show ?thesis by (simp add: with_progress_def Let_def gives_up_ok)
qed

lemma with_current_gives_up:
  assumes "uc_base_obj u \<noteq> None" and "\<And>u. fst (k u) = ESP_OK"
  shows "gives_up u (with_current cl env k u)"
proof -
  let ?u = "reload_base_obj cl env u"
  obtain r m tr where i: "current_init cl env (uc_base_obj ?u) (uc_current ?u, uc_calls ?u) = (r, m, tr)"
    by (metis prod_cases3)
  then have "adds_plain (uc_calls ?u) tr" using current_init_plain by (metis snd_conv)
  then have "gives_up u (setup_failed cl (?u\<lparr>uc_current := m, uc_calls := tr\<rparr>))" if "uc_screen u \<noteq> CURRENT"
    using that reload_deletes(2-) [OF assms(1), of cl env]
    by (intro setup_failed_gives_up [OF assms(1)]) (auto split: screen_state.split)
  with i assms(2) show ?thesis by (simp add: with_current_def Let_def gives_up_ok)
qed

lemma lock_free_gives_up:
  assumes "uc_base_obj u \<noteq> None"
  shows "gives_up u (lock_free_call cl env c u)"
  by (cases c) (simp_all add: lock_free_call_def with_message_gives_up [OF assms] with_progress_gives_up [OF assms]
      with_current_gives_up [OF assms] put_ok)

text \<open>A call for the screen that is up writes to one of that screen's objects.\<close>

lemma writes_simps: "sets p a \<Longrightarrow> writes a" for p
  by (cases a) auto

lemma puts_touch:
  "ms_base (uc_message u) = Some x \<Longrightarrow> ms_header (uc_message u) \<noteq> None \<Longrightarrow> ms_comment (uc_message u) \<noteq> None \<Longrightarrow>
     touches x u (put_message h c col u)"
  "ps_bar (uc_progress u) = Some x \<Longrightarrow> touches x u (put_progress t d n u)"
  "ps_bar (uc_progress u) = Some x \<Longrightarrow> touches x u (put_progress t d n (put_header hdr col u))"
  "us_current (uc_current u) = Some x \<Longrightarrow> touches x u (put_current r st col u)"
  by (auto simp: touches_def put_message_def put_progress_def put_header_def put_current_def unlock_ok_def
      message_set_header_text_def message_set_comment_text_def message_set_color_def progress_set_progress_def
      progress_set_comment_text_def progress_set_bar_color_def progress_set_header_text_def
      current_set_current_main_def current_set_state_def)

definition main_widget :: "ui_composer \<Rightarrow> ptr" where
  "main_widget u = (case uc_screen u of CLEAR \<Rightarrow> None | MESSAGE \<Rightarrow> ms_base (uc_message u)
     | PROGRESS \<Rightarrow> ps_bar (uc_progress u) | CURRENT \<Rightarrow> us_current (uc_current u))"

lemma lock_free_touches:
  assumes "screen_for c = uc_screen u" and "main_widget u = Some x"
    and "uc_screen u = MESSAGE \<Longrightarrow> ms_header (uc_message u) \<noteq> None \<and> ms_comment (uc_message u) \<noteq> None"
  shows "touches x u (lock_free_call cl env c u)"
  using assms puts_touch(2-) [of u x] puts_touch(1) [of u x]
  by (cases c) (auto simp: lock_free_call_def with_message_def with_progress_def with_current_def main_widget_def
      split: if_splits)

lemma screen_up:
  assumes "composer_wf u" and "uc_screen u \<noteq> CLEAR"
  obtains b x where "uc_base_obj u = Some b" and "main_widget u = Some x" and "heap_of (uc_calls u) x \<noteq> None"
    and "kill b (heap_of (uc_calls u)) = Map.empty"
    and "uc_screen u = MESSAGE \<longrightarrow> ms_header (uc_message u) \<noteq> None \<and> ms_comment (uc_message u) \<noteq> None"
proof -
  have ok: "screen_ok u" using assms(1) by (simp add: composer_wf_def)
  then have base: "uc_base_obj u \<noteq> None" using assms(2)
    by (auto simp: screen_ok_def message_tree_def progress_tree_def current_tree_def Let_def split: screen_state.splits)
  with screen_ok_reload [OF ok] obtain b where b: "uc_base_obj u = Some b" "kill b (heap_of (uc_calls u)) = Map.empty"
    by auto
  have "\<exists>x. main_widget u = Some x \<and> heap_of (uc_calls u) x \<noteq> None \<and>
      (uc_screen u = MESSAGE \<longrightarrow> ms_header (uc_message u) \<noteq> None \<and> ms_comment (uc_message u) \<noteq> None)"
    using ok assms(2)
    by (auto simp: screen_ok_def message_tree_def progress_tree_def current_tree_def main_widget_def live_shape
        Let_def split: screen_state.splits)
  with b that show ?thesis by blast
qed

lemma emit_lock_fields:
  "uc_base_obj (emit cs u) = uc_base_obj u" "uc_screen (emit cs u) = uc_screen u" "main_widget (emit cs u) = main_widget u"
  by (cases "uc_screen u"; simp add: emit_def main_widget_def)+

lemma failed_call:
  assumes "uc_base_obj u \<noteq> None" and "composer_call cl env c u = (ESP_ERR_NO_MEM, u2)"
  shows "\<exists>cs. uc_calls u2 = uc_calls u @ Port_lock 1000 True # Obj_del (uc_base_obj u) # cs"
    and "uc_screen u2 = uc_screen u" and "main_widget u2 = main_widget u"
    and "uc_screen u = MESSAGE \<Longrightarrow> uc_message u2 = uc_message u"
proof -
  let ?u = "emit [Port_lock 1000 True] u"
  have lk: "lv_locks env (uc_calls u)"
    using assms(2) by (rule contrapos_pp) (simp add: composer_call_locked when_locked_simps)
  then have r: "lock_free_call cl env c ?u = (ESP_ERR_NO_MEM, u2)"
    using assms(2) by (simp add: composer_call_locked when_locked_simps)
  have g: "gives_up ?u (lock_free_call cl env c ?u)"
    by (rule lock_free_gives_up) (simp add: assms(1))
  show "\<exists>cs. uc_calls u2 = uc_calls u @ Port_lock 1000 True # Obj_del (uc_base_obj u) # cs" "uc_screen u2 = uc_screen u"
    using g unfolding r by (simp_all add: gives_up_def)
  show "main_widget u2 = main_widget u"
    using g unfolding r by (auto simp: gives_up_def main_widget_def split: screen_state.splits)
  show "uc_message u2 = uc_message u" if "uc_screen u = MESSAGE" using g that unfolding r by (simp add: gives_up_def)
qed

lemma composer_class_call:
  assumes "call = composer_call ui_class_279 env \<or> call = composer_call_114 env"
  obtains cl where "call = composer_call cl env"
  using assms by (auto simp: composer_call_114)

section \<open>Properties\<close>

text \<open>
  C40: After a failed switch of screens both composers write to a screen that is gone. Whatever screen is up, when a call
  fails with \<open>ESP_ERR_NO_MEM\<close> all of that screen has been deleted, yet the next call for it that gets the lock sees no
  need to set it up: it returns \<open>ESP_OK\<close> after it has written to one of the deleted objects, which is a use after
  deletion unless LVGL has given the same address to another object in the meantime.
\<close>

theorem failed_switch_uses_deleted_labels:
  assumes "call = composer_call ui_class_279 env \<or> call = composer_call_114 env"
    and "composer_wf u" and "uc_screen u \<noteq> CLEAR" and "call c u = (ESP_ERR_NO_MEM, u2)"
    and "screen_for c' = uc_screen u" and "lv_locks env (uc_calls u2)"
  shows "\<exists>u3 x gone rest later. call c' u2 = (ESP_OK, u3) \<and> uc_calls u2 = uc_calls u @ gone @ rest \<and>
    heap_of (uc_calls u) x \<noteq> None \<and> heap_of (uc_calls u @ gone) = Map.empty \<and>
    uc_calls u3 = uc_calls u2 @ later \<and> (\<exists>a\<in>set later. Some x \<in> set (uses a)) \<and>
    (heap_of (uc_calls u2) x = None \<longrightarrow> \<not> safe (uc_calls u3))"
proof -
  obtain cl where cl: "call = composer_call cl env" using composer_class_call [OF assms(1)] .
  obtain b x where b: "uc_base_obj u = Some b" and x: "main_widget u = Some x" "heap_of (uc_calls u) x \<noteq> None"
      and k: "kill b (heap_of (uc_calls u)) = Map.empty"
      and lab: "uc_screen u = MESSAGE \<longrightarrow> ms_header (uc_message u) \<noteq> None \<and> ms_comment (uc_message u) \<noteq> None"
    using screen_up [OF assms(2,3)] .
  have base: "uc_base_obj u \<noteq> None" using b by simp
  note failed = failed_call [OF base assms(4) [unfolded cl]]
  obtain cs where cs: "uc_calls u2 = uc_calls u @ Port_lock 1000 True # Obj_del (Some b) # cs"
    using failed(1) b by auto
  let ?gone = "[Port_lock 1000 True, Obj_del (Some b)]" and ?u = "emit [Port_lock 1000 True] u2"
  have r: "call c' u2 = lock_free_call cl env c' ?u"
    using assms(6) by (simp add: cl composer_call_locked when_locked_simps)
  have "touches x ?u (lock_free_call cl env c' ?u)"
    using failed(2-4) x(1) lab assms(5)
    by (intro lock_free_touches) (simp_all add: emit_lock_fields(3))
  then obtain u3 later where u3: "call c' u2 = (ESP_OK, u3)" "uc_calls u3 = uc_calls u2 @ Port_lock 1000 True # later"
      "list_all writes later" "\<exists>a\<in>set later. Some x \<in> set (uses a)"
    unfolding r [symmetric] by (cases "call c' u2") (auto simp: touches_def)
  have "\<not> safe (uc_calls u3)" if "heap_of (uc_calls u2) x = None"
    using dead_write_unsafe [OF u3(3) _ u3(4), of "heap_of (uc_calls u2)"] that by (simp add: u3(2) lv)
  moreover have "heap_of (uc_calls u @ ?gone) = Map.empty" using k by (simp add: lv)
  moreover have "uc_calls u2 = uc_calls u @ ?gone @ cs" using cs by simp
  moreover have "\<exists>a\<in>set (Port_lock 1000 True # later). Some x \<in> set (uses a)" using u3(4) by simp
  ultimately show ?thesis using u3(1,2) x(2)
    by (intro exI [of _ u3] exI [of _ x] exI [of _ ?gone] exI [of _ cs] exI [of _ "Port_lock 1000 True # later"]) simp
qed

text \<open>The message screen is set up while memory lasts; then the heap has room for one more object only.\<close>

theorem failed_switch_uses_deleted_labels_witness:
  "\<exists>u u2 u3. composer_wf u \<and> uc_screen u = MESSAGE \<and>
     composer_call_114 small_env (Display_program 10) u = (ESP_ERR_NO_MEM, u2) \<and>
     composer_call_114 small_env Display_done u2 = (ESP_OK, u3) \<and> \<not> safe (uc_calls u3)"
proof -
  let ?u = "snd (composer_call_114 roomy_env Display_init new_composer)"
  let ?u2 = "snd (composer_call_114 small_env (Display_program 10) ?u)"
  have wf: "composer_wf ?u"
    using composer_call_outcome [OF roomy_env_ok new_composer_wf, of ui_class_114 Display_init]
    by (simp add: composer_call_114)
  have up: "uc_screen ?u = MESSAGE" "fst (composer_call_114 small_env (Display_program 10) ?u) = ESP_ERR_NO_MEM"
    by code_simp+
  then have c: "composer_call_114 small_env (Display_program 10) ?u = (ESP_ERR_NO_MEM, ?u2)" by (metis prod.collapse)
  have lk: "lv_locks small_env (uc_calls ?u2)" by (simp add: small_env_def counting_env_def)
  have n: "next_number (uc_calls ?u) = 7" "list_all (\<lambda>x. Option.is_none (heap_of (uc_calls ?u2) x)) [0..<7]"
    by code_simp+
  have dead: "heap_of (uc_calls ?u2) x = None" if "heap_of (uc_calls ?u) x \<noteq> None" for x
    using heap_of_below [OF that] n by (simp add: list_all_iff Option.is_none_def)
  have scr: "uc_screen ?u \<noteq> CLEAR" "screen_for (Display_done :: unit ui_call) = uc_screen ?u"
    unfolding up(1) by simp_all
  obtain u3 x where d: "composer_call_114 small_env Display_done ?u2 = (ESP_OK, u3)"
      "heap_of (uc_calls ?u) x \<noteq> None" "heap_of (uc_calls ?u2) x = None \<longrightarrow> \<not> safe (uc_calls u3)"
    using failed_switch_uses_deleted_labels [OF disjI2 [OF refl] wf scr(1) c scr(2) lk]
    by (elim exE conjE) (rule that)
  have "\<not> safe (uc_calls u3)" using d(3) dead [OF d(2)] by (rule mp)
  then show ?thesis
    by (intro exI [of _ ?u] exI [of _ ?u2] exI [of _ u3] conjI wf up(1) c d(1))
qed

end
