(* ===== verification/Spec2Isabelle.thy ===== *)
theory Spec2Isabelle
  imports Sidp_Service Production Serving_Cell Esp32_Pins Boot_Sequence Modem_Manager Quectel_Dte Wifi_Manager Current_Tester
    Ui_Failure
begin

text \<open>
  \<^bold>\<open>Verification of the soul-injector firmware.\<close>

  The firmware turns an ESP32-S3 board into an offline production programmer: a host pushes a job and
  its images over USB, and the board then programs every target that is put on its pins, by SWD for
  Cortex-M parts or over the serial boot loader for Espressif parts, and keeps a log of the runs.

  \<^bold>\<open>The parts and how they interact\<close> (paths below \<open>src/main\<close>)

  The service task (\<open>comm/sidp_service.cpp\<close>) serves requests of the host: uploads go to the asset store
  (\<open>prog/asset_store.cpp\<close>), job requests to the job controller (\<open>prog/job_controller.cpp\<close>), log requests to
  the production log (\<open>prog/prog_log.cpp\<close>). Setting a job makes the asset manager
  (\<open>prog/fw_asset_manager.cpp\<close>) decode and validate the staged job (\<open>prog/config/job_decoder.cpp\<close>), check
  the images it pins, save it and publish its configuration (\<open>prog/config/target_config.hpp\<close>). The
  programming task (\<open>bootstrap_fsm.cpp\<close>) waits for a target or a request, claims a run from the
  controller and drives the state machine of one run (\<open>prog/offline_flasher.cpp\<close>), which reaches the
  target through \<open>prog/target_backend.hpp\<close>: either \<open>prog/swd_cortexm_backend.cpp\<close> over \<open>prog/swd_prog.cpp\<close>,
  or \<open>prog/esp32_serial_backend.cpp\<close>. Procedures before and after programming are run by
  \<open>prog/procedure_executor.cpp\<close>. The outcome is recorded in the log. The operator follows a run on
  the panel and the status LED: \<open>driver/lcd/display_manager.cpp\<close> brings up one of the panels and hands out a composer
  (\<open>ui/ui_composer_114.cpp\<close>, \<open>ui/ui_composer_279.cpp\<close>, \<open>ui/ui_composer_noop.cpp\<close>) that builds one of three screens
  (\<open>ui/ui_screen_*.cpp\<close>) out of LVGL widgets; \<open>prog/includes/led_ctrl.hpp\<close> drives the LED. \<open>main.cpp\<close> starts all of it.
  \<open>comm/wifi_manager.cpp\<close> holds a Wi-Fi station that no other part starts. On boards with a modem, \<open>comm/modem_manager.cpp\<close> keeps a
  PPP link up over the terminal of \<open>comm/quectel_dte.cpp\<close>.

  \<^bold>\<open>Theories\<close>

  \<^item> \<open>Si_Prelude\<close>: machine integers, \<open>esp_err\<close>, the file system as a map, the combinators \<open>check\<close>
    (\<open>if (ret != ESP_OK) return ...\<close>) and \<open>and_then\<close> (\<open>ret = ret ?: f()\<close>), blocks of byte lists, 32-bit
    arithmetic.
  \<^item> \<open>Target_Config\<close>: \<open>target_config.hpp\<close>, one record per struct and one definition per query;
    \<open>contains_range\<close> is shown to be range inclusion without wrap-around, the region queries to select
    the first and the largest region.
  \<^item> \<open>Job_Decoder\<close>: \<open>job_decoder.cpp\<close>. Validation is equivalent to the predicate \<open>job_valid\<close>; decoding
    leaks no buffer on any path; filling the configuration of a valid job never writes outside an
    array and leaves nothing of the previous job.
  \<^item> \<open>Asset_Store\<close>: \<open>asset_store.cpp\<close> over an explicit file system. \<open>upload_inv\<close> ties the running hash,
    the counter and the part file together; only verified content is installed, the saved job is
    never touched, the offset a host is told is the length of the part file, uploads round-trip for every way of
    cutting them into chunks, accepted names stay different on FAT.
  \<^item> \<open>Fw_Asset_Manager\<close>: \<open>fw_asset_manager.cpp\<close>. The published configuration is that of the active
    job, its buffers are exactly accounted for, a failed activation keeps the old job, a successful
    one survives a reboot. One theorem shows where a comment in the source is too strong.
  \<^item> \<open>Prog_Log\<close>: \<open>prog_log.cpp\<close>; \<open>log_read\<close> always returns, within its buffer and without gaps; a failed
    write blocks all further runs.
  \<^item> \<open>Target_Backend\<close>: the interface as a record of operations and the locale \<open>transport\<close> for what
    the state machine relies on at the end of a run.
  \<^item> \<open>Procedure_Executor\<close>: \<open>procedure_executor.cpp\<close>; polling decides within its timeout, a procedure
    stops at its first failure.
  \<^item> \<open>Offline_Flasher\<close>: \<open>offline_flasher.cpp\<close>, each handler and the loop; every run ends, in order,
    with the first stage that failed and a released transport. \<open>pg_state\<close> is ordered by the numbers of the enum, and
    the stages of a run ascend in it.
  \<^item> \<open>Job_Controller\<close>: \<open>job_controller.cpp\<close>, one definition per locked section.
  \<^item> \<open>Bootstrap_Fsm\<close>: \<open>bootstrap_fsm.cpp\<close>: start-up, pin interrupts and debouncing, and the two tasks
    as the step relation \<open>cstep\<close>, interleaved at their locked sections. By rule induction over
    reachable states: every claimed run is recorded exactly once, the job and its images do not
    change during a run, and a claimed run can always be completed. Interrupts and timeouts of the pins are the relation
    \<open>io_run\<close>: the pins stay armed unless an interrupt could not start the debounce timer, after which they are deaf.
  \<^item> \<open>Swd_Prog\<close>: \<open>swd_prog.cpp\<close>, definitions. \<open>Swd_Target\<close>: what the calls do to a target, memory as a
    function of the address and a pending flash call. \<open>Swd_Correct\<close>: programming leaves exactly the
    file in the flash, also double-buffered, when no read of the file was short (\<open>reads_full\<close>); what happens after a short
    read; verification is exact; where the stack is placed; and findings. \<open>Swd_Backend\<close>: \<open>swd_cortexm_backend.cpp\<close> and complete erasure.
  \<^item> \<open>Esp32_Backend\<close>: \<open>esp32_serial_backend.cpp\<close>, definitions. \<open>Esp32_Layout\<close>: alignment, padding,
    sector ranges, and the flash as the loader changes it: starting to write a range erases every sector it touches, and
    a write only clears bits. \<open>Esp32_Correct\<close>: validation accepts exactly the image sets that fit and do not
    share a sector, programming writes every image, verification is sound, and no sequence of
    operations uses a loader that is not initialised. \<open>Esp32_Pins\<close>: entering the boot loader starts the target once and
    in its loader, a reset starts it once and in its application, for every polarity of the two control lines.
  \<^item> \<open>Device\<close>: the flasher over both backends, the current tester and the clock; what a passed run means for the flash of
    the target, and that every run leaves the transport idle.
  \<^item> \<open>Production\<close>: the programming task over the device, the controller and the log, as the host sees them: the entry
    read back after a run is the record of that run, it says \<open>OUTCOME_PASS\<close> only when the flash of the target holds the
    images the job pins, otherwise it names the stage that stopped; a run the host has asked for is shown in the status
    and recorded, or, when its record cannot be written, no further run is admitted.
  \<^item> \<open>Ui_Lvgl\<close>: the LVGL calls of the sources, the tree of widgets a list of calls leaves behind, which calls touch a
    live widget (\<open>safe\<close>) and which happen under the LVGL lock (\<open>guarded\<close>). \<open>Ui_Screens\<close> and \<open>Ui_Composer\<close>: the screens and the composer of the
    2.79 inch panel, with the seven values that the other panel changes as the record \<open>ui_class\<close>, and the composer without a
    display. \<open>Ui_114\<close>: the screens and the composer of the 1.14 inch panel, translated from their own files, and the proof
    that they are the same code up to these values, so that what is proved for every \<open>ui_class\<close> holds for both.
    \<open>Ui_Correct\<close>: \<open>spec_call\<close> says what a display call should leave on the panel; both composers implement it and keep a
    well-formed tree of widgets; the lock discipline of the 2.79 inch composer. \<open>Ui_Failure\<close>: what the composers do after
    LVGL has run out of memory in the middle of a switch of screens.
  \<^item> \<open>Operator_View\<close>: from the events of a run to display calls; what panel and LED show when a run has ended.
  \<^item> \<open>Lcd_Bus\<close>: calls of the panel bus and scripts of them. \<open>Nv3007\<close>: \<open>esp_lcd_panel_nv3007.c\<close>; the window commands
    of a bitmap decode to its rectangle, its \<open>int\<close> computations being \<open>None\<close> where they would overflow, the orientation register is what was asked for, no allocation is leaked.
    \<open>Lcd_Panels\<close>: the three panels and the display manager.
  \<^item> \<open>Led_Ctrl\<close>: \<open>led_ctrl.hpp\<close>. \<open>Wifi_Manager\<close>: \<open>wifi_manager.cpp\<close>.
  \<^item> \<open>Boot_Sequence\<close>: \<open>main.cpp\<close> and the programming task from its start, over the drivers; the start screen is
    asked for and shown if LVGL can, and the task takes every one of its turns.
  \<^item> \<open>Current_Tester\<close>: \<open>current_tester.cpp\<close>; the test ends and reports the extremes of its readings.
  \<^item> \<open>Modem_Manager\<close>: \<open>modem_manager.cpp\<close>, with the events of the network stack arriving during calls.
    Waiting for the registration is decided within 450 polls or by ten failed reads in a row, registration reports are read
    correctly, the modem object is never used before it is there once a setup has succeeded; and two
    findings. \<open>Serving_Cell\<close>: the scan of the report on the serving cell in \<open>log_servingcell\<close>, which reads back what a modem
    prints as long as no field is empty. \<open>Quectel_Dte\<close>: \<open>quectel_dte.cpp\<close>; transactions find the modem awake, locks are balanced.
  \<^item> \<open>Sidp_Service\<close>: \<open>sidp_service.cpp\<close>; a read past the end of a frame or payload is \<open>None\<close>. Every request is
    answered once, within the buffer and under its own opcode and id (\<open>answer_to\<close> says so without the code), nothing is
    read past its end, and a whole connection is a sequence of steps of the service task of \<open>Bootstrap_Fsm\<close>.

  \<^bold>\<open>How the code is rendered\<close>

  A class is a record of its fields, a struct a record, an enum a datatype; an operation takes and
  returns the record; an error is a value of \<open>esp_err\<close> or of a sum; an out parameter is a component of
  the result. Integers keep their width. Hardware and libraries that are not part of the sources are
  parameters: for the two programmers an oracle that answers a call from the whole history of calls
  (\<open>sw_log\<close>, \<open>eb_log\<close>), so that nothing is assumed of how a target reacts; elsewhere a record of answers.
  What a theorem needs of them is a named hypothesis (\<open>pb_sizes\<close>, \<open>store_ordered\<close>, \<open>clocks_advance\<close>,
  \<open>store_keeps\<close>, \<open>run_fits\<close>, \<open>reads_full\<close>, \<open>reads_from\<close>, \<open>flash_reads\<close>, \<open>fat_sizes\<close>, \<open>sidp_layout\<close>,
  \<open>connection_ends\<close>, \<open>adc_clock\<close>, \<open>lv_fresh\<close>, \<open>lv_has_memory\<close>), with an instance on which
  the theorem is applied. Some of them say more than their names: \<open>clocks_advance\<close> includes that the current test, a parameter
  of the state machine, returns, which \<open>Device.device_clock\<close> proves for the device; \<open>connection_ends\<close> includes that a frame the
  transport delivers holds at least a header, which \<open>sidp_service.cpp\<close> relies on without a check; \<open>reads_from\<close> and
  \<open>flash_reads\<close> ask that the flash reads the same after whatever is called next, and are used at
  the start of the verification stage, which programs and erases nothing.

  \<^bold>\<open>Interfaces\<close>

  The locale \<open>transport\<close> (release makes idle, waiting keeps idle) is what the end of a run relies on. It
  is interpreted for the SWD backend (\<open>swd_transport\<close>: no pin has been driven since it was switched
  off), for the ESP32 backend (\<open>esp_transport\<close>: not connected and no flash limit left) and for the device
  (\<open>device_transport\<close>), whose instance gives the idle transport at the end of every run.

  The locale \<open>asset_frame\<close> (every call keeps the invariant and leaves files it does not own alone) is interpreted for the
  asset store (\<open>store\<close>) and carries over to all sequences of calls.

  The locale \<open>ui_contract\<close> is what a run relies on of a composer: a display call keeps its state well formed and shows
  what \<open>spec_call\<close> says. It is interpreted for the LVGL composers of both sizes (\<open>draw\<close>) and for the composer without
  a display (\<open>draw_noop\<close>). The locale \<open>disp_panel_if\<close> is \<open>driver/lcd/disp_panel_if.hpp\<close>: a panel that is up has its
  back light on and a display of the size it reports; it is interpreted for the three panels (\<open>nfp\<close>, \<open>lhs\<close>, \<open>nt\<close>).

  \<^bold>\<open>Loops and bounds\<close>

  Loops over a counter are structural or have a measure. Loops that depend on the outside are
  \<open>partial_function (option)\<close> with \<open>None\<close> for not returning, and are shown to return: \<open>poll_loop\<close> and
  \<open>run_loop\<close> when the clock advances, \<open>log_read\<close> because every entry takes room in the buffer,
  \<open>serve_connection\<close> when the peer leaves, \<open>reading_loop\<close> when the clock advances. The modem task
  runs for ever; its turns are a function, and properties hold after every number of turns. Files are below 4 GB (\<open>fat_sizes\<close>, the limit of FAT); a
  \<open>long\<close> has 32 bits; flash pages satisfy \<open>2 * page <= 2 ^ 32\<close> in the theorem on double buffering,
  because their sum is computed with 32 bits.

  \<^bold>\<open>Not modelled\<close>

  \<^item> LVGL and its port for the chip, the base classes of \<open>ui/ui_if.hpp\<close> and the ESP-IDF drivers are not part of the
    sources: their answers are parameters, and of LVGL only what the calls used here do to a tree of widgets is stated.
    Fonts are their sizes. \<open>get_lv_disp\<close> and \<open>get_panel\<close> only hand out a pointer.
  \<^item> Log output (with it the texts of \<open>loader_err_str\<close>), the table of port functions handed to the serial loader, and the trampolines that FreeRTOS needs to start a task.
\<close>

end
